(* ===== verification/Prelude.thy ===== *)
theory Prelude
  imports Main "HOL-Library.Code_Target_Nat" "HOL-Library.State_Monad" "HOL-Library.Sublist" "HOL-Library.Multiset"
begin

text \<open>
  Shared ground of the development: Go errors as a chain of wrapped values, programs that
  talk to the outside (the Hetzner APIs, the Kubernetes API, the clock) as state monad
  programs over a traced world, the range loop with early return, and the Hoare-style
  rules that all trace properties of the components are proved with.
\<close>

named_theorems valid_rules \<open>rules that decompose a validity goal along the program\<close>
named_theorems calls_rules \<open>rules for properties of all calls of a program\<close>
named_theorems go_simps \<open>unfolding facts of small helper definitions\<close>

section \<open>Errors\<close>

text \<open>
  An error value of Go is a chain: \<open>fmt.Errorf\<close> with \<^verbatim>\<open>%w\<close> wraps its operand
  (\<open>Wrap\<close>), with \<^verbatim>\<open>%v\<close> it only copies the text (\<open>Msg\<close>). The sentinel errors of
  the repository are constructors. \<open>Ext\<close> is an error of code outside the repository
  (hcloud-go, hrobot-go, client-go), known by a token and its text; how such an error is
  classified is a parameter wherever the code asks. \<open>GoPanic\<close> is a run-time panic, which no
  caller of the repository recovers from.
\<close>

datatype goerr =
    ErrNotFound | ErrNonUniqueResult | ErrAlreadyExists
  | ErrNotSet
  | ErrInvalid
  | UnkownPrefixError string
  | ErrServerNotFound
  | ErrMissingRobotCredentials
  | Ext string string
  | Msg string
  | Wrap string goerr
  | GoPanic string

text \<open>\<open>fmt.Errorf\<close> with the prefix text and a wrapped error; a panic passes through.\<close>

fun wrap :: "string \<Rightarrow> goerr \<Rightarrow> goerr" where
  "wrap p (GoPanic m) = GoPanic m"
| "wrap p e = Wrap p e"

text \<open>\<open>err.Error()\<close>.\<close>

fun err_text :: "goerr \<Rightarrow> string" where
  "err_text ErrNotFound = ''not found''"
| "err_text ErrNonUniqueResult = ''non-unique result''"
| "err_text ErrAlreadyExists = ''already exists''"
| "err_text ErrNotSet = ''not set''"
| "err_text ErrInvalid = ''invalid value, expected one of: ipv4,ipv6,dualstack''"
| "err_text (UnkownPrefixError p) =
     ''Provider ID does not have one of the the expected prefixes (hcloud://, hcloud://bm-, hrobot://): '' @ p"
| "err_text ErrServerNotFound = ''server not found''"
| "err_text ErrMissingRobotCredentials =
     ''missing robot credentials - cannot connect to robot API''"
| "err_text (Ext c t) = t"
| "err_text (Msg t) = t"
| "err_text (Wrap p e) = p @ '': '' @ err_text e"
| "err_text (GoPanic m) = m"

text \<open>\<open>fmt.Errorf\<close> with \<^verbatim>\<open>%v\<close>: the text is kept, the chain is cut.\<close>

fun flatten :: "string \<Rightarrow> goerr \<Rightarrow> goerr" where
  "flatten p (GoPanic m) = GoPanic m"
| "flatten p e = Msg (p @ '': '' @ err_text e)"

text \<open>\<open>errors.Is\<close> walks the chain.\<close>

fun errors_is :: "goerr \<Rightarrow> goerr \<Rightarrow> bool" where
  "errors_is (Wrap p e) t = (Wrap p e = t \<or> errors_is e t)"
| "errors_is e t = (e = t)"

text \<open>\<open>errors.As(err, new(*providerid.UnkownPrefixError))\<close>.\<close>

fun errors_as_unknown_prefix :: "goerr \<Rightarrow> bool" where
  "errors_as_unknown_prefix (UnkownPrefixError p) = True"
| "errors_as_unknown_prefix (Wrap p e) = errors_as_unknown_prefix e"
| "errors_as_unknown_prefix e = False"

lemma errors_is_wrap [simp]:
  "(\<And>p e. t \<noteq> Wrap p e) \<Longrightarrow> errors_is (wrap p e) t = errors_is e t"
  by (cases e) auto

lemma errors_is_self [simp]: "errors_is t t"
  by (cases t) auto

lemma errors_is_flatten [simp]:
  "(\<And>m. t \<noteq> Msg m) \<Longrightarrow> (\<And>m. t \<noteq> GoPanic m) \<Longrightarrow> \<not> errors_is (flatten p e) t"
  by (cases e) (auto dest: sym)

section \<open>Programs over a traced world\<close>

text \<open>
  The outside is a state of an arbitrary type \<open>'w\<close>, changed by the functions of an API
  record that each component takes as a parameter. Every request that leaves the program is
  logged with its response, so a property can speak about what the program did, whatever
  the outside answered. \<open>globals\<close> holds the package-level variables of the program.
\<close>

record ('c, 'g, 'w) world =
  trace :: "'c list"
  globals :: 'g
  ext :: 'w

type_synonym ('c, 'g, 'w, 'a) prog = "(('c, 'g, 'w) world, 'a) state"

definition request :: "('a \<Rightarrow> 'c) \<Rightarrow> ('w \<Rightarrow> 'a \<times> 'w) \<Rightarrow> ('c, 'g, 'w, 'a) prog" where
  "request c f = State (\<lambda>s. case f (ext s) of (a, w) \<Rightarrow>
     (a, s\<lparr>trace := trace s @ [c a], ext := w\<rparr>))"

definition read_globals :: "('g \<Rightarrow> 'a) \<Rightarrow> ('c, 'g, 'w, 'a) prog" where
  "read_globals f = State (\<lambda>s. (f (globals s), s))"

definition modify_globals :: "('g \<Rightarrow> 'g) \<Rightarrow> ('c, 'g, 'w, unit) prog" where
  "modify_globals f = State (\<lambda>s. ((), s\<lparr>globals := f (globals s)\<rparr>))"

abbreviation ret :: "'a \<Rightarrow> ('c, 'g, 'w, 'a) prog" where
  "ret \<equiv> State_Monad.return"

text \<open>
  A Go loop \<^verbatim>\<open>for _, x := range xs\<close> over a state \<open>s\<close>; the body either continues with a new
  state (\<open>Inr\<close>) or returns from the surrounding function (\<open>Inl\<close>).
\<close>

fun range_loop :: "('x \<Rightarrow> 's \<Rightarrow> ('c, 'g, 'w, 'r + 's) prog) \<Rightarrow> 'x list \<Rightarrow> 's \<Rightarrow> ('c, 'g, 'w, 'r + 's) prog"
where
  "range_loop f [] s = ret (Inr s)"
| "range_loop f (x # xs) s = do {
     r \<leftarrow> f x s;
     case r of Inl e \<Rightarrow> ret (Inl e) | Inr s' \<Rightarrow> range_loop f xs s'
   }"

text \<open>
  Iteration over a Go map visits the keys in an unspecified order. \<open>map_order ord ks\<close> is
  the order that the ranking \<open>ord\<close> picks; as \<open>ord\<close> is an arbitrary parameter, a
  theorem for all \<open>ord\<close> covers every order.
\<close>

definition map_order :: "('k \<Rightarrow> nat) \<Rightarrow> 'k list \<Rightarrow> 'k list" where
  "map_order ord ks = sort_key ord ks"

lemma mset_map_order [simp]: "mset (map_order ord ks) = mset ks"
  by (simp add: map_order_def)

lemma set_map_order [simp]: "set (map_order ord ks) = set ks"
  by (simp add: map_order_def)

lemma distinct_map_order [simp]: "distinct (map_order ord ks) = distinct ks"
  by (simp add: map_order_def)

lemma length_map_order [simp]: "length (map_order ord ks) = length ks"
  by (simp add: map_order_def)

lemma map_order_every_order:
  assumes "distinct ks" and "set ks' = set ks" and "distinct ks'"
  shows "\<exists>ord. map_order ord ks = ks'"
proof -
  define ord where "ord k = (LEAST i. i < length ks' \<and> ks' ! i = k)" for k
  have ord_nth: "ord (ks' ! i) = i" if "i < length ks'" for i
    unfolding ord_def using that assms(3)
    by (intro Least_equality) (auto simp: nth_eq_iff_index_eq)
  have "sorted (map ord ks')"
    by (auto simp: sorted_iff_nth_mono ord_nth)
  moreover have "inj_on ord (set ks)"
  proof (rule inj_onI)
    fix x y assume "x \<in> set ks" "y \<in> set ks" and eq: "ord x = ord y"
    then obtain i j where "i < length ks'" "x = ks' ! i" "j < length ks'" "y = ks' ! j"
      using assms(2) by (metis in_set_conv_nth)
    with eq ord_nth show "x = y" by auto
  qed
  moreover have "mset ks' = mset ks"
    using assms by (simp add: set_eq_iff_mset_eq_distinct)
  ultimately have "sort_key ord ks = ks'"
    by (intro sort_key_inj_key_eq) auto
  then show ?thesis by (auto simp: map_order_def)
qed

section \<open>Validity: what a program does, whatever the outside answers\<close>

definition valid :: "('c, 'g, 'w, 'a) prog \<Rightarrow> ('c list \<Rightarrow> 'a \<Rightarrow> bool) \<Rightarrow> bool" where
  "valid m Q \<longleftrightarrow> (\<forall>s. \<exists>cs. trace (snd (run_state m s)) = trace s @ cs \<and> Q cs (fst (run_state m s)))"

lemma validD:
  assumes "valid m Q" and "run_state m s = (a, s')"
  obtains cs where "trace s' = trace s @ cs" and "Q cs a"
  using assms unfolding valid_def by (metis fst_conv snd_conv)

text \<open>
  \<open>runs m cs a\<close>: from some state of the world the program returns \<open>a\<close> and logs \<open>cs\<close>. A valid
  postcondition holds of every run; \<open>outcome\<close> computes a run from an empty log.
\<close>

definition runs :: "('c, 'g, 'w, 'a) prog \<Rightarrow> 'c list \<Rightarrow> 'a \<Rightarrow> bool" where
  "runs m cs a \<longleftrightarrow> (\<exists>s s'. run_state m s = (a, s') \<and> trace s' = trace s @ cs)"

definition outcome :: "('c, 'g, 'w, 'a) prog \<Rightarrow> 'g \<Rightarrow> 'w \<Rightarrow> 'a \<times> 'c list" where
  "outcome m g w = (case run_state m \<lparr>trace = [], globals = g, ext = w\<rparr> of (a, s) \<Rightarrow> (a, trace s))"

lemma valid_runs: "valid m Q \<Longrightarrow> runs m cs a \<Longrightarrow> Q cs a"
  unfolding runs_def by (metis same_append_eq validD)

lemma validI_runs: "(\<And>s. \<exists>cs. trace (snd (run_state m s)) = trace s @ cs) \<Longrightarrow> (\<And>cs a. runs m cs a \<Longrightarrow> Q cs a) \<Longrightarrow> valid m Q"
  unfolding valid_def runs_def by (metis prod.collapse)

lemma runs_outcome: "fst (outcome m g w) = a \<Longrightarrow> runs m (snd (outcome m g w)) a"
  unfolding outcome_def runs_def by (force split: prod.splits)

lemma valid_mono: "valid m P \<Longrightarrow> (\<And>cs a. P cs a \<Longrightarrow> Q cs a) \<Longrightarrow> valid m Q"
  unfolding valid_def by metis

lemma valid_conj: "valid m P \<Longrightarrow> valid m Q \<Longrightarrow> valid m (\<lambda>cs a. P cs a \<and> Q cs a)"
  unfolding valid_def by (metis same_append_eq)

lemma valid_return [valid_rules]: "Q [] a \<Longrightarrow> valid (ret a) Q"
  by (simp add: valid_def)

lemma valid_request [valid_rules]: "(\<And>a. Q [c a] a) \<Longrightarrow> valid (request c f) Q"
  by (simp add: valid_def request_def split: prod.splits)

lemma valid_read_globals [valid_rules]: "(\<And>a. Q [] a) \<Longrightarrow> valid (read_globals f) Q"
  by (simp add: valid_def read_globals_def)

lemma valid_modify_globals [valid_rules]: "Q [] () \<Longrightarrow> valid (modify_globals f) Q"
  by (simp add: valid_def modify_globals_def)

lemma valid_bind [valid_rules]:
  assumes "valid m (\<lambda>cs a. valid (f a) (\<lambda>cs' b. Q (cs @ cs') b))"
  shows "valid (State_Monad.bind m f) Q"
  unfolding valid_def
proof
  fix s
  obtain a s1 where m: "run_state m s = (a, s1)" by (cases "run_state m s")
  obtain cs where cs: "trace s1 = trace s @ cs" "valid (f a) (\<lambda>cs' b. Q (cs @ cs') b)"
    using validD [OF assms m] by blast
  obtain b s2 where f: "run_state (f a) s1 = (b, s2)" by (cases "run_state (f a) s1")
  obtain cs' where "trace s2 = trace s1 @ cs'" "Q (cs @ cs') b"
    using validD [OF cs(2) f] by blast
  with m f cs(1) show "\<exists>cs. trace (snd (run_state (State_Monad.bind m f) s)) = trace s @ cs \<and>
      Q cs (fst (run_state (State_Monad.bind m f) s))"
    by (intro exI [of _ "cs @ cs'"]) simp
qed

lemma valid_True [simp]: "valid m (\<lambda>cs a. True) \<longleftrightarrow> (\<forall>s. \<exists>cs. trace (snd (run_state m s)) = trace s @ cs)"
  by (simp add: valid_def)

lemma valid_range_loop:
  assumes init: "I [] [] s0"
    and step: "\<And>x s cs seen rest. xs = seen @ x # rest \<Longrightarrow> I seen cs s \<Longrightarrow>
      valid (f x s) (\<lambda>cs' r. case r of Inl e \<Rightarrow> E (cs @ cs') e | Inr s' \<Rightarrow> I (seen @ [x]) (cs @ cs') s')"
  shows "valid (range_loop f xs s0) (\<lambda>cs r. case r of Inl e \<Rightarrow> E cs e | Inr s \<Rightarrow> I xs cs s)"
proof -
  have gen: "valid (range_loop f ys s) (\<lambda>cs' r. case r of Inl e \<Rightarrow> E (cs @ cs') e | Inr s' \<Rightarrow> I (seen @ ys) (cs @ cs') s')"
    if "I seen cs s" and "xs = seen @ ys" for ys seen cs s
    using that
  proof (induction ys arbitrary: seen cs s)
    case Nil
    then show ?case by (auto intro: valid_return)
  next
    case (Cons y ys)
    have "valid (f y s) (\<lambda>cs' r. case r of Inl e \<Rightarrow> E (cs @ cs') e | Inr s' \<Rightarrow> I (seen @ [y]) (cs @ cs') s')"
      using Cons.prems by (intro step) auto
    then show ?case
      apply (simp only: range_loop.simps)
      apply (rule valid_bind)
      apply (erule valid_mono)
      subgoal for cs1 r
        using Cons.IH [of "seen @ [y]" "cs @ cs1"] Cons.prems(2)
        by (cases r) (simp_all add: valid_return)
      done
  qed
  show ?thesis using gen [of "[]" "[]" s0 xs] init by simp
qed

section \<open>Programs all of whose calls have a property\<close>

definition all_calls :: "('c \<Rightarrow> bool) \<Rightarrow> ('c, 'g, 'w, 'a) prog \<Rightarrow> bool" where
  "all_calls P m \<longleftrightarrow> valid m (\<lambda>cs a. \<forall>c \<in> set cs. P c)"

lemma all_calls_return [calls_rules]: "all_calls P (ret a)"
  by (simp add: all_calls_def valid_return)

lemma all_calls_request [calls_rules]: "(\<And>a. P (c a)) \<Longrightarrow> all_calls P (request c f)"
  by (simp add: all_calls_def valid_request)

lemma all_calls_read [calls_rules]: "all_calls P (read_globals f)"
  by (simp add: all_calls_def valid_read_globals)

lemma all_calls_modify [calls_rules]: "all_calls P (modify_globals f)"
  by (simp add: all_calls_def valid_modify_globals)

lemma all_calls_bind [calls_rules]:
  "all_calls P m \<Longrightarrow> (\<And>a. all_calls P (f a)) \<Longrightarrow> all_calls P (State_Monad.bind m f)"
  unfolding all_calls_def
  by (rule valid_bind, erule valid_mono, rule valid_mono, assumption) auto

lemma all_calls_loop [calls_rules]:
  assumes "\<And>x s. all_calls P (f x s)"
  shows "all_calls P (range_loop f xs s)"
proof (induction xs arbitrary: s)
  case (Cons x xs)
  show ?case
    unfolding range_loop.simps
    by (intro all_calls_bind assms) (auto intro: all_calls_return Cons.IH split: sum.split)
qed (simp add: all_calls_return)

lemma all_calls_mono: "all_calls P m \<Longrightarrow> (\<And>c. P c \<Longrightarrow> Q c) \<Longrightarrow> all_calls Q m"
  unfolding all_calls_def by (erule valid_mono) auto

lemma all_calls_cases [calls_rules]:
  "(\<And>a. v = Inl a \<Longrightarrow> all_calls P (f a)) \<Longrightarrow> (\<And>b. v = Inr b \<Longrightarrow> all_calls P (g b)) \<Longrightarrow> all_calls P (case v of Inl a \<Rightarrow> f a | Inr b \<Rightarrow> g b)"
  "(u = None \<Longrightarrow> all_calls P m) \<Longrightarrow> (\<And>x. u = Some x \<Longrightarrow> all_calls P (h x)) \<Longrightarrow> all_calls P (case u of None \<Rightarrow> m | Some x \<Rightarrow> h x)"
  "(\<And>x y. w = (x, y) \<Longrightarrow> all_calls P (k x y)) \<Longrightarrow> all_calls P (case w of (x, y) \<Rightarrow> k x y)"
  "(b \<Longrightarrow> all_calls P m) \<Longrightarrow> (\<not> b \<Longrightarrow> all_calls P m') \<Longrightarrow> all_calls P (if b then m else m')"
  by (auto split: sum.split option.split prod.split)

lemma all_calls_runs: "all_calls P m \<Longrightarrow> runs m cs a \<Longrightarrow> c \<in> set cs \<Longrightarrow> P c"
  unfolding all_calls_def by (drule (1) valid_runs) blast

lemma valid_reads: "all_calls P m \<Longrightarrow> (\<And>cs a. \<forall>c \<in> set cs. P c \<Longrightarrow> Q cs a) \<Longrightarrow> valid m Q"
  unfolding all_calls_def by (erule valid_mono)

section \<open>Small facts on lists and maps\<close>

lemma map_sum_Inr_iff [simp]: "map_sum f id a = Inr x \<longleftrightarrow> a = Inr x"
  by (cases a) auto

lemma filter_eq_self: "(\<And>x. x \<in> set xs \<Longrightarrow> P x) \<Longrightarrow> filter P xs = xs"
  by (induction xs) auto

lemma list_all_append_iff [go_simps]: "list_all P (xs @ ys) \<longleftrightarrow> list_all P xs \<and> list_all P ys"
  by (induction xs) auto

end
