(* ===== verification/GoNet.thy ===== *)
theory GoNet
  imports GoStrings "HOL-Library.Word"
begin

unbundle bit_operations_syntax

text \<open>
  What the repository uses of Go's \<open>net\<close> and \<open>net/netip\<close> packages. A \<open>net.IP\<close> is a slice
  of bytes: nil is the empty list, an IPv4 address has 4 bytes or is the last 4 of the 16
  bytes \<open>::ffff:a.b.c.d\<close>.
\<close>

type_synonym ip = "8 word list"

section \<open>net.IP\<close>

definition v4InV6Prefix :: ip where
  "v4InV6Prefix = replicate 10 0 @ [255, 255]"

text \<open>\<open>To4\<close>: the empty list is nil.\<close>

definition To4 :: "ip \<Rightarrow> ip" where
  "To4 x = (if length x = 4 then x
            else if length x = 16 \<and> take 12 x = v4InV6Prefix then drop 12 x
            else [])"

definition ip_equal :: "ip \<Rightarrow> ip \<Rightarrow> bool" where
  "ip_equal x y =
     (if length x = length y then x = y
      else if length x = 4 \<and> length y = 16 then y = v4InV6Prefix @ x
      else if length x = 16 \<and> length y = 4 then x = v4InV6Prefix @ y
      else False)"

definition IPv4zero :: ip where "IPv4zero = v4InV6Prefix @ [0, 0, 0, 0]"
definition IPv6unspecified :: ip where "IPv6unspecified = replicate 16 0"

definition IsUnspecified :: "ip \<Rightarrow> bool" where
  "IsUnspecified x \<longleftrightarrow> ip_equal x IPv4zero \<or> ip_equal x IPv6unspecified"

text \<open>A nil address is not "unspecified": it equals neither of the two constants.\<close>

lemma nil_not_unspecified: "\<not> IsUnspecified []"
  by (simp add: IsUnspecified_def ip_equal_def IPv4zero_def IPv6unspecified_def v4InV6Prefix_def)

lemma ip_equal_refl [simp]: "ip_equal x x"
  by (simp add: ip_equal_def)

lemma ip_equal_sym: "ip_equal x y = ip_equal y x"
  by (auto simp: ip_equal_def)

lemma length_To4: "length (To4 x) = 4 \<or> To4 x = []"
  by (simp add: To4_def)

section \<open>Printing\<close>

definition byte_text :: "8 word \<Rightarrow> string" where
  "byte_text b = show_nat (unat b)"

definition ip4_text :: "ip \<Rightarrow> string" where
  "ip4_text x = join ''.'' (map byte_text x)"

definition hex_char :: "nat \<Rightarrow> char" where
  "hex_char d = (if d < 10 then char_of (48 + d) else char_of (87 + d))"

fun show_hex :: "nat \<Rightarrow> string" where
  "show_hex n = (if n < 16 then [hex_char n] else show_hex (n div 16) @ [hex_char (n mod 16)])"

declare show_hex.simps [simp del]

fun groups16 :: "ip \<Rightarrow> nat list" where
  "groups16 (a # b # r) = (unat a * 256 + unat b) # groups16 r"
| "groups16 r = []"

text \<open>The length of the run of zero groups at the start, and the first longest run of at least two.\<close>

definition zero_run :: "nat list \<Rightarrow> nat" where
  "zero_run gs = length (takeWhile (\<lambda>g. g = 0) gs)"

definition longest_run :: "nat list \<Rightarrow> (nat \<times> nat) option" where
  "longest_run gs = fold (\<lambda>i best.
     let l = zero_run (drop i gs)
     in if 2 \<le> l \<and> (case best of None \<Rightarrow> True | Some (_, b) \<Rightarrow> b < l) then Some (i, l) else best)
     [0..<length gs] None"

text \<open>The text form of RFC 5952, as \<open>netip.Addr.String\<close> prints it.\<close>

definition ip6_text :: "ip \<Rightarrow> string" where
  "ip6_text x =
     (let gs = groups16 x
      in case longest_run gs of
           None \<Rightarrow> join '':'' (map show_hex gs)
         | Some (i, l) \<Rightarrow> join '':'' (map show_hex (take i gs)) @ ''::'' @
             join '':'' (map show_hex (drop (i + l) gs)))"

text \<open>\<open>IP.String\<close>.\<close>

definition ip_text :: "ip \<Rightarrow> string" where
  "ip_text x =
     (if x = [] then ''<nil>''
      else if length x \<noteq> 4 \<and> length x \<noteq> 16
        then CHR ''?'' # concat (map (\<lambda>b. [hex_char (unat b div 16), hex_char (unat b mod 16)]) x)
      else if To4 x \<noteq> [] then ip4_text (To4 x)
      else ip6_text x)"

section \<open>Parsing addresses\<close>

definition octet_ok :: "string \<Rightarrow> bool" where
  "octet_ok p \<longleftrightarrow> p \<noteq> [] \<and> list_all is_digit p \<and> (length p = 1 \<or> hd p \<noteq> CHR ''0'') \<and> read_digits p \<le> 255"

definition parse_ip4_fields :: "string \<Rightarrow> ip option" where
  "parse_ip4_fields s =
     (let ps = split_on CHR ''.'' s
      in if length ps = 4 \<and> list_all octet_ok ps then Some (map (\<lambda>p. of_nat (read_digits p)) ps) else None)"

definition is_hex :: "char \<Rightarrow> bool" where
  "is_hex c \<longleftrightarrow> is_digit c \<or> of_char c \<in> {97..102::nat} \<or> of_char c \<in> {65..70::nat}"

definition hex_val :: "char \<Rightarrow> nat" where
  "hex_val c = (if is_digit c then of_char c - 48
     else if of_char c \<in> {97..102::nat} then of_char c - 87 else of_char c - 55)"

definition read_hex :: "string \<Rightarrow> nat" where
  "read_hex s = foldl (\<lambda>v c. v * 16 + hex_val c) 0 s"

text \<open>
  The loop of \<open>netip.parseIPv6\<close>. The first argument counts the 16-bit groups that still fit, the
  second is the bytes read so far, the third the byte position of the ellipsis.
\<close>

fun ip6_loop :: "nat \<Rightarrow> ip \<Rightarrow> nat option \<Rightarrow> string \<Rightarrow> (ip \<times> nat option \<times> string) option" where
  "ip6_loop 0 acc ell s = Some (acc, ell, s)"
| "ip6_loop (Suc n) acc ell s =
     (let h = takeWhile is_hex s; rest = dropWhile is_hex s
      in if h = [] \<or> 4 < length h then None
         else if rest \<noteq> [] \<and> hd rest = CHR ''.'' then
           (if (ell = None \<and> length acc \<noteq> 12) \<or> 16 < length acc + 4 then None
            else case parse_ip4_fields s of None \<Rightarrow> None | Some v4 \<Rightarrow> Some (acc @ v4, ell, []))
         else
           (let acc' = acc @ [of_nat (read_hex h div 256), of_nat (read_hex h mod 256)]
            in if rest = [] then Some (acc', ell, [])
               else if hd rest \<noteq> CHR '':'' \<or> tl rest = [] then None
               else if hd (tl rest) = CHR '':'' then
                 (if ell \<noteq> None then None
                  else if tl (tl rest) = [] then Some (acc', Some (length acc'), [])
                  else ip6_loop n acc' (Some (length acc')) (tl (tl rest)))
               else ip6_loop n acc' ell (tl rest)))"

definition ip6_finish :: "ip \<times> nat option \<times> string \<Rightarrow> ip option" where
  "ip6_finish r = (case r of (acc, ell, s) \<Rightarrow>
     if s \<noteq> [] then None
     else if length acc < 16 then
       (case ell of None \<Rightarrow> None | Some e \<Rightarrow> Some (take e acc @ replicate (16 - length acc) 0 @ drop e acc))
     else if ell \<noteq> None then None else Some acc)"

definition parse_ip6_groups :: "string \<Rightarrow> ip option" where
  "parse_ip6_groups s =
     (if has_prefix ''::'' s then
        (if drop 2 s = [] then Some (replicate 16 0)
         else Option.bind (ip6_loop 8 [] (Some 0) (drop 2 s)) ip6_finish)
      else Option.bind (ip6_loop 8 [] None s) ip6_finish)"

text \<open>
  \<open>netip.ParseAddr\<close>: the kind of the first separator decides; a zone is kept apart. The result is
  the 4 or 16 bytes and the zone (empty for none).
\<close>

definition parse_addr :: "string \<Rightarrow> (ip \<times> string) option" where
  "parse_addr s =
     (case find (\<lambda>c. c = CHR ''.'' \<or> c = CHR '':'' \<or> c = CHR ''%'') s of
        None \<Rightarrow> None
      | Some c \<Rightarrow>
          if c = CHR ''.'' then map_option (\<lambda>v. (v, [])) (parse_ip4_fields s)
          else if c = CHR '':'' then
            (let addr = takeWhile (\<lambda>d. d \<noteq> CHR ''%'') s; zone = tl (dropWhile (\<lambda>d. d \<noteq> CHR ''%'') s)
             in if CHR ''%'' \<in> set s \<and> zone = [] then None
                else map_option (\<lambda>v. (v, if CHR ''%'' \<in> set s then zone else [])) (parse_ip6_groups addr))
          else None)"

definition as16 :: "ip \<Rightarrow> ip" where
  "as16 x = (if length x = 4 then v4InV6Prefix @ x else x)"

text \<open>\<open>net.ParseIP\<close>: nil (the empty list) for anything but an address without a zone.\<close>

definition ParseIP :: "string \<Rightarrow> ip" where
  "ParseIP s = (case parse_addr s of Some (v, z) \<Rightarrow> if z = [] then as16 v else [] | None \<Rightarrow> [])"

section \<open>Networks\<close>

fun mask_bits :: "nat \<Rightarrow> ip \<Rightarrow> ip" where
  "mask_bits n [] = []"
| "mask_bits n (b # bs) =
     (if 8 \<le> n then b # mask_bits (n - 8) bs
      else (b AND NOT (mask (8 - n))) # mask_bits 0 bs)"

text \<open>\<open>net.IPNet\<close>: the address, the number of leading ones of its mask and the mask's width in bits.\<close>

record ipnet =
  ipn_ip :: ip
  ipn_ones :: nat
  ipn_bits :: nat

definition ParseCIDR :: "string \<Rightarrow> ipnet option" where
  "ParseCIDR s =
     (let addr = takeWhile (\<lambda>c. c \<noteq> CHR ''/'') s; m = tl (dropWhile (\<lambda>c. c \<noteq> CHR ''/'') s)
      in if CHR ''/'' \<notin> set s then None
         else case parse_addr addr of
                None \<Rightarrow> None
              | Some (v, z) \<Rightarrow>
                  if z \<noteq> [] \<or> m = [] \<or> \<not> list_all is_digit m \<or> 8 * length v < read_digits m then None
                  else Some \<lparr>ipn_ip = mask_bits (read_digits m) v, ipn_ones = read_digits m,
                             ipn_bits = 8 * length v\<rparr>)"

text \<open>\<open>IPNet.String\<close>.\<close>

definition ipnet_text :: "ipnet \<Rightarrow> string" where
  "ipnet_text n =
     (let x = (if To4 (ipn_ip n) \<noteq> [] then To4 (ipn_ip n) else ipn_ip n)
      in if (length x \<noteq> 4 \<and> length x \<noteq> 16) \<or> (length x = 16 \<and> ipn_bits n = 32) then ''<nil>''
         else if length x = 4 \<and> ipn_bits n = 128 then ip_text x @ ''/'' @ show_nat (ipn_ones n - 96)
         else ip_text x @ ''/'' @ show_nat (ipn_ones n))"

text \<open>\<open>netip.ParsePrefix\<close> followed by \<open>Masked\<close>: the address bytes (their number is the family) and the
  length. A sign or a leading zero in the length is refused.\<close>

definition after_last_slash :: "string \<Rightarrow> string" where
  "after_last_slash s = rev (takeWhile (\<lambda>c. c \<noteq> CHR ''/'') (rev s))"

definition before_last_slash :: "string \<Rightarrow> string" where
  "before_last_slash s = rev (tl (dropWhile (\<lambda>c. c \<noteq> CHR ''/'') (rev s)))"

definition ParsePrefix_Masked :: "string \<Rightarrow> (ip \<times> nat) option" where
  "ParsePrefix_Masked s =
     (if CHR ''/'' \<notin> set s then None
      else case parse_addr (before_last_slash s) of
             None \<Rightarrow> None
           | Some (v, z) \<Rightarrow>
               (let b = after_last_slash s
                in if z \<noteq> [] \<or> (1 < length b \<and> (\<not> is_digit (hd b) \<or> hd b = CHR ''0'')) then None
                   else case atoi b of
                          None \<Rightarrow> None
                        | Some k \<Rightarrow> if k < 0 \<or> int (8 * length v) < k then None
                                   else Some (mask_bits (nat k) v, nat k)))"

end
