(* ===== verification/GoTime.thy ===== *)
theory GoTime
  imports Complex_Main GoStrings "HOL-Library.Log_Nat"
begin

text \<open>
  What the repository uses of Go's \<open>time\<close> package. A \<open>time.Duration\<close> is a number of
  nanoseconds, a \<open>time.Time\<close> the nanoseconds since the zero time (the start of year 1), so
  the zero time is 0 and \<open>Add\<close>, \<open>Before\<close> and \<open>After\<close> are addition and comparison.
\<close>

type_synonym duration = int
type_synonym time = int

definition Microsecond :: duration where "Microsecond = 1000"
definition Millisecond :: duration where "Millisecond = 1000000"
definition Second :: duration where "Second = 1000000000"
definition Minute :: duration where "Minute = 60 * Second"
definition Hour :: duration where "Hour = 60 * Minute"

lemmas duration_units = Microsecond_def Millisecond_def Second_def Minute_def Hour_def

section \<open>ParseDuration\<close>

text \<open>The binary64 value nearest to a positive rational, ties to even.\<close>

definition pow2 :: "int \<Rightarrow> rat" where
  "pow2 e = (if 0 \<le> e then 2 ^ nat e else 1 / 2 ^ nat (- e))"

definition round_half_even :: "rat \<Rightarrow> int" where
  "round_half_even q =
     (let f = \<lfloor>q\<rfloor>; r = q - of_int f
      in if r < 1 / 2 then f else if 1 / 2 < r then f + 1 else if even f then f else f + 1)"

definition binary64 :: "rat \<Rightarrow> rat" where
  "binary64 q =
     (if q \<le> 0 then 0
      else let nd = quotient_of q;
               e0 = int (floorlog 2 (nat (fst nd))) - int (floorlog 2 (nat (snd nd))) - 53;
               e = (if 2 ^ 53 \<le> q / pow2 e0 then e0 + 1 else e0)
           in of_int (round_half_even (q / pow2 e)) * pow2 e)"

text \<open>\<open>leadingFraction\<close>: the digits after the point and their scale, digits beyond 63 bits dropped.\<close>

fun leading_fraction :: "string \<Rightarrow> nat \<Rightarrow> rat \<Rightarrow> bool \<Rightarrow> nat \<times> rat" where
  "leading_fraction [] x scale overflow = (x, scale)"
| "leading_fraction (c # s) x scale overflow =
     (let y = x * 10 + digit_val c
      in if overflow then leading_fraction s x scale True
         else if (2 ^ 63 - 1) div 10 < x \<or> 2 ^ 63 < y then leading_fraction s x scale True
         else leading_fraction s y (binary64 (scale * 10)) False)"

definition unit_ns :: "string \<Rightarrow> nat option" where
  "unit_ns u =
     (if u = ''ns'' then Some 1
      else if u = ''us'' \<or> u = [CHR 0xC2, CHR 0xB5, CHR ''s''] \<or> u = [CHR 0xCE, CHR 0xBC, CHR ''s'']
        then Some 1000
      else if u = ''ms'' then Some 1000000
      else if u = ''s'' then Some 1000000000
      else if u = ''m'' then Some 60000000000
      else if u = ''h'' then Some 3600000000000
      else None)"

text \<open>One number with its unit: the nanoseconds, \<open>None\<close> on overflow.\<close>

definition component_ns :: "string \<Rightarrow> string \<Rightarrow> nat \<Rightarrow> nat option" where
  "component_ns ip fp unit =
     (let v = read_digits ip
      in if 2 ^ 63 < v \<or> 2 ^ 63 div unit < v then None
         else case leading_fraction fp 0 1 False of
                (f, scale) \<Rightarrow>
                  (let w = v * unit + (if 0 < f
                        then nat \<lfloor>binary64 (binary64 (of_nat f) * binary64 (of_nat unit / scale))\<rfloor> else 0)
                   in if 2 ^ 63 < w then None else Some w))"

definition is_unit_char :: "char \<Rightarrow> bool" where
  "is_unit_char c \<longleftrightarrow> c \<noteq> CHR ''.'' \<and> \<not> is_digit c"

definition split_component :: "string \<Rightarrow> string \<times> string \<times> string \<times> string" where
  "split_component s =
     (let r1 = dropWhile is_digit s;
          dot = (r1 \<noteq> [] \<and> hd r1 = CHR ''.'');
          fp = (if dot then takeWhile is_digit (tl r1) else []);
          r2 = (if dot then dropWhile is_digit (tl r1) else r1)
      in (takeWhile is_digit s, fp, takeWhile is_unit_char r2, dropWhile is_unit_char r2))"

lemma split_component_shorter:
  assumes "split_component s = (ip, fp, u, r)" and "ip \<noteq> [] \<or> fp \<noteq> []"
  shows "length r < length s"
proof -
  let ?r1 = "dropWhile is_digit s"
  have "length ?r1 \<le> length s" by (rule length_dropWhile_le)
  moreover have "length ?r1 < length s" if "ip \<noteq> []"
    using that assms(1) by (cases s) (auto simp: split_component_def Let_def length_dropWhile_le le_imp_less_Suc split: if_splits)
  moreover have "length (tl ?r1) < length ?r1" if "?r1 \<noteq> []"
    using that by (cases ?r1) auto
  moreover have "length r \<le> length ?r1" and "fp \<noteq> [] \<Longrightarrow> ?r1 \<noteq> [] \<and> length r \<le> length (tl ?r1)"
    using assms(1) length_dropWhile_le [of is_unit_char "dropWhile is_digit (tl ?r1)"]
      length_dropWhile_le [of is_digit "tl ?r1"] length_dropWhile_le [of is_unit_char ?r1]
    by (auto simp: split_component_def Let_def split: if_splits simp del: dropWhile_eq_Nil_conv)
  ultimately show ?thesis using assms(2) by fastforce
qed

text \<open>The loop of \<open>time.ParseDuration\<close> over the components, adding up in 64 bits.\<close>

function duration_loop :: "nat \<Rightarrow> string \<Rightarrow> nat option" where
  "duration_loop d s =
     (if s = [] then Some d
      else case split_component s of (ip, fp, u, r) \<Rightarrow>
        if ip = [] \<and> fp = [] then None
        else case unit_ns u of
               None \<Rightarrow> None
             | Some unit \<Rightarrow>
                 (case component_ns ip fp unit of
                    None \<Rightarrow> None
                  | Some v \<Rightarrow>
                      if 2 ^ 63 < (d + v) mod 2 ^ 64 then None
                      else duration_loop ((d + v) mod 2 ^ 64) r))"
  by pat_completeness auto
termination
  by (relation "measure (\<lambda>(d, s). length s)") (auto simp: split_component_shorter dest!: sym [of _ "split_component _"])

declare duration_loop.simps [simp del]

definition ParseDuration :: "string \<Rightarrow> duration option" where
  "ParseDuration s =
     (let neg = (s \<noteq> [] \<and> hd s = CHR ''-'');
          body = (if s \<noteq> [] \<and> (hd s = CHR ''-'' \<or> hd s = CHR ''+'') then tl s else s)
      in if body = ''0'' then Some 0
         else if body = [] then None
         else case duration_loop 0 body of
                None \<Rightarrow> None
              | Some d \<Rightarrow> if neg then Some (- int d)
                          else if 2 ^ 63 - 1 < d then None else Some (int d))"

section \<open>Duration.String\<close>

text \<open>\<open>fmtFrac\<close>: the lowest \<open>prec\<close> decimal digits as a fraction without trailing zeros.\<close>

fun frac_digits :: "nat \<Rightarrow> nat \<Rightarrow> string \<Rightarrow> string" where
  "frac_digits 0 v acc = acc"
| "frac_digits (Suc k) v acc =
     frac_digits k (v div 10)
       (if v mod 10 = 0 \<and> acc = [] then [] else digit_char (v mod 10) # acc)"

definition with_frac :: "nat \<Rightarrow> nat \<Rightarrow> string" where
  "with_frac prec v =
     (let f = frac_digits prec v []
      in show_nat (v div 10 ^ prec) @ (if f = [] then [] else CHR ''.'' # f))"

definition duration_text :: "duration \<Rightarrow> string" where
  "duration_text d =
     (let u = nat \<bar>d\<bar>;
          body = (if u = 0 then ''0s''
            else if u < 1000 then show_nat u @ ''ns''
            else if u < 1000000 then with_frac 3 u @ [CHR 0xC2, CHR 0xB5, CHR ''s'']
            else if u < 1000000000 then with_frac 6 u @ ''ms''
            else
              (let secs = u div 1000000000; f = frac_digits 9 u [];
                   s = show_nat (secs mod 60) @ (if f = [] then [] else CHR ''.'' # f) @ ''s'';
                   mins = secs div 60
               in if mins = 0 then s
                  else if mins div 60 = 0 then show_nat (mins mod 60) @ ''m'' @ s
                  else show_nat (mins div 60) @ ''h'' @ show_nat (mins mod 60) @ ''m'' @ s))
      in if d < 0 then CHR ''-'' # body else body)"

section \<open>Whole seconds\<close>

lemma frac_digits_zero: "frac_digits k (v * 10 ^ k) [] = []"
proof (induction k arbitrary: v)
  case (Suc k)
  have "v * 10 ^ Suc k = 10 * (v * 10 ^ k)" by simp
  then show ?case using Suc.IH [of v] by (simp only: frac_digits.simps) simp
qed simp

lemma split_show_nat:
  assumes "is_unit_char c" and "r = [] \<or> is_digit (hd r)"
  shows "split_component (show_nat v @ c # r) = (show_nat v, [], [c], r)"
proof -
  have "\<forall>x \<in> set (show_nat v). is_digit x" using show_nat_digits [of v] by (simp add: list_all_iff)
  then have "takeWhile is_digit (show_nat v @ c # r) = show_nat v" "dropWhile is_digit (show_nat v @ c # r) = c # r"
    using assms(1) by (simp_all add: is_unit_char_def takeWhile_append2 dropWhile_append2)
  moreover have "takeWhile is_unit_char r = []" "dropWhile is_unit_char r = r"
    using assms(2) by (cases r; simp add: is_unit_char_def)+
  ultimately show ?thesis using assms(1) by (simp add: split_component_def is_unit_char_def)
qed

lemma duration_loop_unit:
  assumes "is_unit_char c" and "r = [] \<or> is_digit (hd r)" and "unit_ns [c] = Some unit" and "d + v * unit < 2 ^ 63" and "0 < unit"
  shows "duration_loop d (show_nat v @ c # r) = duration_loop (d + v * unit) r"
proof -
  have "v \<le> 2 ^ 63 div unit" using assms(4,5) by (simp add: less_eq_div_iff_mult_less_eq)
  moreover from this have "v \<le> 2 ^ 63" by (rule order_trans) (rule div_le_dividend)
  ultimately have "component_ns (show_nat v) [] unit = Some (v * unit)"
    using assms(4) by (simp add: component_ns_def read_show_nat Let_def)
  moreover have "(d + v * unit) mod 2 ^ 64 = d + v * unit" using assms(4) by simp
  ultimately show ?thesis
    using assms(3,4) split_show_nat [OF assms(1,2)]
    by (subst duration_loop.simps) simp
qed

definition whole_seconds :: "duration \<Rightarrow> bool" where
  "whole_seconds d \<longleftrightarrow> 0 \<le> d \<and> d < 2 ^ 63 \<and> d mod Second = 0"

text \<open>A duration of whole seconds is read back from its text.\<close>

lemma ParseDuration_text:
  assumes "whole_seconds d"
  shows "ParseDuration (duration_text d) = Some d"
proof (cases "d = 0")
  case True
  have "ParseDuration ''0s'' = Some 0" by code_simp
  then show ?thesis using True by (simp add: duration_text_def)
next
  case False
  define k where "k = nat (d div Second)"
  have d: "d = int (k * 1000000000)" using assms by (auto simp: whole_seconds_def k_def Second_def)
  then have k: "0 < k" "k * 1000000000 < 2 ^ 63" using False assms by (auto simp: whole_seconds_def)
  have f: "frac_digits 9 (k * 1000000000) [] = []" using frac_digits_zero [of 9 k] by simp
  define n m s :: nat where "n = k div 60 div 60" and "m = k div 60 mod 60" and "s = k mod 60"
  have hms: "(n * 60 + m) * 60 + s = k" by (simp add: n_def m_def s_def)
  have "n * 3600000000000 + m * 60000000000 + s * 1000000000 = k * 1000000000" by (simp add: hms [symmetric] algebra_simps)
  then have sum: "m * 60000000000 + n * 3600000000000 + s * 1000000000 = k * 1000000000" by simp
  let ?s = "show_nat s @ ''s''" and ?m = "show_nat m @ ''m''" and ?h = "show_nat n @ ''h''"
  have shown: "duration_text d = (if k div 60 = 0 then ?s else if n = 0 then ?m @ ?s else ?h @ ?m @ ?s)"
  proof -
    have u: "nat \<bar>d\<bar> = k * 1000000000" by (simp only: d)
    have secs: "k * 1000000000 div 1000000000 = k" by simp
    have big: "\<not> k * 1000000000 < 1000000000" "\<not> k * 1000000000 < 1000000" "\<not> k * 1000000000 < 1000" "k * 1000000000 \<noteq> 0" "\<not> d < 0"
      using k(1) d by simp_all
    show ?thesis
      unfolding duration_text_def Let_def u secs f n_def m_def s_def by (simp only: big if_False if_True simp_thms append_Nil append_Cons append_assoc)
  qed
  have digit: "is_digit (hd (show_nat i @ t))" for i t using show_nat_hd [of i] by simp
  have units: "is_unit_char CHR ''s''" "is_unit_char CHR ''m''" "is_unit_char CHR ''h''"
    "unit_ns [CHR ''s''] = Some 1000000000" "unit_ns [CHR ''m''] = Some 60000000000" "unit_ns [CHR ''h''] = Some 3600000000000"
    by code_simp+
  have secs: "duration_loop e ?s = Some (e + s * 1000000000)" if "e + s * 1000000000 = k * 1000000000" for e
    using duration_loop_unit [OF units(1) _ units(4), of "[]" e s] that k(2) by (simp add: duration_loop.simps)
  have mins: "duration_loop e (?m @ ?s) = Some (e + m * 60000000000 + s * 1000000000)"
    if "e + m * 60000000000 + s * 1000000000 = k * 1000000000" for e
    using duration_loop_unit [OF units(2) _ units(5), of ?s e m] secs [of "e + m * 60000000000"] that k(2) digit by simp
  have hour: "duration_loop 0 (?h @ ?m @ ?s) = Some (k * 1000000000)"
    using duration_loop_unit [OF units(3) _ units(6), of "?m @ ?s" 0 n] mins [of "n * 3600000000000"] sum k(2) digit by simp
  have loop: "duration_loop 0 (duration_text d) = Some (k * 1000000000)"
  proof (cases "k div 60 = 0")
    case True
    then have "n = 0" "m = 0" by (simp_all add: n_def m_def)
    then show ?thesis using True secs [of 0] sum shown by simp
  next
    case False
    then show ?thesis using mins [of 0] hour sum shown by (cases "n = 0") simp_all
  qed
  have start: "duration_text d \<noteq> []" "is_digit (hd (duration_text d))" using digit shown by simp_all
  have "duration_loop 0 ''0'' = None" by code_simp
  then have "duration_text d \<noteq> ''0''" using loop by auto
  then show ?thesis
    using start is_digit_not_sign [OF start(2)] loop k(2) by (simp add: ParseDuration_def Let_def d)
qed

end
