(* ===== verification/K8sTypes.thy ===== *)
theory K8sTypes
  imports GoStrings
begin

text \<open>
  The Kubernetes objects as far as the repository reads and writes them: a node
  (\<open>corev1.Node\<close>), a service port and a service (\<open>corev1.Service\<close>). A Go map of annotations
  or labels is a partial function; a nil map reads like an empty one.
\<close>

record node =
  nd_name :: string
  nd_provider_id :: string
  nd_labels :: "string \<rightharpoonup> string"

record service_port =
  sp_port :: int
  sp_node_port :: int

record service =
  svc_uid :: string
  svc_name :: string
  svc_namespace :: string
  svc_annotations :: "string \<rightharpoonup> string"
  svc_ports :: "service_port list"
  svc_source_ranges :: "string list"
  svc_resource_version :: string
  svc_deleting :: bool

definition empty_service :: service where
  "empty_service = \<lparr>svc_uid = '''', svc_name = '''', svc_namespace = '''', svc_annotations = Map.empty,
     svc_ports = [], svc_source_ranges = [], svc_resource_version = '''', svc_deleting = False\<rparr>"

definition node_of :: "string \<Rightarrow> string \<Rightarrow> node" where
  "node_of n p = \<lparr>nd_name = n, nd_provider_id = p, nd_labels = Map.empty\<rparr>"

lemma node_of_simps [simp]:
  "nd_name (node_of n p) = n" "nd_provider_id (node_of n p) = p"
  by (simp_all add: node_of_def)

end
