(* ===== verification/HCloudTypes.thy ===== *)
theory HCloudTypes
  imports K8sTypes GoNet GoTime
begin

text \<open>
  The Hetzner Cloud objects as far as the repository reads them: the fields of
  hcloud-go's \<open>LoadBalancer\<close>, \<open>Network\<close>, \<open>Server\<close> and \<open>Certificate\<close> and of
  hrobot-go's \<open>models.Server\<close> that its code mentions. String-typed enumerations of
  hcloud-go (protocols, algorithm and certificate types) stay strings.
\<close>

record certificate =
  cert_id :: int
  cert_name :: string

record health_http =
  hh_domain :: string
  hh_path :: string
  hh_status_codes :: "string list"
  hh_tls :: bool

record health_check =
  hc_protocol :: string
  hc_port :: int
  hc_interval :: duration
  hc_timeout :: duration
  hc_retries :: int
  hc_http :: "health_http option"

record hclb_service =
  hs_protocol :: string
  hs_listen_port :: int
  hs_proxyprotocol :: bool
  hs_cookie_name :: string
  hs_cookie_lifetime :: duration
  hs_certificates :: "certificate list"
  hs_redirect_http :: bool
  hs_health_check :: health_check

text \<open>A target is a cloud server (with the flag for its private address), an IP, or neither.\<close>

datatype lb_target = ServerTarget int bool | IPTarget string | OtherTarget

record private_net =
  pn_network :: int
  pn_ip :: ip

record load_balancer =
  lb_id :: int
  lb_name :: string
  lb_labels :: "string \<rightharpoonup> string"
  lb_type :: "string option"
  lb_algorithm :: string
  lb_location :: string
  lb_network_zone :: string
  lb_public_enabled :: bool
  lb_ipv4 :: ip
  lb_ipv4_ptr :: string
  lb_ipv6 :: ip
  lb_ipv6_ptr :: string
  lb_private_net :: "private_net list"
  lb_services :: "hclb_service list"
  lb_targets :: "lb_target list"
  lb_protected :: bool

record network_route =
  nr_destination :: ipnet
  nr_gateway :: ip

record network =
  nw_id :: int
  nw_name :: string
  nw_routes :: "network_route list"

record cloud_server =
  cs_id :: int
  cs_name :: string
  cs_status_off :: bool
  cs_type_name :: string
  cs_location :: string
  cs_ipv4 :: ip
  cs_ipv6 :: ip
  cs_private_net :: "private_net list"

record robot_server =
  rs_number :: int
  rs_name :: string
  rs_ip :: string
  rs_ipv6_net :: string
  rs_product :: string
  rs_dc :: string

definition sample_lb :: load_balancer where
  "sample_lb = \<lparr>lb_id = 1, lb_name = ''lb'', lb_labels = Map.empty, lb_type = Some ''lb11'',
     lb_algorithm = ''round_robin'', lb_location = ''fsn1'', lb_network_zone = ''eu-central'',
     lb_public_enabled = True, lb_ipv4 = [1, 2, 3, 4], lb_ipv4_ptr = '''', lb_ipv6 = replicate 16 1,
     lb_ipv6_ptr = '''', lb_private_net = [], lb_services = [], lb_targets = [], lb_protected = False\<rparr>"

lemma sample_lb_simps [simp]:
  "lb_id sample_lb = 1" "lb_name sample_lb = ''lb''" "lb_labels sample_lb = Map.empty"
  "lb_type sample_lb = Some ''lb11''" "lb_private_net sample_lb = []" "lb_services sample_lb = []"
  "lb_targets sample_lb = []" "lb_public_enabled sample_lb" "lb_ipv4 sample_lb = [1, 2, 3, 4]"
  "lb_ipv6 sample_lb = replicate 16 1" "lb_algorithm sample_lb = ''round_robin''"
  "\<not> lb_protected sample_lb"
  by (simp_all add: sample_lb_def)

end
