(* ===== verification/AddressFamily.thy ===== *)
theory AddressFamily
  imports GoStrings
begin

text \<open>
  \<open>internal/addressfamily\<close>: which addresses of a server are used. The Go type is an
  integer with three named values; \<open>Parse\<close> returns \<open>-1\<close> beside its error only, so the
  error case carries no family here.
\<close>

datatype family = DualStack | IPv6 | IPv4

definition Parse :: "string \<Rightarrow> goerr + family" where
  "Parse v =
     (let w = to_lower v
      in if w = ''ipv6'' then Inr IPv6
         else if w = ''ipv4'' then Inr IPv4
         else if w = ''dualstack'' then Inr DualStack
         else Inl ErrInvalid)"

definition UsesIPv4 :: "family \<Rightarrow> bool" where
  "UsesIPv4 f \<longleftrightarrow> f = IPv4 \<or> f = DualStack"

definition UsesIPv6 :: "family \<Rightarrow> bool" where
  "UsesIPv6 f \<longleftrightarrow> f = IPv6 \<or> f = DualStack"

lemma uses_simps [simp]:
  "UsesIPv4 IPv4" "UsesIPv4 DualStack" "\<not> UsesIPv4 IPv6"
  "UsesIPv6 IPv6" "UsesIPv6 DualStack" "\<not> UsesIPv6 IPv4"
  by (simp_all add: UsesIPv4_def UsesIPv6_def)

lemma family_uses_some: "UsesIPv4 f \<or> UsesIPv6 f"
  by (cases f) simp_all

text \<open>The value a family is written as.\<close>

fun family_text :: "family \<Rightarrow> string" where
  "family_text DualStack = ''dualstack''"
| "family_text IPv6 = ''ipv6''"
| "family_text IPv4 = ''ipv4''"

lemma Parse_Inr_iff: "Parse v = Inr f \<longleftrightarrow> to_lower v = family_text f"
  by (cases f) (auto simp: Parse_def Let_def)

lemma Parse_text: "Parse (family_text f) = Inr f"
  by (cases f) (simp_all add: Parse_def to_lower_def lower_char_def)

lemma Parse_Inl: "Parse v = Inl e \<Longrightarrow> e = ErrInvalid"
  by (auto simp: Parse_def Let_def split: if_splits)

end
