(* ===== verification/ProviderID.thy ===== *)
theory ProviderID
  imports K8sTypes
begin

text \<open>
  \<open>internal/providerid\<close>: the provider ID of a node names a cloud server
  (\<^verbatim>\<open>hcloud://NNNN\<close>) or a dedicated server (\<^verbatim>\<open>hcloud://bm-NNNN\<close>, \<^verbatim>\<open>hrobot://NNNN\<close>).
\<close>

definition prefixCloud :: string where "prefixCloud = ''hcloud://''"
definition prefixRobotLegacy :: string where "prefixRobotLegacy = ''hcloud://bm-''"
definition prefixRobotNew :: string where "prefixRobotNew = ''hrobot://''"

lemmas prefix_defs = prefixCloud_def prefixRobotLegacy_def prefixRobotNew_def

text \<open>The part of \<open>ToServerID\<close> after the switch: the remaining text has to be a 64-bit integer.\<close>

definition parse_server_id :: "string \<Rightarrow> string \<Rightarrow> bool \<Rightarrow> goerr + int \<times> bool" where
  "parse_server_id pid idString cloud =
     (if idString = '''' then Inl (Msg (''providerID is missing a serverID: '' @ pid))
      else case parse_int64 idString of
             None \<Rightarrow> Inl (Msg (''unable to parse server id: '' @ pid))
           | Some n \<Rightarrow> Inr (n, cloud))"

definition ToServerID :: "string \<Rightarrow> goerr + int \<times> bool" where
  "ToServerID pid =
     (if has_prefix prefixRobotNew pid then parse_server_id pid (remove_all prefixRobotNew pid) False
      else if has_prefix prefixRobotLegacy pid then parse_server_id pid (remove_all prefixRobotLegacy pid) False
      else if has_prefix prefixCloud pid then parse_server_id pid (remove_all prefixCloud pid) True
      else Inl (UnkownPrefixError pid))"

definition FromCloudServerID :: "int \<Rightarrow> string" where
  "FromCloudServerID i = prefixCloud @ format_int i"

definition GetBaremetalProviderID :: "node \<Rightarrow> int \<Rightarrow> bool \<Rightarrow> string" where
  "GetBaremetalProviderID n serverNumber useHrobotProviderID =
     (if nd_provider_id n \<noteq> '''' then nd_provider_id n
      else if useHrobotProviderID then prefixRobotNew @ format_int serverNumber
      else prefixRobotLegacy @ format_int serverNumber)"

lemma format_int_no_h: "CHR ''h'' \<notin> set (format_int i)"
  using format_int_chars [of i] by (auto simp: is_digit_def)

lemma format_int_not_bm: "\<not> has_prefix ''bm-'' (format_int i)"
  using format_int_chars [of i] by (auto simp: has_prefix_iff is_digit_def)

lemma parse_server_id_format:
  "int64 i \<Longrightarrow> parse_server_id pid (format_int i) cloud = Inr (i, cloud)"
  by (simp add: parse_server_id_def parse_format_int)

lemma remove_prefix_format:
  "p \<noteq> [] \<Longrightarrow> hd p = CHR ''h'' \<Longrightarrow> remove_all p (p @ format_int i) = format_int i"
  by (simp add: remove_all_prefix remove_all_absent format_int_no_h)

lemma ToServerID_cloud: "int64 i \<Longrightarrow> ToServerID (FromCloudServerID i) = Inr (i, True)"
proof -
  assume i: "int64 i"
  have "\<not> has_prefix prefixRobotNew (FromCloudServerID i)"
    by (simp add: FromCloudServerID_def prefix_defs has_prefix_def)
  moreover have "\<not> has_prefix prefixRobotLegacy (FromCloudServerID i)"
    using format_int_not_bm [of i]
    by (simp add: FromCloudServerID_def prefix_defs has_prefix_def)
  moreover have "remove_all prefixCloud (FromCloudServerID i) = format_int i"
    unfolding FromCloudServerID_def by (rule remove_prefix_format) (simp_all add: prefix_defs)
  ultimately show ?thesis
    using i by (simp add: ToServerID_def FromCloudServerID_def parse_server_id_format)
qed

lemma ToServerID_robot_new: "int64 i \<Longrightarrow> ToServerID (prefixRobotNew @ format_int i) = Inr (i, False)"
proof -
  assume i: "int64 i"
  have "remove_all prefixRobotNew (prefixRobotNew @ format_int i) = format_int i"
    by (rule remove_prefix_format) (simp_all add: prefix_defs)
  then show ?thesis using i by (simp add: ToServerID_def parse_server_id_format)
qed

lemma ToServerID_robot_legacy:
  "int64 i \<Longrightarrow> ToServerID (prefixRobotLegacy @ format_int i) = Inr (i, False)"
proof -
  assume i: "int64 i"
  have "\<not> has_prefix prefixRobotNew (prefixRobotLegacy @ format_int i)"
    by (simp add: prefix_defs has_prefix_def)
  moreover have "remove_all prefixRobotLegacy (prefixRobotLegacy @ format_int i) = format_int i"
    by (rule remove_prefix_format) (simp_all add: prefix_defs)
  ultimately show ?thesis using i by (simp add: ToServerID_def parse_server_id_format)
qed

text \<open>Every provider ID the controller generates is read back as the server it was generated
  for: a cloud server's ID as a cloud ID with the same number, a bare-metal server's ID (in the
  legacy and in the new format) as a robot ID with the same number, for every 64-bit id.\<close>

theorem provider_id_roundtrip:
  assumes "int64 i"
  shows "ToServerID (FromCloudServerID i) = Inr (i, True) \<and>
    ToServerID (GetBaremetalProviderID (node_of name '''') i flag) = Inr (i, False)"
  using assms
  by (simp_all add: ToServerID_cloud GetBaremetalProviderID_def ToServerID_robot_new ToServerID_robot_legacy)

theorem provider_id_roundtrip_witness:
  "ToServerID (FromCloudServerID 4711) = Inr (4711, True) \<and>
   ToServerID (GetBaremetalProviderID (node_of ''bm-1'' '''') 321 True) = Inr (321, False)"
  using provider_id_roundtrip [of 4711] provider_id_roundtrip [of 321 "''bm-1''" True]
  by (simp add: int64_def)

lemma parse_server_id_Inr:
  "parse_server_id pid s c = Inr (i, cloud) \<Longrightarrow> cloud = c \<and> int64 i \<and> parse_int64 s = Some i"
  by (auto simp: parse_server_id_def dest: parse_int64_range split: if_splits option.splits)

lemma parse_server_id_Inl: "parse_server_id pid s c = Inl e \<Longrightarrow> \<exists>t. e = Msg t"
  by (auto simp: parse_server_id_def split: if_splits option.splits)

text \<open>A provider ID is taken for a cloud server only if it has the cloud prefix and not the
  legacy bare-metal prefix (although the former is a prefix of the latter), the number is a 64-bit
  integer, and the unknown-prefix error is returned exactly for IDs without any known prefix.\<close>

theorem ToServerID_classification:
  "(ToServerID pid = Inr (i, cloud) \<longrightarrow>
      int64 i \<and> cloud = (has_prefix prefixCloud pid \<and> \<not> has_prefix prefixRobotLegacy pid)) \<and>
   (ToServerID pid = Inl (UnkownPrefixError p) \<longleftrightarrow>
      p = pid \<and> \<not> has_prefix prefixCloud pid \<and> \<not> has_prefix prefixRobotNew pid)"
proof (rule conjI)
  have legacy: "has_prefix prefixRobotLegacy pid \<Longrightarrow> has_prefix prefixCloud pid"
    by (auto simp: has_prefix_iff prefix_defs)
  have new: "has_prefix prefixRobotNew pid \<Longrightarrow> \<not> has_prefix prefixCloud pid"
    by (auto simp: has_prefix_iff prefix_defs)
  show "ToServerID pid = Inr (i, cloud) \<longrightarrow>
           int64 i \<and> cloud = (has_prefix prefixCloud pid \<and> \<not> has_prefix prefixRobotLegacy pid)"
    using new by (auto simp: ToServerID_def dest: parse_server_id_Inr split: if_splits)
  show "ToServerID pid = Inl (UnkownPrefixError p) \<longleftrightarrow>
           p = pid \<and> \<not> has_prefix prefixCloud pid \<and> \<not> has_prefix prefixRobotNew pid"
    using legacy by (auto simp: ToServerID_def dest: parse_server_id_Inl split: if_splits)
qed

theorem ToServerID_classification_witness:
  "ToServerID ''hcloud://bm-7'' = Inr (7, False) \<and> int64 7 \<and>
   has_prefix prefixRobotLegacy ''hcloud://bm-7''"
proof -
  have r: "ToServerID ''hcloud://bm-7'' = Inr (7, False)"
    by (simp add: ToServerID_def prefix_defs has_prefix_def parse_server_id_def remove_all.simps
        parse_int64_def is_digit_def read_digits_def digit_val_def)
  with ToServerID_classification [of "''hcloud://bm-7''" 7 False]
  show ?thesis by (auto simp: has_prefix_def prefix_defs)
qed

text \<open>Reading a provider ID is more lenient than its formats say: every further occurrence of
  the prefix inside the ID is dropped too, so an ID with two numbers is read as their
  concatenation instead of being rejected.\<close>

theorem ToServerID_repeated_prefix:
  "ToServerID (FromCloudServerID 12 @ FromCloudServerID 34) = Inr (1234, True)"
  by code_simp

end
