(* ===== verification/Annotation.thy ===== *)
theory Annotation
  imports HCloudTypes
begin

text \<open>
  \<open>internal/annotation\<close>: typed access to the annotations of a service. The constants of type
  \<open>Name\<close> are the constructors of \<open>annot\<close>; \<open>name_str\<close> gives the annotation key.
\<close>

section \<open>Names\<close>

datatype annot =
    LBID | LBPublicIPv4 | LBPublicIPv4RDNS | LBPublicIPv6 | LBPublicIPv6RDNS | LBIPv6Disabled
  | LBRestrictNodePortSource | LBNodePortSourceRanges | LBRobotTargetAddressFamily | LBName
  | LBDisablePublicNetwork | LBDisablePrivateIngress | LBUsePrivateIP | LBHostname | LBSvcProtocol
  | LBAlgorithmType | LBType | LBLocation | LBNetworkZone | LBNodeSelector | LBSvcProxyProtocol
  | LBSvcHTTPCookieName | LBSvcHTTPCookieLifetime | LBSvcHTTPCertificateType | LBSvcHTTPCertificates
  | LBSvcHTTPManagedCertificateName | LBSvcHTTPManagedCertificateUseACMEStaging
  | LBSvcHTTPManagedCertificateDomains | LBSvcRedirectHTTP | LBSvcHTTPStickySessions
  | LBSvcHealthCheckProtocol | LBSvcHealthCheckPort | LBSvcHealthCheckInterval
  | LBSvcHealthCheckTimeout | LBSvcHealthCheckRetries | LBSvcHealthCheckHTTPDomain
  | LBSvcHealthCheckHTTPPath | LBSvcHealthCheckHTTPValidateCertificate
  | LBSvcHealthCheckHTTPStatusCodes

fun name_suffix :: "annot \<Rightarrow> string" where
  "name_suffix LBID = ''id''"
| "name_suffix LBPublicIPv4 = ''ipv4''"
| "name_suffix LBPublicIPv4RDNS = ''ipv4-rdns''"
| "name_suffix LBPublicIPv6 = ''ipv6''"
| "name_suffix LBPublicIPv6RDNS = ''ipv6-rdns''"
| "name_suffix LBIPv6Disabled = ''ipv6-disabled''"
| "name_suffix LBRestrictNodePortSource = ''restrict-node-port-source''"
| "name_suffix LBNodePortSourceRanges = ''node-port-source-ranges''"
| "name_suffix LBRobotTargetAddressFamily = ''robot-target-address-family''"
| "name_suffix LBName = ''name''"
| "name_suffix LBDisablePublicNetwork = ''disable-public-network''"
| "name_suffix LBDisablePrivateIngress = ''disable-private-ingress''"
| "name_suffix LBUsePrivateIP = ''use-private-ip''"
| "name_suffix LBHostname = ''hostname''"
| "name_suffix LBSvcProtocol = ''protocol''"
| "name_suffix LBAlgorithmType = ''algorithm-type''"
| "name_suffix LBType = ''type''"
| "name_suffix LBLocation = ''location''"
| "name_suffix LBNetworkZone = ''network-zone''"
| "name_suffix LBNodeSelector = ''node-selector''"
| "name_suffix LBSvcProxyProtocol = ''uses-proxyprotocol''"
| "name_suffix LBSvcHTTPCookieName = ''http-cookie-name''"
| "name_suffix LBSvcHTTPCookieLifetime = ''http-cookie-lifetime''"
| "name_suffix LBSvcHTTPCertificateType = ''certificate-type''"
| "name_suffix LBSvcHTTPCertificates = ''http-certificates''"
| "name_suffix LBSvcHTTPManagedCertificateName = ''http-managed-certificate-name''"
| "name_suffix LBSvcHTTPManagedCertificateUseACMEStaging = ''http-managed-certificate-acme-staging''"
| "name_suffix LBSvcHTTPManagedCertificateDomains = ''http-managed-certificate-domains''"
| "name_suffix LBSvcRedirectHTTP = ''http-redirect-http''"
| "name_suffix LBSvcHTTPStickySessions = ''http-sticky-sessions''"
| "name_suffix LBSvcHealthCheckProtocol = ''health-check-protocol''"
| "name_suffix LBSvcHealthCheckPort = ''health-check-port''"
| "name_suffix LBSvcHealthCheckInterval = ''health-check-interval''"
| "name_suffix LBSvcHealthCheckTimeout = ''health-check-timeout''"
| "name_suffix LBSvcHealthCheckRetries = ''health-check-retries''"
| "name_suffix LBSvcHealthCheckHTTPDomain = ''health-check-http-domain''"
| "name_suffix LBSvcHealthCheckHTTPPath = ''health-check-http-path''"
| "name_suffix LBSvcHealthCheckHTTPValidateCertificate = ''health-check-http-validate-certificate''"
| "name_suffix LBSvcHealthCheckHTTPStatusCodes = ''http-status-codes''"

definition name_str :: "annot \<Rightarrow> string" where
  "name_str n = ''load-balancer.hetzner.cloud/'' @ name_suffix n"

definition all_annots :: "annot list" where
  "all_annots = [LBID, LBPublicIPv4, LBPublicIPv4RDNS, LBPublicIPv6, LBPublicIPv6RDNS, LBIPv6Disabled,
     LBRestrictNodePortSource, LBNodePortSourceRanges, LBRobotTargetAddressFamily, LBName,
     LBDisablePublicNetwork, LBDisablePrivateIngress, LBUsePrivateIP, LBHostname, LBSvcProtocol,
     LBAlgorithmType, LBType, LBLocation, LBNetworkZone, LBNodeSelector, LBSvcProxyProtocol,
     LBSvcHTTPCookieName, LBSvcHTTPCookieLifetime, LBSvcHTTPCertificateType, LBSvcHTTPCertificates,
     LBSvcHTTPManagedCertificateName, LBSvcHTTPManagedCertificateUseACMEStaging,
     LBSvcHTTPManagedCertificateDomains, LBSvcRedirectHTTP, LBSvcHTTPStickySessions,
     LBSvcHealthCheckProtocol, LBSvcHealthCheckPort, LBSvcHealthCheckInterval,
     LBSvcHealthCheckTimeout, LBSvcHealthCheckRetries, LBSvcHealthCheckHTTPDomain,
     LBSvcHealthCheckHTTPPath, LBSvcHealthCheckHTTPValidateCertificate,
     LBSvcHealthCheckHTTPStatusCodes]"

lemma all_annots: "n \<in> set all_annots"
  by (cases n) (simp_all add: all_annots_def)

lemma distinct_suffixes: "distinct (map name_suffix all_annots)"
  by code_simp

lemma name_str_inj [simp]: "name_str m = name_str n \<longleftrightarrow> m = n"
proof -
  have "inj_on name_suffix (set all_annots)"
    using distinct_suffixes by (simp add: distinct_map)
  then show ?thesis by (auto simp: name_str_def all_annots dest: inj_onD)
qed

section \<open>Reading annotations\<close>

definition StringFromService :: "annot \<Rightarrow> service \<Rightarrow> string option" where
  "StringFromService n svc = svc_annotations svc (name_str n)"

text \<open>The error every typed accessor returns for a missing annotation: a wrapped \<open>ErrNotSet\<close>.\<close>

definition not_set :: "string \<Rightarrow> annot \<Rightarrow> goerr" where
  "not_set op n = wrap (op @ '': '' @ name_str n) ErrNotSet"

lemma not_set_is [simp]: "errors_is (not_set op n) ErrNotSet"
  by (simp add: not_set_def)

definition applyToValue :: "string \<Rightarrow> annot \<Rightarrow> service \<Rightarrow> (string \<Rightarrow> goerr + 'a) \<Rightarrow> goerr + 'a" where
  "applyToValue op n svc f =
     (case StringFromService n svc of
        None \<Rightarrow> Inl (not_set op n)
      | Some v \<Rightarrow> (case f v of Inl e \<Rightarrow> Inl (wrap op e) | Inr x \<Rightarrow> Inr x))"

definition StringsFromService :: "annot \<Rightarrow> service \<Rightarrow> goerr + string list" where
  "StringsFromService n svc =
     applyToValue ''annotation/Name.StringsFromService'' n svc (\<lambda>v. Inr (split_on CHR '','' v))"

definition BoolFromService :: "annot \<Rightarrow> service \<Rightarrow> goerr + bool" where
  "BoolFromService n svc =
     (case StringFromService n svc of
        None \<Rightarrow> Inl (not_set ''annotation/Name.BoolFromService'' n)
      | Some v \<Rightarrow>
          (case parse_bool v of
             None \<Rightarrow> Inl (wrap (''annotation/Name.BoolFromService: '' @ name_str n)
                            (Ext ''strconv.NumError'' (''strconv.ParseBool: parsing '' @ v @ '': invalid syntax'')))
           | Some b \<Rightarrow> Inr b))"

definition num_error :: "string \<Rightarrow> goerr" where
  "num_error v = Ext ''strconv.NumError'' (''strconv.Atoi: parsing '' @ v @ '': invalid syntax'')"

definition IntFromService :: "annot \<Rightarrow> service \<Rightarrow> goerr + int" where
  "IntFromService n svc =
     (case StringFromService n svc of
        None \<Rightarrow> Inl (not_set ''annotation/Name.IntFromService'' n)
      | Some v \<Rightarrow>
          (case atoi v of
             None \<Rightarrow> Inl (wrap (''annotation/Name.IntFromService: '' @ name_str n) (num_error v))
           | Some i \<Rightarrow> Inr i))"

fun parse_ints :: "string list \<Rightarrow> goerr + int list" where
  "parse_ints [] = Inr []"
| "parse_ints (s # ss) =
     (case atoi s of
        None \<Rightarrow> Inl (num_error s)
      | Some i \<Rightarrow> (case parse_ints ss of Inl e \<Rightarrow> Inl e | Inr is \<Rightarrow> Inr (i # is)))"

definition IntsFromService :: "annot \<Rightarrow> service \<Rightarrow> goerr + int list" where
  "IntsFromService n svc =
     applyToValue ''annotation/Name.IntsFromService'' n svc (\<lambda>v. parse_ints (split_on CHR '','' v))"

definition IPFromService :: "annot \<Rightarrow> service \<Rightarrow> goerr + ip" where
  "IPFromService n svc =
     applyToValue ''annotation/Name.IPFromService'' n svc
       (\<lambda>v. if ParseIP v = [] then Inl (Msg (''invalid ip address: '' @ v)) else Inr (ParseIP v))"

definition DurationFromService :: "annot \<Rightarrow> service \<Rightarrow> goerr + duration" where
  "DurationFromService n svc =
     applyToValue ''annotation/Name.DurationFromService'' n svc
       (\<lambda>v. case ParseDuration v of
              None \<Rightarrow> Inl (Ext ''time.ParseDuration'' (''time: invalid duration '' @ v))
            | Some d \<Rightarrow> Inr d)"

definition ProtocolTCP :: string where "ProtocolTCP = ''tcp''"
definition ProtocolHTTP :: string where "ProtocolHTTP = ''http''"
definition ProtocolHTTPS :: string where "ProtocolHTTPS = ''https''"

lemmas protocol_defs = ProtocolTCP_def ProtocolHTTP_def ProtocolHTTPS_def

definition validateServiceProtocol :: "string \<Rightarrow> goerr + string" where
  "validateServiceProtocol p =
     (let q = to_lower p
      in if q = ProtocolTCP \<or> q = ProtocolHTTPS \<or> q = ProtocolHTTP then Inr q
         else Inl (Msg (''annotation/validateServiceProtocol: invalid: '' @ q)))"

definition LBSvcProtocolFromService :: "annot \<Rightarrow> service \<Rightarrow> goerr + string" where
  "LBSvcProtocolFromService n svc =
     applyToValue ''annotation/Name.LBSvcProtocolFromService'' n svc validateServiceProtocol"

definition validateAlgorithmType :: "string \<Rightarrow> goerr + string" where
  "validateAlgorithmType a =
     (let b = to_lower a
      in if b = ''least_connections'' \<or> b = ''round_robin'' then Inr b
         else Inl (Msg (''annotation/validateAlgorithmType: invalid: '' @ b)))"

definition LBAlgorithmTypeFromService :: "annot \<Rightarrow> service \<Rightarrow> goerr + string" where
  "LBAlgorithmTypeFromService n svc =
     applyToValue ''annotation/Name.LBAlgorithmTypeFromService'' n svc validateAlgorithmType"

definition NetworkZoneFromService :: "annot \<Rightarrow> service \<Rightarrow> goerr + string" where
  "NetworkZoneFromService n svc =
     applyToValue ''annotation/Name.NetworkZoneFromService'' n svc Inr"

text \<open>An entry that is no 64-bit integer is the name of a certificate.\<close>

definition parse_cert :: "string \<Rightarrow> certificate" where
  "parse_cert s =
     (case parse_int64 s of
        None \<Rightarrow> \<lparr>cert_id = 0, cert_name = s\<rparr>
      | Some i \<Rightarrow> \<lparr>cert_id = i, cert_name = ''''\<rparr>)"

definition CertificatesFromService :: "annot \<Rightarrow> service \<Rightarrow> goerr + certificate list" where
  "CertificatesFromService n svc =
     applyToValue ''annotation/Name.CertificatesFromService'' n svc
       (\<lambda>v. Inr (map parse_cert (split_on CHR '','' v)))"

definition CertificateTypeFromService :: "annot \<Rightarrow> service \<Rightarrow> goerr + string" where
  "CertificateTypeFromService n svc =
     (let op = ''annotation/Name.CertificateTypeFromService''
      in applyToValue op n svc
        (\<lambda>v. if to_lower v = ''uploaded'' then Inr ''uploaded''
             else if to_lower v = ''managed'' then Inr ''managed''
             else Inl (Msg (op @ '': unsupported certificate type: '' @ v))))"

section \<open>Writing annotations\<close>

text \<open>The types that \<open>AnnotateService\<close> knows; \<open>VOther\<close> is any other dynamic type.\<close>

datatype annot_value =
    VBool bool | VInt int | VInt64 int | VString string | VStrings "string list"
  | VCertificateType string | VCertificates "certificate list" | VNetworkZone string
  | VAlgorithmType string | VServiceProtocol string
  | VIP ip | VDuration duration | VOther string

definition cert_text :: "certificate \<Rightarrow> string" where
  "cert_text c = (if cert_id c = 0 \<and> cert_name c \<noteq> '''' then cert_name c else format_int (cert_id c))"

fun value_text :: "annot_value \<Rightarrow> string option" where
  "value_text (VBool b) = Some (format_bool b)"
| "value_text (VInt i) = Some (format_int i)"
| "value_text (VInt64 i) = Some (format_int i)"
| "value_text (VString s) = Some s"
| "value_text (VStrings ss) = Some (join '','' ss)"
| "value_text (VCertificateType s) = Some s"
| "value_text (VCertificates cs) = Some (join '','' (map cert_text cs))"
| "value_text (VNetworkZone s) = Some s"
| "value_text (VAlgorithmType s) = Some s"
| "value_text (VServiceProtocol s) = Some s"
| "value_text (VIP x) = Some (ip_text x)"
| "value_text (VDuration d) = Some (duration_text d)"
| "value_text (VOther t) = None"

definition AnnotateService :: "annot \<Rightarrow> annot_value \<Rightarrow> service \<Rightarrow> service \<times> goerr option" where
  "AnnotateService n v svc =
     (case value_text v of
        Some t \<Rightarrow> (svc\<lparr>svc_annotations := (svc_annotations svc)(name_str n \<mapsto> t)\<rparr>, None)
      | None \<Rightarrow> (svc, Some (Msg (''annotation/Name.AnnotateService: '' @ name_str n @ '': unsupported type''))))"

text \<open>\<open>serviceAnnotator\<close>: the service with the first error; after an error nothing is written.\<close>

type_synonym annotator = "service \<times> goerr option"

definition Annotate :: "annot \<Rightarrow> annot_value \<Rightarrow> annotator \<Rightarrow> annotator" where
  "Annotate n v sa = (case sa of (svc, err) \<Rightarrow> if err \<noteq> None then sa else AnnotateService n v svc)"

section \<open>What reading gives after writing\<close>

lemma StringFromService_annotate:
  "value_text v = Some t \<Longrightarrow>
   StringFromService m (fst (AnnotateService n v svc)) = (if m = n then Some t else StringFromService m svc)"
  by (auto simp: StringFromService_def AnnotateService_def)

lemma svc_annotate_frame [simp]:
  "svc_uid (fst (AnnotateService n v svc)) = svc_uid svc"
  "svc_ports (fst (AnnotateService n v svc)) = svc_ports svc"
  "svc_name (fst (AnnotateService n v svc)) = svc_name svc"
  "svc_namespace (fst (AnnotateService n v svc)) = svc_namespace svc"
  "svc_source_ranges (fst (AnnotateService n v svc)) = svc_source_ranges svc"
  by (simp_all add: AnnotateService_def split: option.split)

lemma parse_cert_text:
  "int64 (cert_id c) \<Longrightarrow> parse_int64 (cert_name c) = None \<Longrightarrow>
   parse_cert (cert_text c) = (if cert_id c = 0 \<and> cert_name c \<noteq> '''' then \<lparr>cert_id = 0, cert_name = cert_name c\<rparr>
     else \<lparr>cert_id = cert_id c, cert_name = ''''\<rparr>)"
  by (auto simp: parse_cert_def cert_text_def parse_format_int)

lemma applyToValue_annotate:
  "value_text v = Some t \<Longrightarrow> f t = Inr x \<Longrightarrow> applyToValue op n (fst (AnnotateService n v svc)) f = Inr x"
  by (simp add: applyToValue_def StringFromService_annotate)

lemma validateServiceProtocol_lower: "validateServiceProtocol p = Inr q \<Longrightarrow> q = to_lower p"
  by (auto simp: validateServiceProtocol_def Let_def split: if_splits)

lemma validateServiceProtocol_idem:
  assumes "validateServiceProtocol p = Inr q"
  shows "validateServiceProtocol q = Inr q"
  using assms unfolding validateServiceProtocol_lower [OF assms]
  by (simp add: validateServiceProtocol_def Let_def)

lemma validateAlgorithmType_lower: "validateAlgorithmType a = Inr b \<Longrightarrow> b = to_lower a"
  by (auto simp: validateAlgorithmType_def Let_def split: if_splits)

lemma validateAlgorithmType_idem:
  assumes "validateAlgorithmType a = Inr b"
  shows "validateAlgorithmType b = Inr b"
  using assms unfolding validateAlgorithmType_lower [OF assms]
  by (simp add: validateAlgorithmType_def Let_def)

text \<open>Reading an annotation back gives the value it was annotated with: booleans, 64-bit
  integers, strings, lists of strings without commas, validated protocols and algorithm types.
  No other annotation of the service changes.\<close>

theorem annotate_roundtrip:
  assumes "int64 i" and "ss \<noteq> []" and "\<And>s. s \<in> set ss \<Longrightarrow> CHR '','' \<notin> set s"
    and "validateServiceProtocol p = Inr q" and "validateAlgorithmType a = Inr b"
    and "value_text v \<noteq> None" and "m \<noteq> n"
  shows "BoolFromService n (fst (AnnotateService n (VBool x) svc)) = Inr x \<and>
    IntFromService n (fst (AnnotateService n (VInt i) svc)) = Inr i \<and>
    StringFromService n (fst (AnnotateService n (VString s) svc)) = Some s \<and>
    StringsFromService n (fst (AnnotateService n (VStrings ss) svc)) = Inr ss \<and>
    LBSvcProtocolFromService n (fst (AnnotateService n (VServiceProtocol q) svc)) = Inr q \<and>
    LBAlgorithmTypeFromService n (fst (AnnotateService n (VAlgorithmType b) svc)) = Inr b \<and>
    StringFromService m (fst (AnnotateService n v svc)) = StringFromService m svc"
proof (intro conjI)
  show "StringsFromService n (fst (AnnotateService n (VStrings ss) svc)) = Inr ss"
    unfolding StringsFromService_def
    by (rule applyToValue_annotate [OF value_text.simps(5)]) (simp add: split_on_join [OF assms(2,3)])
  have "validateServiceProtocol q = Inr q" and "validateAlgorithmType b = Inr b"
    by (rule validateServiceProtocol_idem [OF assms(4)], rule validateAlgorithmType_idem [OF assms(5)])
  then show "LBSvcProtocolFromService n (fst (AnnotateService n (VServiceProtocol q) svc)) = Inr q"
    and "LBAlgorithmTypeFromService n (fst (AnnotateService n (VAlgorithmType b) svc)) = Inr b"
    unfolding LBSvcProtocolFromService_def LBAlgorithmTypeFromService_def
    by (auto intro: applyToValue_annotate)
  show "StringFromService m (fst (AnnotateService n v svc)) = StringFromService m svc"
    using assms(6,7) by (auto simp: StringFromService_annotate)
qed (use assms(1) in \<open>simp_all add: BoolFromService_def IntFromService_def StringFromService_annotate parse_format_int\<close>)

theorem annotate_roundtrip_witness:
  "IntFromService LBSvcHealthCheckPort (fst (AnnotateService LBSvcHealthCheckPort (VInt 8080) empty_service)) = Inr 8080 \<and>
   StringsFromService LBSvcHealthCheckHTTPStatusCodes
     (fst (AnnotateService LBSvcHealthCheckHTTPStatusCodes (VStrings [''200'', ''202'']) empty_service)) = Inr [''200'', ''202'']"
proof -
  have p: "validateServiceProtocol ''TCP'' = Inr ''tcp''" and a: "validateAlgorithmType ''round_robin'' = Inr ''round_robin''"
    by code_simp+
  have c: "\<And>s. s \<in> set [''200'', ''202''] \<Longrightarrow> CHR '','' \<notin> set s" by auto
  have i: "int64 8080" by (simp add: int64_def)
  have v: "value_text (VBool True) \<noteq> None" by simp
  note r = annotate_roundtrip [where ss = "[''200'', ''202'']" and m = LBID and svc = empty_service, OF i _ c p a v]
  show ?thesis
    using r [where n = LBSvcHealthCheckPort] r [where n = LBSvcHealthCheckHTTPStatusCodes]
    by (simp del: value_text.simps)
qed

end
