(* ===== verification/RateLimit.thy ===== *)
theory RateLimit
  imports GoTime
begin

text \<open>
  \<open>internal/hcops/ratelimit.go\<close> and \<open>internal/util\<close>: after the Robot API reports an
  exceeded rate limit, no call is made until the waiting time is over. The handler is a
  package-level variable; its operations get the current time as an argument.
\<close>

section \<open>util.GetEnvDuration\<close>

text \<open>The environment: \<open>os.LookupEnv\<close> as a partial function, \<open>os.Getenv\<close> gives the empty string.\<close>

type_synonym environ = "string \<rightharpoonup> string"

definition getenv :: "environ \<Rightarrow> string \<Rightarrow> string" where
  "getenv env k = (case env k of Some v \<Rightarrow> v | None \<Rightarrow> '''')"

definition GetEnvDuration :: "environ \<Rightarrow> string \<Rightarrow> goerr + duration" where
  "GetEnvDuration env key =
     (let v = getenv env key
      in if v = '''' then Inr 0
         else case ParseDuration v of
                None \<Rightarrow> Inl (Msg (key @ '': time: invalid duration '' @ v))
              | Some d \<Rightarrow> Inr d)"

section \<open>The handler\<close>

record rate_limit_handler =
  waitTime :: duration
  exceeded :: bool
  lastChecked :: time

text \<open>The package's \<open>init\<close>: a malformed environment value panics.\<close>

definition init_handler :: "environ \<Rightarrow> goerr + rate_limit_handler" where
  "init_handler env =
     (case GetEnvDuration env ''RATE_LIMIT_WAIT_TIME_ROBOT'' of
        Inl e \<Rightarrow> Inl (GoPanic (err_text e))
      | Inr d \<Rightarrow> Inr \<lparr>waitTime = (if d = 0 then 5 * Minute else d), exceeded = False, lastChecked = 0\<rparr>)"

definition rl_set :: "time \<Rightarrow> rate_limit_handler \<Rightarrow> rate_limit_handler" where
  "rl_set now h = h\<lparr>exceeded := True, lastChecked := now\<rparr>"

definition isExceeded :: "time \<Rightarrow> rate_limit_handler \<Rightarrow> bool \<times> rate_limit_handler" where
  "isExceeded now h =
     (if \<not> exceeded h then (False, h)
      else if now < lastChecked h + waitTime h then (True, h)
      else (False, h\<lparr>exceeded := False, lastChecked := 0\<rparr>))"

definition timeOfNextPossibleAPICall :: "rate_limit_handler \<Rightarrow> time" where
  "timeOfNextPossibleAPICall h = (if lastChecked h = 0 then 0 else lastChecked h + waitTime h)"

text \<open>A sequence of checks at increasing times, without a new report in between.\<close>

fun checks :: "time list \<Rightarrow> rate_limit_handler \<Rightarrow> bool list \<times> rate_limit_handler" where
  "checks [] h = ([], h)"
| "checks (t # ts) h =
     (case isExceeded t h of (b, h') \<Rightarrow> case checks ts h' of (bs, h'') \<Rightarrow> (b # bs, h''))"

lemma checks_not_exceeded: "\<not> exceeded h \<Longrightarrow> checks ts h = (replicate (length ts) False, h)"
  by (induction ts) (simp_all add: isExceeded_def)

text \<open>After a rate-limit report at time t the limiter blocks exactly until the wait time is over:
  at increasing times, each check answers whether it happens before t plus the wait time, and the
  first check after that ends the blocking for good.\<close>

theorem rate_limit_blocks_exactly:
  assumes "sorted ts"
  shows "fst (checks ts (rl_set t h)) = map (\<lambda>now. now < t + waitTime h) ts"
  using assms
proof (induction ts)
  case (Cons now ts)
  show ?case
  proof (cases "now < t + waitTime h")
    case True
    then have "isExceeded now (rl_set t h) = (True, rl_set t h)"
      by (simp add: isExceeded_def rl_set_def)
    with Cons True show ?thesis by (simp add: case_prod_unfold)
  next
    case False
    then obtain h' where h': "isExceeded now (rl_set t h) = (False, h')" "\<not> exceeded h'"
      by (simp add: isExceeded_def rl_set_def)
    have "\<forall>x \<in> set ts. \<not> x < t + waitTime h"
      using Cons.prems False by (auto simp: not_less intro: order_trans)
    then have "map (\<lambda>now. now < t + waitTime h) ts = replicate (length ts) False"
      by (auto intro!: replicate_eqI)
    with h' False show ?thesis by (simp add: checks_not_exceeded case_prod_unfold)
  qed
qed simp

theorem rate_limit_blocks_exactly_witness:
  "fst (checks [5, 9, 10, 11] (rl_set 4 \<lparr>waitTime = 6, exceeded = False, lastChecked = 0\<rparr>)) =
     [True, True, False, False]"
  using rate_limit_blocks_exactly [of "[5, 9, 10, 11]" 4 "\<lparr>waitTime = 6, exceeded = False, lastChecked = 0\<rparr>"]
  by simp

end
