(* ===== verification/HCloudAPI.thy ===== *)
theory HCloudAPI
  imports HCloudTypes RateLimit
begin

text \<open>
  The outside of the program. The client interfaces of \<open>internal/hcops\<close>
  (\<open>HCloudLoadBalancerClient\<close>, \<open>HCloudActionClient\<close>, \<open>HCloudNetworkClient\<close>,
  \<open>HCloudCertificateClient\<close>), the server and metadata clients, the Robot client of hrobot, the Kubernetes
  client, the file system (\<open>os.ReadFile\<close>, \<open>os.Stat\<close>, \<open>os.Getwd\<close>, the watcher of fsnotify) and
  the clock are the fields of the record \<open>api\<close>: arbitrary functions on an arbitrary
  outside state. Every call is a logged request. The classifiers of foreign errors
  (\<open>hcloud.IsError\<close>, hrobot's \<open>models.IsError\<close>, \<open>apierrors.IsNotFound\<close>) and foreign pure
  functions are fields too.
\<close>

section \<open>Requests\<close>

record lb_create_opts =
  co_name :: string
  co_type :: string
  co_labels :: "string \<rightharpoonup> string"
  co_location :: "string option"
  co_network_zone :: string
  co_algorithm :: "string option"
  co_network :: "int option"
  co_public_interface :: "bool option"

record lb_update_opts =
  uo_name :: "string"
  uo_labels :: "(string \<rightharpoonup> string) option"

record http_opts =
  ho_cookie_name :: "string option"
  ho_cookie_lifetime :: "duration option"
  ho_certificates :: "certificate list"
  ho_redirect_http :: "bool option"
  ho_sticky_sessions :: "bool option"

record health_http_opts =
  hho_domain :: "string option"
  hho_path :: "string option"
  hho_response :: "string option"
  hho_status_codes :: "string list"
  hho_tls :: "bool option"

record health_opts =
  heo_protocol :: string
  heo_port :: "int option"
  heo_interval :: "duration option"
  heo_timeout :: "duration option"
  heo_retries :: "int option"
  heo_http :: "health_http_opts option"

record service_opts =
  so_listen_port :: "int option"
  so_destination_port :: "int option"
  so_protocol :: string
  so_proxyprotocol :: "bool option"
  so_http :: "http_opts option"
  so_health_check :: "health_opts option"

record cert_create_opts =
  cco_name :: string
  cco_type :: string
  cco_domains :: "string list"
  cco_labels :: "string \<rightharpoonup> string"

text \<open>
  A JSON merge patch of a service's source ranges and of the bookkeeping annotation, guarded by a
  resource version. \<open>None\<close> is the JSON null, which removes the field or the annotation.
\<close>

record source_patch =
  pt_resource_version :: string
  pt_ranges :: "string list option"
  pt_managed :: "string option"

type_synonym action = int

text \<open>
  The calls of \<open>HCloudLoadBalancerClient\<close> that change a load balancer and return an action;
  the first argument is the load balancer's ID.
\<close>

datatype lb_request =
    AddService int service_opts
  | UpdateService int int service_opts
  | DeleteService int int
  | ChangeAlgorithm int string
  | ChangeType int string
  | ChangeDNSPtr int string string
  | AddServerTarget int int bool
  | RemoveServerTarget int int
  | AddIPTarget int ip
  | RemoveIPTarget int ip
  | AttachToNetwork int int
  | DetachFromNetwork int int
  | EnablePublicInterface int
  | DisablePublicInterface int

datatype hcloud_code =
    ErrorCodeNotFound | ErrorCodeConflict | ErrorCodeLocked
  | ErrorCodeResourceLimitExceeded | ErrorCodeUniquenessError

datatype robot_code = ErrorCodeServerNotFound | ErrorCodeRateLimitExceeded

text \<open>A log entry: a call with its response, a recorded Kubernetes event, or a sleep.\<close>

datatype api_call =
    LbList string "goerr + load_balancer list"
  | LbGetByName string "goerr + load_balancer option"
  | LbGetByID int "goerr + load_balancer option"
  | LbCreate lb_create_opts "goerr + action \<times> int"
  | LbUpdate int lb_update_opts "goerr + load_balancer"
  | LbDelete int "goerr option"
  | LbDo lb_request "goerr + action"
  | Watch action "goerr option"
  | NetworkGetByID int "goerr + network option"
  | NetworkAddRoute int network_route "goerr + action"
  | NetworkDeleteRoute int network_route "goerr + action"
  | CertGet string "goerr + certificate option"
  | CertList string "goerr + certificate list"
  | CertCreate cert_create_opts "goerr option"
  | RobotList "goerr + robot_server list"
  | ServersAll "goerr + cloud_server list"
  | ServerGetByID int "goerr + cloud_server option"
  | ServerGetByName string "goerr + cloud_server option"
  | ServerList "goerr option"
  | NetworkGet string "goerr + network option"
  | MetadataNetworks "goerr + string"
  | RobotGet int "goerr + robot_server option"
  | RobotSetCredentials string string "goerr option"
  | SetToken string
  | ReadFile string "goerr + string"
  | Stat string "goerr option"
  | Getwd "goerr + string"
  | WatchDir string "goerr option"
  | KubeGet string string "goerr + service"
  | KubePatch string string source_patch "goerr option"
  | Now time
  | Event string string
  | Sleep duration

record 'w api =
  a_lb_list :: "string \<Rightarrow> 'w \<Rightarrow> (goerr + load_balancer list) \<times> 'w"
  a_lb_get_by_name :: "string \<Rightarrow> 'w \<Rightarrow> (goerr + load_balancer option) \<times> 'w"
  a_lb_get_by_id :: "int \<Rightarrow> 'w \<Rightarrow> (goerr + load_balancer option) \<times> 'w"
  a_lb_create :: "lb_create_opts \<Rightarrow> 'w \<Rightarrow> (goerr + action \<times> int) \<times> 'w"
  a_lb_update :: "int \<Rightarrow> lb_update_opts \<Rightarrow> 'w \<Rightarrow> (goerr + load_balancer) \<times> 'w"
  a_lb_delete :: "int \<Rightarrow> 'w \<Rightarrow> goerr option \<times> 'w"
  a_lb_do :: "lb_request \<Rightarrow> 'w \<Rightarrow> (goerr + action) \<times> 'w"
  a_watch :: "action \<Rightarrow> 'w \<Rightarrow> goerr option \<times> 'w"
  a_network_get :: "int \<Rightarrow> 'w \<Rightarrow> (goerr + network option) \<times> 'w"
  a_network_add_route :: "int \<Rightarrow> network_route \<Rightarrow> 'w \<Rightarrow> (goerr + action) \<times> 'w"
  a_network_delete_route :: "int \<Rightarrow> network_route \<Rightarrow> 'w \<Rightarrow> (goerr + action) \<times> 'w"
  a_cert_get :: "string \<Rightarrow> 'w \<Rightarrow> (goerr + certificate option) \<times> 'w"
  a_cert_list :: "string \<Rightarrow> 'w \<Rightarrow> (goerr + certificate list) \<times> 'w"
  a_cert_create :: "cert_create_opts \<Rightarrow> 'w \<Rightarrow> goerr option \<times> 'w"
  a_robot_list :: "'w \<Rightarrow> (goerr + robot_server list) \<times> 'w"
  a_servers_all :: "'w \<Rightarrow> (goerr + cloud_server list) \<times> 'w"
  a_server_get_by_id :: "int \<Rightarrow> 'w \<Rightarrow> (goerr + cloud_server option) \<times> 'w"
  a_server_get_by_name :: "string \<Rightarrow> 'w \<Rightarrow> (goerr + cloud_server option) \<times> 'w"
  a_server_list :: "'w \<Rightarrow> goerr option \<times> 'w"
  a_network_lookup :: "string \<Rightarrow> 'w \<Rightarrow> (goerr + network option) \<times> 'w"
  a_metadata_networks :: "'w \<Rightarrow> (goerr + string) \<times> 'w"
  a_robot_get :: "int \<Rightarrow> 'w \<Rightarrow> (goerr + robot_server option) \<times> 'w"
  a_robot_set_credentials :: "string \<Rightarrow> string \<Rightarrow> 'w \<Rightarrow> goerr option \<times> 'w"
  a_set_token :: "string \<Rightarrow> 'w \<Rightarrow> unit \<times> 'w"
  a_read_file :: "string \<Rightarrow> 'w \<Rightarrow> (goerr + string) \<times> 'w"
  a_stat :: "string \<Rightarrow> 'w \<Rightarrow> goerr option \<times> 'w"
  a_getwd :: "'w \<Rightarrow> (goerr + string) \<times> 'w"
  a_watch_dir :: "string \<Rightarrow> 'w \<Rightarrow> goerr option \<times> 'w"
  a_kube_get :: "string \<Rightarrow> string \<Rightarrow> 'w \<Rightarrow> (goerr + service) \<times> 'w"
  a_kube_patch :: "string \<Rightarrow> string \<Rightarrow> source_patch \<Rightarrow> 'w \<Rightarrow> goerr option \<times> 'w"
  a_now :: "'w \<Rightarrow> time \<times> 'w"
  a_is_error :: "goerr \<Rightarrow> hcloud_code \<Rightarrow> bool"
  a_is_robot_error :: "goerr \<Rightarrow> robot_code \<Rightarrow> bool"
  a_is_kube_not_found :: "goerr \<Rightarrow> bool"
  a_is_kube_conflict :: "goerr \<Rightarrow> bool"
  a_default_lb_name :: "service \<Rightarrow> string"
  a_labels_parse :: "string \<Rightarrow> goerr + ((string \<rightharpoonup> string) \<Rightarrow> bool)"

text \<open>
  The package-level variables of the program: the rate limit handler of \<open>hcops\<close>, and the last
  credentials and reload counters of \<open>internal/credentials\<close>.
\<close>

record credential_globals =
  oldRobotUser :: string
  oldRobotPassword :: string
  oldHcloudToken :: string
  robotReloadCounter :: "64 word"
  hcloudTokenReloadCounter :: "64 word"

record go_globals =
  g_rate_limit :: rate_limit_handler
  g_credentials :: credential_globals

type_synonym ('w, 'a) go = "(api_call, go_globals, 'w, 'a) prog"

definition lb_list :: "'w api \<Rightarrow> string \<Rightarrow> ('w, goerr + load_balancer list) go" where
  "lb_list A sel = request (LbList sel) (a_lb_list A sel)"

definition lb_get_by_name :: "'w api \<Rightarrow> string \<Rightarrow> ('w, goerr + load_balancer option) go" where
  "lb_get_by_name A n = request (LbGetByName n) (a_lb_get_by_name A n)"

definition lb_get_by_id :: "'w api \<Rightarrow> int \<Rightarrow> ('w, goerr + load_balancer option) go" where
  "lb_get_by_id A i = request (LbGetByID i) (a_lb_get_by_id A i)"

definition lb_create :: "'w api \<Rightarrow> lb_create_opts \<Rightarrow> ('w, goerr + action \<times> int) go" where
  "lb_create A opts = request (LbCreate opts) (a_lb_create A opts)"

definition lb_update :: "'w api \<Rightarrow> int \<Rightarrow> lb_update_opts \<Rightarrow> ('w, goerr + load_balancer) go" where
  "lb_update A i opts = request (LbUpdate i opts) (a_lb_update A i opts)"

definition lb_delete :: "'w api \<Rightarrow> int \<Rightarrow> ('w, goerr option) go" where
  "lb_delete A i = request (LbDelete i) (a_lb_delete A i)"

definition lb_do :: "'w api \<Rightarrow> lb_request \<Rightarrow> ('w, goerr + action) go" where
  "lb_do A r = request (LbDo r) (a_lb_do A r)"

definition network_get :: "'w api \<Rightarrow> int \<Rightarrow> ('w, goerr + network option) go" where
  "network_get A i = request (NetworkGetByID i) (a_network_get A i)"

definition cert_get :: "'w api \<Rightarrow> string \<Rightarrow> ('w, goerr + certificate option) go" where
  "cert_get A n = request (CertGet n) (a_cert_get A n)"

definition cert_list :: "'w api \<Rightarrow> string \<Rightarrow> ('w, goerr + certificate list) go" where
  "cert_list A sel = request (CertList sel) (a_cert_list A sel)"

definition cert_create :: "'w api \<Rightarrow> cert_create_opts \<Rightarrow> ('w, goerr option) go" where
  "cert_create A opts = request (CertCreate opts) (a_cert_create A opts)"

definition robot_list :: "'w api \<Rightarrow> ('w, goerr + robot_server list) go" where
  "robot_list A = request RobotList (a_robot_list A)"

definition servers_all :: "'w api \<Rightarrow> ('w, goerr + cloud_server list) go" where
  "servers_all A = request ServersAll (a_servers_all A)"

definition server_get_by_id :: "'w api \<Rightarrow> int \<Rightarrow> ('w, goerr + cloud_server option) go" where
  "server_get_by_id A i = request (ServerGetByID i) (a_server_get_by_id A i)"

definition server_get_by_name :: "'w api \<Rightarrow> string \<Rightarrow> ('w, goerr + cloud_server option) go" where
  "server_get_by_name A n = request (ServerGetByName n) (a_server_get_by_name A n)"

definition server_list :: "'w api \<Rightarrow> ('w, goerr option) go" where
  "server_list A = request ServerList (a_server_list A)"

definition network_lookup :: "'w api \<Rightarrow> string \<Rightarrow> ('w, goerr + network option) go" where
  "network_lookup A n = request (NetworkGet n) (a_network_lookup A n)"

definition metadata_networks :: "'w api \<Rightarrow> ('w, goerr + string) go" where
  "metadata_networks A = request MetadataNetworks (a_metadata_networks A)"

definition robot_get :: "'w api \<Rightarrow> int \<Rightarrow> ('w, goerr + robot_server option) go" where
  "robot_get A i = request (RobotGet i) (a_robot_get A i)"

definition robot_set_credentials :: "'w api \<Rightarrow> string \<Rightarrow> string \<Rightarrow> ('w, goerr option) go" where
  "robot_set_credentials A u p = request (RobotSetCredentials u p) (a_robot_set_credentials A u p)"

definition set_token :: "'w api \<Rightarrow> string \<Rightarrow> ('w, unit) go" where
  "set_token A t = request (\<lambda>_. SetToken t) (a_set_token A t)"

definition read_file :: "'w api \<Rightarrow> string \<Rightarrow> ('w, goerr + string) go" where
  "read_file A n = request (ReadFile n) (a_read_file A n)"

definition stat :: "'w api \<Rightarrow> string \<Rightarrow> ('w, goerr option) go" where
  "stat A n = request (Stat n) (a_stat A n)"

definition getwd :: "'w api \<Rightarrow> ('w, goerr + string) go" where
  "getwd A = request Getwd (a_getwd A)"

definition watch_dir :: "'w api \<Rightarrow> string \<Rightarrow> ('w, goerr option) go" where
  "watch_dir A n = request (WatchDir n) (a_watch_dir A n)"

definition kube_get :: "'w api \<Rightarrow> string \<Rightarrow> string \<Rightarrow> ('w, goerr + service) go" where
  "kube_get A ns n = request (KubeGet ns n) (a_kube_get A ns n)"

definition kube_patch :: "'w api \<Rightarrow> string \<Rightarrow> string \<Rightarrow> source_patch \<Rightarrow> ('w, goerr option) go" where
  "kube_patch A ns n p = request (KubePatch ns n p) (a_kube_patch A ns n p)"

definition time_now :: "'w api \<Rightarrow> ('w, time) go" where
  "time_now A = request Now (a_now A)"

definition network_add_route :: "'w api \<Rightarrow> int \<Rightarrow> network_route \<Rightarrow> ('w, goerr + action) go" where
  "network_add_route A i r = request (NetworkAddRoute i r) (a_network_add_route A i r)"

definition network_delete_route :: "'w api \<Rightarrow> int \<Rightarrow> network_route \<Rightarrow> ('w, goerr + action) go" where
  "network_delete_route A i r = request (NetworkDeleteRoute i r) (a_network_delete_route A i r)"

definition record_event :: "string \<Rightarrow> string \<Rightarrow> ('w, unit) go" where
  "record_event reason obj = request (\<lambda>_. Event reason obj) (\<lambda>w. ((), w))"

definition sleep :: "duration \<Rightarrow> ('w, unit) go" where
  "sleep d = request (\<lambda>_. Sleep d) (\<lambda>w. ((), w))"

text \<open>\<open>hcops.WatchAction\<close>: wait for an action and return its error.\<close>

definition WatchAction :: "'w api \<Rightarrow> action \<Rightarrow> ('w, goerr option) go" where
  "WatchAction A a = request (Watch a) (a_watch A a)"

lemmas request_defs [go_simps] =
  lb_list_def lb_get_by_name_def lb_get_by_id_def lb_create_def lb_update_def lb_delete_def lb_do_def
  network_get_def cert_get_def cert_list_def cert_create_def robot_list_def servers_all_def
  kube_get_def kube_patch_def time_now_def record_event_def sleep_def WatchAction_def
  network_add_route_def network_delete_route_def
  server_get_by_id_def server_get_by_name_def server_list_def network_lookup_def metadata_networks_def
  robot_get_def robot_set_credentials_def set_token_def read_file_def stat_def getwd_def watch_dir_def

section \<open>The rate limit handler as a package variable\<close>

definition IsRateLimitExceeded :: "'w api \<Rightarrow> string \<Rightarrow> ('w, bool) go" where
  "IsRateLimitExceeded A obj = do {
     h \<leftarrow> read_globals g_rate_limit;
     if \<not> exceeded h then ret False
     else do {
       now \<leftarrow> time_now A;
       _ \<leftarrow> modify_globals (\<lambda>g. g\<lparr>g_rate_limit := snd (isExceeded now h)\<rparr>);
       if fst (isExceeded now h) then do {
         _ \<leftarrow> record_event ''RobotRateLimitExceeded'' obj;
         ret True
       } else ret False
     }
   }"

definition SetRateLimit :: "'w api \<Rightarrow> ('w, unit) go" where
  "SetRateLimit A = do {
     now \<leftarrow> time_now A;
     modify_globals (\<lambda>g. g\<lparr>g_rate_limit := rl_set now (g_rate_limit g)\<rparr>)
   }"

definition is_rate_limit_error :: "'w api \<Rightarrow> goerr \<Rightarrow> bool" where
  "is_rate_limit_error A err \<longleftrightarrow> a_is_robot_error A err ErrorCodeRateLimitExceeded \<or>
     contains (err_text err) ''server responded with status code 403''"

definition HandleRateLimitExceededError :: "'w api \<Rightarrow> goerr \<Rightarrow> string \<Rightarrow> ('w, unit) go" where
  "HandleRateLimitExceededError A err obj =
     (if is_rate_limit_error A err then do {
        _ \<leftarrow> record_event ''RobotRateLimitExceeded'' obj;
        SetRateLimit A
      } else ret ())"

section \<open>Load balancer changes in a log\<close>

text \<open>The change requests of a log that the API accepted.\<close>

fun accepted :: "api_call \<Rightarrow> lb_request option" where
  "accepted (LbDo r (Inr a)) = Some r"
| "accepted c = None"

definition changes :: "api_call list \<Rightarrow> lb_request list" where
  "changes cs = List.map_filter accepted cs"

text \<open>A log entry that changes something at the Hetzner API.\<close>

fun is_write :: "api_call \<Rightarrow> bool" where
  "is_write (LbCreate o1 r) = True"
| "is_write (LbUpdate i o1 r) = True"
| "is_write (LbDelete i r) = True"
| "is_write (LbDo q r) = True"
| "is_write (CertCreate o1 r) = True"
| "is_write (NetworkAddRoute i q r) = True"
| "is_write (NetworkDeleteRoute i q r) = True"
| "is_write (KubePatch ns n p r) = True"
| "is_write c = False"

lemma changes_simps [simp]:
  "changes [] = []"
  "changes (c # cs) = (case accepted c of None \<Rightarrow> changes cs | Some r \<Rightarrow> r # changes cs)"
  by (simp_all add: changes_def map_filter_simps split: option.split)

lemma changes_append [simp]: "changes (cs @ ds) = changes cs @ changes ds"
  by (induction cs) (auto split: option.split)

text \<open>All writes of a log are change requests with a property; reads and events do not matter.\<close>

definition only_requests :: "(lb_request \<Rightarrow> bool) \<Rightarrow> api_call list \<Rightarrow> bool" where
  "only_requests P cs \<longleftrightarrow> (\<forall>c \<in> set cs. is_write c \<longrightarrow> (\<exists>q r. c = LbDo q r \<and> P q))"

lemma only_requests_simps [simp]:
  "only_requests P []"
  "only_requests P (c # cs) \<longleftrightarrow> (is_write c \<longrightarrow> (\<exists>q r. c = LbDo q r \<and> P q)) \<and> only_requests P cs"
  "only_requests P (cs @ ds) \<longleftrightarrow> only_requests P cs \<and> only_requests P ds"
  by (auto simp: only_requests_def)

lemma only_requests_mono: "only_requests P cs \<Longrightarrow> (\<And>q. P q \<Longrightarrow> P' q) \<Longrightarrow> only_requests P' cs"
  by (fastforce simp: only_requests_def)

lemma only_requests_no_write: "(\<And>c. c \<in> set cs \<Longrightarrow> \<not> is_write c) \<Longrightarrow> only_requests P cs"
  by (auto simp: only_requests_def)

text \<open>A log without any write.\<close>

definition reads_only :: "api_call list \<Rightarrow> bool" where
  "reads_only cs \<longleftrightarrow> (\<forall>c \<in> set cs. \<not> is_write c)"

lemma changes_no_write: "\<forall>c \<in> set cs. \<not> is_write c \<Longrightarrow> changes cs = []"
proof (induction cs)
  case (Cons c cs)
  then have "accepted c = None" by (cases c rule: accepted.cases) auto
  with Cons show ?case by simp
qed simp

text \<open>The rules for the helper programs.\<close>

lemma valid_HandleRateLimitExceededError:
  "(\<And>cs. \<forall>c \<in> set cs. (\<exists>t. c = Now t) \<or> c = Event ''RobotRateLimitExceeded'' obj \<Longrightarrow> Q cs ()) \<Longrightarrow>
   valid (HandleRateLimitExceededError A err obj) Q"
  unfolding HandleRateLimitExceededError_def SetRateLimit_def request_defs
  by (auto intro!: valid_rules)

end
