(* ===== verification/Certificates.thy ===== *)
theory Certificates
  imports HCloudAPI
begin

text \<open>\<open>internal/hcops/certificates.go\<close>: looking certificates up and creating managed ones.\<close>

definition GetCertificateByNameOrID :: "'w api \<Rightarrow> string \<Rightarrow> ('w, goerr + certificate) go" where
  "GetCertificateByNameOrID A idOrName = do {
     let op = ''hcops/CertificateOps.GetCertificateByNameOrID'';
     r \<leftarrow> cert_get A idOrName;
     ret (case r of Inl e \<Rightarrow> Inl (wrap op e)
          | Inr None \<Rightarrow> Inl (wrap op ErrNotFound)
          | Inr (Some c) \<Rightarrow> Inr c)
   }"

definition GetCertificateByLabel :: "'w api \<Rightarrow> string \<Rightarrow> ('w, goerr + certificate) go" where
  "GetCertificateByLabel A label = do {
     let op = ''hcops/CertificateOps.GetCertificateByLabel'';
     r \<leftarrow> cert_list A label;
     ret (case r of Inl e \<Rightarrow> Inl (flatten op e)
          | Inr [] \<Rightarrow> Inl (wrap op ErrNotFound)
          | Inr [c] \<Rightarrow> Inr c
          | Inr (c # d # cs) \<Rightarrow> Inl (wrap op ErrNonUniqueResult))
   }"

definition CreateManagedCertificate ::
  "'w api \<Rightarrow> string \<Rightarrow> string list \<Rightarrow> (string \<rightharpoonup> string) \<Rightarrow> ('w, goerr option) go" where
  "CreateManagedCertificate A name domains labels = do {
     let op = ''hcops/CertificateOps.CreateManagedCertificate'';
     err \<leftarrow> cert_create A \<lparr>cco_name = name, cco_type = ''managed'', cco_domains = domains, cco_labels = labels\<rparr>;
     ret (case err of None \<Rightarrow> None
          | Some e \<Rightarrow> if a_is_error A e ErrorCodeUniquenessError then Some (wrap op ErrAlreadyExists)
                     else Some (flatten op e))
   }"

lemma valid_GetCertificateByNameOrID:
  "(\<And>r. Q [CertGet n r] (case r of Inl e \<Rightarrow> Inl (wrap ''hcops/CertificateOps.GetCertificateByNameOrID'' e)
      | Inr None \<Rightarrow> Inl (wrap ''hcops/CertificateOps.GetCertificateByNameOrID'' ErrNotFound)
      | Inr (Some c) \<Rightarrow> Inr c)) \<Longrightarrow> valid (GetCertificateByNameOrID A n) Q"
  unfolding GetCertificateByNameOrID_def request_defs Let_def by (auto intro!: valid_rules)

lemma valid_GetCertificateByLabel:
  "(\<And>r x. (case x of Inr c \<Rightarrow> r = Inr [c] | Inl e \<Rightarrow> True) \<Longrightarrow> Q [CertList l r] x) \<Longrightarrow>
   valid (GetCertificateByLabel A l) Q"
  unfolding GetCertificateByLabel_def request_defs Let_def
  by (auto intro!: valid_rules split: sum.splits list.splits)

lemma valid_CreateManagedCertificate:
  "(\<And>r x. Q [CertCreate \<lparr>cco_name = n, cco_type = ''managed'', cco_domains = d, cco_labels = l\<rparr> r] x) \<Longrightarrow>
   valid (CreateManagedCertificate A n d l) Q"
  unfolding CreateManagedCertificate_def request_defs Let_def by (auto intro!: valid_rules)

end
