(* ===== verification/ServiceOpts.thy ===== *)
theory ServiceOpts
  imports Certificates Annotation
begin

text \<open>
  \<open>hclbServiceOptsBuilder\<close> of \<open>internal/hcops/load_balancer.go\<close>: the annotations of a service
  are extracted once into the builder, which then builds the options that add or update one
  service of the load balancer. The two embedded Go structs are flattened into the record.
\<close>

section \<open>The builder\<close>

record builder =
  b_port :: service_port
  b_service :: service
  b_listen_port :: int
  b_destination_port :: int
  b_proxy_protocol :: "bool option"
  b_protocol :: string
  b_cookie_name :: "string option"
  b_cookie_lifetime :: "duration option"
  b_certificates :: "certificate list"
  b_redirect_http :: "bool option"
  b_sticky_sessions :: "bool option"
  b_add_http :: bool
  b_hc_protocol :: string
  b_hc_port :: "int option"
  b_hc_interval :: "duration option"
  b_hc_timeout :: "duration option"
  b_hc_retries :: "int option"
  b_hc_domain :: "string option"
  b_hc_path :: "string option"
  b_hc_response :: "string option"
  b_hc_status_codes :: "string list"
  b_hc_tls :: "bool option"
  b_add_health_check :: bool
  b_once :: bool
  b_err :: "goerr option"

definition new_builder :: "service_port \<Rightarrow> service \<Rightarrow> builder" where
  "new_builder p svc = \<lparr>b_port = p, b_service = svc, b_listen_port = 0, b_destination_port = 0,
     b_proxy_protocol = None, b_protocol = '''', b_cookie_name = None, b_cookie_lifetime = None,
     b_certificates = [], b_redirect_http = None, b_sticky_sessions = None, b_add_http = False,
     b_hc_protocol = '''', b_hc_port = None, b_hc_interval = None, b_hc_timeout = None,
     b_hc_retries = None, b_hc_domain = None, b_hc_path = None, b_hc_response = None,
     b_hc_status_codes = [], b_hc_tls = None, b_add_health_check = False, b_once = False, b_err = None\<rparr>"

text \<open>\<open>b.do\<close>: the function runs unless an earlier one failed; its error is stored.\<close>

definition b_do :: "(builder \<Rightarrow> ('w, goerr + builder) go) \<Rightarrow> builder \<Rightarrow> ('w, builder) go" where
  "b_do f b =
     (if b_err b \<noteq> None then ret b
      else do {
        r \<leftarrow> f b;
        ret (case r of Inl e \<Rightarrow> b\<lparr>b_err := Some e\<rparr> | Inr b' \<Rightarrow> b'\<lparr>b_err := None\<rparr>)
      })"

text \<open>
  The shape shared by most of the steps: an annotation that is not set changes nothing, any
  other error is stored, a value is put into the builder.
\<close>

definition b_annot :: "string \<Rightarrow> (service \<Rightarrow> goerr + 'a) \<Rightarrow> ('a \<Rightarrow> builder \<Rightarrow> builder) \<Rightarrow> builder \<Rightarrow> goerr + builder" where
  "b_annot op get put b =
     (case get (b_service b) of
        Inl e \<Rightarrow> if errors_is e ErrNotSet then Inr b else Inl (wrap op e)
      | Inr v \<Rightarrow> Inr (put v b))"

definition b_do_annot :: "string \<Rightarrow> (service \<Rightarrow> goerr + 'a) \<Rightarrow> ('a \<Rightarrow> builder \<Rightarrow> builder) \<Rightarrow> builder \<Rightarrow> ('w, builder) go"
  where "b_do_annot op get put = b_do (\<lambda>b. ret (b_annot op get put b))"

section \<open>Certificates\<close>

fun resolveCertsByNameOrID :: "'w api \<Rightarrow> certificate list \<Rightarrow> ('w, goerr + certificate list) go" where
  "resolveCertsByNameOrID A [] = ret (Inr [])"
| "resolveCertsByNameOrID A (c # cs) =
     (if cert_id c \<noteq> 0 then do {
        rest \<leftarrow> resolveCertsByNameOrID A cs;
        ret (case rest of Inl e \<Rightarrow> Inl e | Inr ds \<Rightarrow> Inr (c # ds))
      } else do {
        r \<leftarrow> GetCertificateByNameOrID A (cert_name c);
        case r of
          Inl e \<Rightarrow> ret (Inl (wrap ''hcops/hclbServiceOptsBuilder.resolveCertsByNameOrID'' e))
        | Inr d \<Rightarrow> do {
            rest \<leftarrow> resolveCertsByNameOrID A cs;
            ret (case rest of Inl e \<Rightarrow> Inl e
                 | Inr ds \<Rightarrow> Inr (\<lparr>cert_id = cert_id d, cert_name = ''''\<rparr> # ds))
          }
      })"

definition is_managed :: "service \<Rightarrow> bool" where
  "is_managed svc \<longleftrightarrow> StringFromService LBSvcHTTPCertificateType svc = Some ''managed''"

definition LabelServiceUID :: string where "LabelServiceUID = ''hcloud-ccm/service-uid''"

definition extract_uploaded_certs :: "'w api \<Rightarrow> string \<Rightarrow> builder \<Rightarrow> ('w, goerr + builder) go" where
  "extract_uploaded_certs A op b =
     (if is_managed (b_service b) then ret (Inr b)
      else case CertificatesFromService LBSvcHTTPCertificates (b_service b) of
        Inl e \<Rightarrow> ret (if errors_is e ErrNotSet then Inr b else Inl (wrap op e))
      | Inr certs \<Rightarrow> do {
          r \<leftarrow> resolveCertsByNameOrID A certs;
          ret (case r of Inl e \<Rightarrow> Inl (wrap op e)
               | Inr cs \<Rightarrow> Inr (b\<lparr>b_certificates := cs, b_add_http := True\<rparr>))
        })"

definition extract_managed_cert :: "'w api \<Rightarrow> builder \<Rightarrow> ('w, goerr + builder) go" where
  "extract_managed_cert A b =
     (if \<not> is_managed (b_service b) then ret (Inr b)
      else do {
        r \<leftarrow> GetCertificateByLabel A (LabelServiceUID @ ''='' @ svc_uid (b_service b));
        ret (case r of Inl e \<Rightarrow> Inl e
             | Inr c \<Rightarrow> Inr (b\<lparr>b_certificates := [\<lparr>cert_id = cert_id c, cert_name = ''''\<rparr>], b_add_http := True\<rparr>))
      })"

section \<open>extract\<close>

definition extractHealthCheck :: "builder \<Rightarrow> ('w, builder) go" where
  "extractHealthCheck b = (let op = ''hcops/hclbServiceOptsBuilder.extractHealthCheck'' in do {
     b \<leftarrow> b_do (\<lambda>b. ret (case LBSvcProtocolFromService LBSvcHealthCheckProtocol (b_service b) of
                 Inl e \<Rightarrow> if errors_is e ErrNotSet then Inr (b\<lparr>b_hc_protocol := b_protocol b\<rparr>) else Inl (wrap op e)
               | Inr p \<Rightarrow> Inr (b\<lparr>b_hc_protocol := p, b_add_health_check := True\<rparr>))) b;
     b \<leftarrow> b_do_annot op (IntFromService LBSvcHealthCheckPort)
            (\<lambda>v b. b\<lparr>b_hc_port := Some v, b_add_health_check := True\<rparr>) b;
     b \<leftarrow> b_do_annot op (DurationFromService LBSvcHealthCheckInterval)
            (\<lambda>v b. b\<lparr>b_hc_interval := Some v, b_add_health_check := True\<rparr>) b;
     b \<leftarrow> b_do_annot op (DurationFromService LBSvcHealthCheckTimeout)
            (\<lambda>v b. b\<lparr>b_hc_timeout := Some v, b_add_health_check := True\<rparr>) b;
     b \<leftarrow> b_do_annot op (IntFromService LBSvcHealthCheckRetries)
            (\<lambda>v b. b\<lparr>b_hc_retries := Some v, b_add_health_check := True\<rparr>) b;
     if b_hc_protocol b = ProtocolTCP then ret b
     else do {
       let b = (case StringFromService LBSvcHealthCheckHTTPDomain (b_service b) of
                  None \<Rightarrow> b | Some v \<Rightarrow> b\<lparr>b_hc_domain := Some v\<rparr>);
       let b = (case StringFromService LBSvcHealthCheckHTTPPath (b_service b) of
                  None \<Rightarrow> b | Some v \<Rightarrow> b\<lparr>b_hc_path := Some v\<rparr>);
       b \<leftarrow> b_do_annot op (BoolFromService LBSvcHealthCheckHTTPValidateCertificate)
              (\<lambda>v b. b\<lparr>b_hc_tls := Some v\<rparr>) b;
       b_do_annot op (StringsFromService LBSvcHealthCheckHTTPStatusCodes)
         (\<lambda>v b. b\<lparr>b_hc_status_codes := v\<rparr>) b
     }
   })"

definition b_extract :: "'w api \<Rightarrow> builder \<Rightarrow> ('w, builder) go" where
  "b_extract A b = (let op = ''hcops/hclbServiceOptsBuilder.extract'' in do {
     let b = b\<lparr>b_listen_port := sp_port (b_port b), b_destination_port := sp_node_port (b_port b)\<rparr>;
     b \<leftarrow> b_do_annot op (BoolFromService LBSvcProxyProtocol) (\<lambda>v b. b\<lparr>b_proxy_protocol := Some v\<rparr>) b;
     let b = b\<lparr>b_protocol := ProtocolTCP\<rparr>;
     b \<leftarrow> b_do_annot op (LBSvcProtocolFromService LBSvcProtocol) (\<lambda>v b. b\<lparr>b_protocol := v\<rparr>) b;
     let b = (case StringFromService LBSvcHTTPCookieName (b_service b) of
                None \<Rightarrow> b | Some v \<Rightarrow> b\<lparr>b_cookie_name := Some v, b_add_http := True\<rparr>);
     b \<leftarrow> b_do_annot op (DurationFromService LBSvcHTTPCookieLifetime)
            (\<lambda>v b. b\<lparr>b_cookie_lifetime := Some v, b_add_http := True\<rparr>) b;
     b \<leftarrow> b_do (extract_uploaded_certs A op) b;
     b \<leftarrow> b_do (extract_managed_cert A) b;
     b \<leftarrow> b_do_annot op (BoolFromService LBSvcRedirectHTTP)
            (\<lambda>v b. b\<lparr>b_redirect_http := Some v, b_add_http := True\<rparr>) b;
     b \<leftarrow> b_do_annot op (BoolFromService LBSvcHTTPStickySessions)
            (\<lambda>v b. b\<lparr>b_sticky_sessions := Some v, b_add_http := True\<rparr>) b;
     extractHealthCheck b
   })"

text \<open>\<open>sync.Once\<close>: the extraction runs at the first call only.\<close>

definition initialize :: "'w api \<Rightarrow> builder \<Rightarrow> ('w, builder) go" where
  "initialize A b =
     (if b_once b then ret b else b_extract A (b\<lparr>b_once := True\<rparr>))"

section \<open>Building the options\<close>

definition built_http :: "builder \<Rightarrow> http_opts option" where
  "built_http b =
     (if b_add_http b
      then Some \<lparr>ho_cookie_name = b_cookie_name b, ho_cookie_lifetime = b_cookie_lifetime b,
             ho_certificates = b_certificates b, ho_redirect_http = b_redirect_http b,
             ho_sticky_sessions = b_sticky_sessions b\<rparr>
      else None)"

definition built_health_check :: "builder \<Rightarrow> health_opts" where
  "built_health_check b =
     (if b_add_health_check b
      then \<lparr>heo_protocol = b_hc_protocol b,
            heo_port = (case b_hc_port b of None \<Rightarrow> Some (b_destination_port b) | Some p \<Rightarrow> Some p),
            heo_interval = b_hc_interval b, heo_timeout = b_hc_timeout b, heo_retries = b_hc_retries b,
            heo_http = (if b_hc_protocol b = ProtocolHTTP \<or> b_hc_protocol b = ProtocolHTTPS
              then Some \<lparr>hho_domain = b_hc_domain b, hho_path = b_hc_path b, hho_response = b_hc_response b,
                     hho_status_codes = b_hc_status_codes b, hho_tls = b_hc_tls b\<rparr>
              else None)\<rparr>
      else \<lparr>heo_protocol = ProtocolTCP, heo_port = Some (b_destination_port b), heo_interval = None,
            heo_timeout = None, heo_retries = None, heo_http = None\<rparr>)"

definition buildAddServiceOpts :: "'w api \<Rightarrow> builder \<Rightarrow> ('w, (goerr + service_opts) \<times> builder) go" where
  "buildAddServiceOpts A b = do {
     b \<leftarrow> initialize A b;
     ret (case b_err b of
            Some e \<Rightarrow> Inl (wrap ''hcops/hclbServiceOptsBuilder.buildAddServiceOpts'' e)
          | None \<Rightarrow> Inr \<lparr>so_listen_port = Some (b_listen_port b), so_destination_port = Some (b_destination_port b),
                so_protocol = b_protocol b, so_proxyprotocol = b_proxy_protocol b,
                so_http = built_http b, so_health_check = Some (built_health_check b)\<rparr>, b)
   }"

definition buildUpdateServiceOpts :: "'w api \<Rightarrow> builder \<Rightarrow> ('w, (goerr + service_opts) \<times> builder) go" where
  "buildUpdateServiceOpts A b = do {
     b \<leftarrow> initialize A b;
     ret (case b_err b of
            Some e \<Rightarrow> Inl (wrap ''hcops/hclbServiceOptsBuilder.buildUpdateServiceOpts'' e)
          | None \<Rightarrow> Inr \<lparr>so_listen_port = None, so_destination_port = Some (b_destination_port b),
                so_protocol = b_protocol b, so_proxyprotocol = b_proxy_protocol b,
                so_http = built_http b, so_health_check = Some (built_health_check b)\<rparr>, b)
   }"

end
