(* ===== verification/LBOps.thy ===== *)
theory LBOps
  imports ServiceOpts AddressFamily ProviderID
begin

text \<open>
  \<open>LoadBalancerOps\<close> of \<open>internal/hcops/load_balancer.go\<close>, first part: finding, creating and
  deleting load balancers and reconciling their own settings (name, labels, reverse DNS,
  algorithm, type, network, public interface). A method that returns \<open>(bool, error)\<close> gives a
  pair; the error of a pair is \<open>None\<close> for nil.
\<close>

section \<open>Configuration\<close>

record lb_defaults =
  d_location :: string
  d_network_zone :: string
  d_use_private_ip :: bool
  d_robot_target_family :: family

text \<open>
  The struct \<open>LoadBalancerOps\<close>; the Robot client may be nil. The last three fields are the
  orders in which Go happens to visit the keys of the maps that the methods range over.
\<close>

record 'w lb_ops =
  l_api :: "'w api"
  l_has_robot :: bool
  l_retry_delay :: duration
  l_network_id :: int
  l_defaults :: lb_defaults
  l_ord_hcloud :: "int \<Rightarrow> nat"
  l_ord_robot :: "int \<Rightarrow> nat"
  l_ord_ports :: "int \<Rightarrow> nat"

section \<open>Finding load balancers\<close>

definition uid_selector :: "service \<Rightarrow> string" where
  "uid_selector svc = LabelServiceUID @ ''='' @ svc_uid svc"

definition GetByK8SServiceUID :: "'w lb_ops \<Rightarrow> service \<Rightarrow> ('w, goerr + load_balancer) go" where
  "GetByK8SServiceUID L svc = do {
     let op = ''hcops/LoadBalancerOps.GetByK8SServiceUID'';
     r \<leftarrow> lb_list (l_api L) (uid_selector svc);
     ret (case r of
            Inl e \<Rightarrow> Inl (flatten (op @ '': api error'') e)
          | Inr [] \<Rightarrow> Inl (wrap op ErrNotFound)
          | Inr [lb] \<Rightarrow> Inr lb
          | Inr (lb # lb' # lbs) \<Rightarrow> Inl (wrap op ErrNonUniqueResult))
   }"

text \<open>The common treatment of the answers of the two single-object lookups.\<close>

definition found_or_error :: "'w api \<Rightarrow> string \<Rightarrow> string \<Rightarrow> goerr + load_balancer option \<Rightarrow> goerr + load_balancer" where
  "found_or_error A op what r =
     (case r of
        Inl e \<Rightarrow> if a_is_error A e ErrorCodeNotFound then Inl (wrap (op @ '': '' @ what) ErrNotFound)
                 else Inl (wrap op e)
      | Inr None \<Rightarrow> Inl (wrap (op @ '': '' @ what) ErrNotFound)
      | Inr (Some lb) \<Rightarrow> Inr lb)"

definition GetByName :: "'w lb_ops \<Rightarrow> string \<Rightarrow> ('w, goerr + load_balancer) go" where
  "GetByName L name = do {
     r \<leftarrow> lb_get_by_name (l_api L) name;
     ret (found_or_error (l_api L) ''hcops/LoadBalancerOps.GetByName'' name r)
   }"

definition GetByID :: "'w lb_ops \<Rightarrow> int \<Rightarrow> ('w, goerr + load_balancer) go" where
  "GetByID L i = do {
     r \<leftarrow> lb_get_by_id (l_api L) i;
     ret (found_or_error (l_api L) ''hcops/LoadBalancerOps.GetByName'' (format_int i) r)
   }"

section \<open>Creating and deleting\<close>

text \<open>
  Location and network zone of a new load balancer: annotations override the defaults, an
  empty location annotation resets the location, and a location wins over a zone.
\<close>

definition create_location :: "lb_defaults \<Rightarrow> service \<Rightarrow> string option" where
  "create_location d svc =
     (case StringFromService LBLocation svc of
        Some v \<Rightarrow> if v = '''' then None else Some v
      | None \<Rightarrow> if d_location d \<noteq> '''' then Some (d_location d) else None)"

definition create_zone :: "lb_defaults \<Rightarrow> service \<Rightarrow> string" where
  "create_zone d svc =
     (case StringFromService LBNetworkZone svc of Some v \<Rightarrow> v | None \<Rightarrow> d_network_zone d)"

definition create_opts :: "'w lb_ops \<Rightarrow> string \<Rightarrow> service \<Rightarrow> goerr + lb_create_opts" where
  "create_opts L lbName svc =
     (let op = ''hcops/LoadBalancerOps.Create'';
          loc = create_location (l_defaults L) svc;
          zone = create_zone (l_defaults L) svc
      in if loc = None \<and> zone = '''' then
           Inl (Msg (op @ '': neither '' @ name_str LBLocation @ '' nor '' @ name_str LBNetworkZone @ '' set''))
         else
           (let opts = \<lparr>co_name = lbName,
                  co_type = (case StringFromService LBType svc of Some v \<Rightarrow> v | None \<Rightarrow> ''lb11''),
                  co_labels = [LabelServiceUID \<mapsto> svc_uid svc],
                  co_location = loc,
                  co_network_zone = (if loc \<noteq> None then '''' else zone),
                  co_algorithm = None, co_network = None, co_public_interface = None\<rparr>
            in case LBAlgorithmTypeFromService LBAlgorithmType svc of
                 Inl e \<Rightarrow> if errors_is e ErrNotSet then Inr opts else Inl (wrap op e)
               | Inr a \<Rightarrow> Inr (opts\<lparr>co_algorithm := Some a\<rparr>)))"

definition create_network :: "'w lb_ops \<Rightarrow> lb_create_opts \<Rightarrow> ('w, goerr + lb_create_opts) go" where
  "create_network L opts =
     (if 0 < l_network_id L then do {
        let op = ''hcops/LoadBalancerOps.Create: get network '' @ format_int (l_network_id L);
        r \<leftarrow> network_get (l_api L) (l_network_id L);
        ret (case r of Inl e \<Rightarrow> Inl (wrap op e)
             | Inr None \<Rightarrow> Inl (wrap op ErrNotFound)
             | Inr (Some nw) \<Rightarrow> Inr (opts\<lparr>co_network := Some (nw_id nw)\<rparr>))
      } else ret (Inr opts))"

definition create_public :: "service \<Rightarrow> lb_create_opts \<Rightarrow> goerr + lb_create_opts" where
  "create_public svc opts =
     (case BoolFromService LBDisablePublicNetwork svc of
        Inl e \<Rightarrow> if errors_is e ErrNotSet then Inr opts else Inl (wrap ''hcops/LoadBalancerOps.Create'' e)
      | Inr disable \<Rightarrow> Inr (if disable then opts\<lparr>co_public_interface := Some False\<rparr> else opts))"

definition Create :: "'w lb_ops \<Rightarrow> string \<Rightarrow> service \<Rightarrow> ('w, goerr + load_balancer) go" where
  "Create L lbName svc = (let op = ''hcops/LoadBalancerOps.Create''; A = l_api L in
     case create_opts L lbName svc of
       Inl e \<Rightarrow> ret (Inl e)
     | Inr opts \<Rightarrow> do {
         r \<leftarrow> create_network L opts;
         case r of
           Inl e \<Rightarrow> ret (Inl e)
         | Inr opts \<Rightarrow>
             (case create_public svc opts of
                Inl e \<Rightarrow> ret (Inl e)
              | Inr opts \<Rightarrow> do {
                  r \<leftarrow> lb_create A opts;
                  case r of
                    Inl e \<Rightarrow> ret (Inl (wrap op e))
                  | Inr (a, i) \<Rightarrow> do {
                      err \<leftarrow> WatchAction A a;
                      case err of
                        Some e \<Rightarrow> ret (Inl (wrap op e))
                      | None \<Rightarrow> do {
                          r \<leftarrow> GetByID L i;
                          ret (case r of
                                 Inl e \<Rightarrow> Inl (wrap (op @ '': get Load Balancer: '' @ format_int i) e)
                               | Inr lb \<Rightarrow> Inr lb)
                        }
                    }
                })
       })"

definition Delete :: "'w lb_ops \<Rightarrow> load_balancer \<Rightarrow> ('w, goerr option) go" where
  "Delete L lb = do {
     err \<leftarrow> lb_delete (l_api L) (lb_id lb);
     ret (case err of
            None \<Rightarrow> None
          | Some e \<Rightarrow> if a_is_error (l_api L) e ErrorCodeNotFound then None
                     else Some (flatten ''hcops/LoadBalancerOps.Delete'' e))
   }"

section \<open>Reconciling the settings of a load balancer\<close>

text \<open>A change request followed by waiting for its action, as all the methods do it.\<close>

definition do_and_watch :: "'w api \<Rightarrow> string \<Rightarrow> lb_request \<Rightarrow> ('w, goerr option) go" where
  "do_and_watch A op q = do {
     r \<leftarrow> lb_do A q;
     case r of
       Inl e \<Rightarrow> ret (Some (wrap op e))
     | Inr a \<Rightarrow> do {
         err \<leftarrow> WatchAction A a;
         ret (map_option (wrap op) err)
       }
   }"

lemma valid_do_and_watch:
  assumes "\<And>a. Q [LbDo q (Inr a), Watch a None] None"
    and "\<And>e. Q [LbDo q (Inl e)] (Some (wrap op e))"
    and "\<And>a e. Q [LbDo q (Inr a), Watch a (Some e)] (Some (wrap op e))"
  shows "valid (do_and_watch A op q) Q"
proof -
  have "Q [LbDo q (Inr a), Watch a e] (map_option (wrap op) e)" for a e
    by (cases e) (simp_all add: assms)
  then show ?thesis
    unfolding do_and_watch_def request_defs
    by (intro valid_rules) (auto intro!: valid_rules split: sum.split simp: assms(2))
qed

definition changed_unless_error :: "goerr option \<Rightarrow> bool \<times> goerr option" where
  "changed_unless_error err = (case err of None \<Rightarrow> (True, None) | Some e \<Rightarrow> (False, Some e))"

text \<open>
  The labels sent to the API: the defensive copy starts with the service's UID, then every
  label the load balancer already has is copied over it.
\<close>

definition update_labels :: "service \<Rightarrow> load_balancer \<Rightarrow> (string \<rightharpoonup> string) option" where
  "update_labels svc lb =
     (if (case lb_labels lb LabelServiceUID of Some v \<Rightarrow> v | None \<Rightarrow> '''') \<noteq> svc_uid svc
      then Some ([LabelServiceUID \<mapsto> svc_uid svc] ++ lb_labels lb)
      else None)"

definition update_name :: "service \<Rightarrow> load_balancer \<Rightarrow> string option" where
  "update_name svc lb =
     (case StringFromService LBName svc of
        Some n \<Rightarrow> if n \<noteq> lb_name lb then Some n else None
      | None \<Rightarrow> None)"

definition changeHCLBInfo :: "'w lb_ops \<Rightarrow> load_balancer \<Rightarrow> service \<Rightarrow> ('w, load_balancer \<times> bool \<times> goerr option) go" where
  "changeHCLBInfo L lb svc =
     (if update_labels svc lb = None \<and> update_name svc lb = None then ret (lb, False, None)
      else do {
        r \<leftarrow> lb_update (l_api L) (lb_id lb)
               \<lparr>uo_name = (case update_name svc lb of None \<Rightarrow> '''' | Some n \<Rightarrow> n),
                uo_labels = update_labels svc lb\<rparr>;
        ret (case r of
               Inl e \<Rightarrow> (lb, False, Some (wrap ''hcops/LoadBalancerOps.changeHCLBInfo'' e))
             | Inr updated \<Rightarrow> (lb\<lparr>lb_name := lb_name updated, lb_labels := lb_labels updated\<rparr>, True, None))
      })"

definition changeRDNS :: "'w lb_ops \<Rightarrow> string \<Rightarrow> annot \<Rightarrow> string \<Rightarrow> ip \<Rightarrow> load_balancer \<Rightarrow> service \<Rightarrow> ('w, bool \<times> goerr option) go"
  where
  "changeRDNS L op n current addr lb svc =
     (case StringFromService n svc of
        None \<Rightarrow> ret (False, None)
      | Some rdns \<Rightarrow>
          if rdns = current then ret (False, None)
          else do {
            err \<leftarrow> do_and_watch (l_api L) op (ChangeDNSPtr (lb_id lb) (ip_text addr) rdns);
            ret (changed_unless_error err)
          })"

definition changeIPv4RDNS :: "'w lb_ops \<Rightarrow> load_balancer \<Rightarrow> service \<Rightarrow> ('w, bool \<times> goerr option) go" where
  "changeIPv4RDNS L lb svc = changeRDNS L ''hcops/LoadBalancerOps.changeIPv4RDNS'' LBPublicIPv4RDNS
     (lb_ipv4_ptr lb) (lb_ipv4 lb) lb svc"

definition changeIPv6RDNS :: "'w lb_ops \<Rightarrow> load_balancer \<Rightarrow> service \<Rightarrow> ('w, bool \<times> goerr option) go" where
  "changeIPv6RDNS L lb svc = changeRDNS L ''hcops/LoadBalancerOps.changeIPv6RDNS'' LBPublicIPv6RDNS
     (lb_ipv6_ptr lb) (lb_ipv6 lb) lb svc"

definition changeAlgorithm :: "'w lb_ops \<Rightarrow> load_balancer \<Rightarrow> service \<Rightarrow> ('w, bool \<times> goerr option) go" where
  "changeAlgorithm L lb svc = (let op = ''hcops/LoadBalancerOps.changeAlgorithm'' in
     case LBAlgorithmTypeFromService LBAlgorithmType svc of
       Inl e \<Rightarrow> ret (if errors_is e ErrNotSet then (False, None) else (False, Some (wrap op e)))
     | Inr alg \<Rightarrow>
         if alg = lb_algorithm lb then ret (False, None)
         else do {
           err \<leftarrow> do_and_watch (l_api L) op (ChangeAlgorithm (lb_id lb) alg);
           ret (changed_unless_error err)
         })"

definition nil_deref :: goerr where
  "nil_deref = GoPanic ''runtime error: invalid memory address or nil pointer dereference''"

definition changeType :: "'w lb_ops \<Rightarrow> load_balancer \<Rightarrow> service \<Rightarrow> ('w, bool \<times> goerr option) go" where
  "changeType L lb svc =
     (case StringFromService LBType svc of
        None \<Rightarrow> ret (False, None)
      | Some lt \<Rightarrow>
          (case lb_type lb of
             None \<Rightarrow> ret (False, Some nil_deref)
           | Some cur \<Rightarrow>
               if lt = cur then ret (False, None)
               else do {
                 err \<leftarrow> do_and_watch (l_api L) ''hcops/LoadBalancerOps.changeType'' (ChangeType (lb_id lb) lt);
                 ret (changed_unless_error err)
               }))"

definition detach_body :: "'w lb_ops \<Rightarrow> load_balancer \<Rightarrow> private_net \<Rightarrow> bool \<Rightarrow> ('w, (bool \<times> goerr) + bool) go" where
  "detach_body L lb pn changed =
     (if l_network_id L = pn_network pn then ret (Inr changed)
      else do {
        err \<leftarrow> do_and_watch (l_api L) ''hcops/LoadBalancerOps.detachFromNetwork''
                 (DetachFromNetwork (lb_id lb) (pn_network pn));
        ret (case err of Some e \<Rightarrow> Inl (changed, e) | None \<Rightarrow> Inr True)
      })"

definition detachFromNetwork :: "'w lb_ops \<Rightarrow> load_balancer \<Rightarrow> ('w, bool \<times> goerr option) go" where
  "detachFromNetwork L lb = do {
     r \<leftarrow> range_loop (detach_body L lb) (lb_private_net lb) False;
     ret (case r of Inl (changed, e) \<Rightarrow> (changed, Some e) | Inr changed \<Rightarrow> (changed, None))
   }"

definition lbAttached :: "load_balancer \<Rightarrow> int \<Rightarrow> bool" where
  "lbAttached lb nwID \<longleftrightarrow> list_ex (\<lambda>pn. pn_network pn = nwID) (lb_private_net lb)"

definition attachToNetwork :: "'w lb_ops \<Rightarrow> load_balancer \<Rightarrow> ('w, bool \<times> goerr option) go" where
  "attachToNetwork L lb = (let op = ''hcops/LoadBalancerOps.attachToNetwork''; A = l_api L in
     if l_network_id L = 0 \<or> lbAttached lb (l_network_id L) then ret (False, None)
     else do {
       r \<leftarrow> network_get A (l_network_id L);
       case r of
         Inl e \<Rightarrow> ret (False, Some (wrap op e))
       | Inr None \<Rightarrow> ret (False, Some (Msg (op @ '': '' @ format_int (l_network_id L) @ '': not found'')))
       | Inr (Some nw) \<Rightarrow> do {
           let retryDelay = (if l_retry_delay L = 0 then Second else l_retry_delay L);
           r \<leftarrow> lb_do A (AttachToNetwork (lb_id lb) (nw_id nw));
           r \<leftarrow> (case r of
                   Inl e \<Rightarrow>
                     if a_is_error A e ErrorCodeConflict \<or> a_is_error A e ErrorCodeLocked then do {
                       _ \<leftarrow> sleep retryDelay;
                       lb_do A (AttachToNetwork (lb_id lb) (nw_id nw))
                     } else ret (Inl e)
                 | Inr a \<Rightarrow> ret (Inr a));
           case r of
             Inl e \<Rightarrow> ret (False, Some (wrap op e))
           | Inr a \<Rightarrow> do {
               err \<leftarrow> WatchAction A a;
               ret (changed_unless_error (map_option (wrap op) err))
             }
         }
     })"

definition togglePublicInterface :: "'w lb_ops \<Rightarrow> load_balancer \<Rightarrow> service \<Rightarrow> ('w, bool \<times> goerr option) go" where
  "togglePublicInterface L lb svc = (let op = ''hcops/LoadBalancerOps.togglePublicInterface'' in
     case BoolFromService LBDisablePublicNetwork svc of
       Inl e \<Rightarrow> ret (if errors_is e ErrNotSet then (False, None) else (False, Some (wrap op e)))
     | Inr disable \<Rightarrow>
         if disable = (\<not> lb_public_enabled lb) then ret (False, None)
         else do {
           err \<leftarrow> do_and_watch (l_api L) op
             (if disable then DisablePublicInterface (lb_id lb) else EnablePublicInterface (lb_id lb));
           ret (changed_unless_error err)
         })"

text \<open>The steps of \<open>ReconcileHCLB\<close> after the first: stop at the first error.\<close>

fun reconcile_steps :: "string \<Rightarrow> bool \<Rightarrow> ('w, bool \<times> goerr option) go list \<Rightarrow> ('w, bool \<times> goerr option) go" where
  "reconcile_steps op changed [] = ret (changed, None)"
| "reconcile_steps op changed (m # ms) = do {
     r \<leftarrow> m;
     case r of
       (c, Some e) \<Rightarrow> ret (changed, Some (wrap op e))
     | (c, None) \<Rightarrow> reconcile_steps op (changed \<or> c) ms
   }"

definition ReconcileHCLB :: "'w lb_ops \<Rightarrow> load_balancer \<Rightarrow> service \<Rightarrow> ('w, load_balancer \<times> bool \<times> goerr option) go" where
  "ReconcileHCLB L lb svc = (let op = ''hcops/LoadBalancerOps.ReconcileHCLB'' in do {
     r \<leftarrow> changeHCLBInfo L lb svc;
     case r of
       (lb, c, Some e) \<Rightarrow> ret (lb, False, Some (wrap op e))
     | (lb, c, None) \<Rightarrow> do {
         r \<leftarrow> reconcile_steps op c
           [changeIPv4RDNS L lb svc, changeIPv6RDNS L lb svc, changeAlgorithm L lb svc, changeType L lb svc,
            detachFromNetwork L lb, attachToNetwork L lb, togglePublicInterface L lb svc];
         ret (lb, r)
       }
   })"

end
