(* ===== verification/LBTargets.thy ===== *)
theory LBTargets
  imports LBOps
begin

text \<open>
  \<open>ReconcileHCLBTargets\<close> of \<open>internal/hcops/load_balancer.go\<close>: the targets of a load balancer
  follow the nodes of the cluster. Cloud servers are server targets, dedicated servers are IP
  targets with the addresses that the Robot API reports. The result is \<open>(changed, error)\<close>.
\<close>

section \<open>Configuration of the targets\<close>

definition getRobotTargetFamily :: "'w lb_ops \<Rightarrow> service \<Rightarrow> goerr + family" where
  "getRobotTargetFamily L svc =
     (case StringFromService LBRobotTargetAddressFamily svc of
        None \<Rightarrow> Inr (d_robot_target_family (l_defaults L))
      | Some v \<Rightarrow>
          (case AddressFamily.Parse v of
             Inl e \<Rightarrow> Inl (wrap (''failed to parse '' @ name_str LBRobotTargetAddressFamily) e)
           | Inr f \<Rightarrow> Inr f))"

definition robotTargetIPs :: "family \<Rightarrow> robot_server \<Rightarrow> string list" where
  "robotTargetIPs f s =
     (if UsesIPv4 f \<and> rs_ip s \<noteq> '''' then [rs_ip s] else []) @
     (if UsesIPv6 f \<and> rs_ipv6_net s \<noteq> '''' then [rs_ipv6_net s @ ''1''] else [])"

definition getUsePrivateIP :: "'w lb_ops \<Rightarrow> service \<Rightarrow> goerr + bool" where
  "getUsePrivateIP L svc =
     (case BoolFromService LBUsePrivateIP svc of
        Inl e \<Rightarrow> if errors_is e ErrNotSet then Inr (d_use_private_ip (l_defaults L)) else Inl e
      | Inr b \<Rightarrow> Inr b)"

definition maxNumber :: "string \<Rightarrow> int" where
  "maxNumber lbType = (if lbType = ''lb31'' then 150 else if lbType = ''lb21'' then 75 else 25)"

definition maxTargetsReached :: "int \<Rightarrow> string \<Rightarrow> bool" where
  "maxTargetsReached currentNumber lbType \<longleftrightarrow> maxNumber lbType \<le> currentNumber"

definition limit_reached :: "load_balancer \<Rightarrow> int \<Rightarrow> bool" where
  "limit_reached lb n = (case lb_type lb of None \<Rightarrow> False | Some t \<Rightarrow> maxTargetsReached n t)"

section \<open>The nodes of the cluster\<close>

text \<open>The maps keyed by node ID: only \<open>true\<close> is ever stored, so a key set is a list of keys.\<close>

record node_sets =
  ns_hcloud :: "int list"
  ns_robot :: "int list"
  ns_names :: "int \<rightharpoonup> string"

definition add_key :: "'k \<Rightarrow> 'k list \<Rightarrow> 'k list" where
  "add_key k ks = (if k \<in> set ks then ks else ks @ [k])"

definition add_node :: "int \<times> bool \<Rightarrow> string \<Rightarrow> node_sets \<Rightarrow> node_sets" where
  "add_node p name ns = (case p of (i, isHCloud) \<Rightarrow>
     (if isHCloud then ns\<lparr>ns_hcloud := add_key i (ns_hcloud ns)\<rparr>
      else ns\<lparr>ns_robot := add_key i (ns_robot ns)\<rparr>)\<lparr>ns_names := (ns_names ns)(i \<mapsto> name)\<rparr>)"

definition targets_op :: string where "targets_op = ''hcops/LoadBalancerOps.ReconcileHCLBTargets''"

definition node_body :: "node \<Rightarrow> node_sets \<Rightarrow> ('w, (bool \<times> goerr option) + node_sets) go" where
  "node_body n ns =
     (case ToServerID (nd_provider_id n) of
        Inl e \<Rightarrow>
          if errors_as_unknown_prefix e then do {
            _ \<leftarrow> record_event ''UnknownProviderIDPrefix'' (nd_name n);
            ret (Inr ns)
          } else ret (Inl (False, Some (wrap targets_op e)))
      | Inr p \<Rightarrow> ret (Inr (add_node p (nd_name n) ns)))"

definition no_nodes :: node_sets where
  "no_nodes = \<lparr>ns_hcloud = [], ns_robot = [], ns_names = Map.empty\<rparr>"

definition node_name :: "node_sets \<Rightarrow> int \<Rightarrow> string" where
  "node_name ns i = (case ns_names ns i of Some n \<Rightarrow> n | None \<Rightarrow> '''')"

section \<open>The dedicated servers\<close>

definition robot_id_to_ips :: "family \<Rightarrow> robot_server list \<Rightarrow> int \<Rightarrow> string list" where
  "robot_id_to_ips f ss = foldl (\<lambda>m s. m(rs_number s := robotTargetIPs f s)) (\<lambda>_. []) ss"

definition robot_ips_to_id :: "family \<Rightarrow> robot_server list \<Rightarrow> string \<rightharpoonup> int" where
  "robot_ips_to_id f ss =
     foldl (\<lambda>m s. foldl (\<lambda>m ip. m(ip \<mapsto> rs_number s)) m (robotTargetIPs f s)) Map.empty ss"

section \<open>Removing targets\<close>

text \<open>What the loops share: the load balancer, the wanted private flag, the nodes and the servers.\<close>

record target_env =
  te_lb :: load_balancer
  te_use_private :: bool
  te_nodes :: node_sets
  te_id_to_ips :: "int \<Rightarrow> string list"
  te_ip_to_id :: "string \<rightharpoonup> int"

record target_state =
  ts_ids :: "int \<Rightarrow> bool"
  ts_ips :: "string \<Rightarrow> bool"
  ts_changed :: bool
  ts_count :: int

text \<open>Whether an existing target stays.\<close>

fun keep_target :: "target_env \<Rightarrow> lb_target \<Rightarrow> bool" where
  "keep_target E (ServerTarget i priv) = (i \<in> set (ns_hcloud (te_nodes E)) \<and> priv = te_use_private E)"
| "keep_target E (IPTarget x) =
     (case te_ip_to_id E x of Some i \<Rightarrow> i \<in> set (ns_robot (te_nodes E)) | None \<Rightarrow> False)"
| "keep_target E OtherTarget = True"

definition remove_target :: "'w lb_ops \<Rightarrow> string \<Rightarrow> lb_request \<Rightarrow> target_state \<Rightarrow> ('w, (bool \<times> goerr option) + target_state) go"
  where
  "remove_target L op q st = do {
     err \<leftarrow> do_and_watch (l_api L) op q;
     ret (case err of
            Some e \<Rightarrow> Inl (ts_changed st, Some e)
          | None \<Rightarrow> Inr (st\<lparr>ts_changed := True, ts_count := ts_count st - 1\<rparr>))
   }"

fun remove_body :: "'w lb_ops \<Rightarrow> target_env \<Rightarrow> lb_target \<Rightarrow> target_state \<Rightarrow> ('w, (bool \<times> goerr option) + target_state) go"
  where
  "remove_body L E (ServerTarget i priv) st =
     (let st = st\<lparr>ts_ids := (ts_ids st)(i := keep_target E (ServerTarget i priv))\<rparr>
      in if ts_ids st i then ret (Inr st)
         else remove_target L (targets_op @ '': target: '' @ node_name (te_nodes E) i)
                (RemoveServerTarget (lb_id (te_lb E)) i) st)"
| "remove_body L E (IPTarget x) st =
     (let st = st\<lparr>ts_ips := (ts_ips st)(x := keep_target E (IPTarget x))\<rparr>
      in if ts_ips st x then ret (Inr st)
         else remove_target L
                (case te_ip_to_id E x of
                   Some i \<Rightarrow> targets_op @ '': target: '' @ node_name (te_nodes E) i
                 | None \<Rightarrow> targets_op @ '': targetIP: '' @ x)
                (RemoveIPTarget (lb_id (te_lb E)) (ParseIP x)) st)"
| "remove_body L E OtherTarget st = ret (Inr st)"

section \<open>Adding targets\<close>

definition limit_event :: "'w lb_ops \<Rightarrow> string \<Rightarrow> ('w, unit) go" where
  "limit_event L obj = record_event ''LoadBalancerTargetsReached'' obj"

definition add_target :: "'w lb_ops \<Rightarrow> string \<Rightarrow> lb_request \<Rightarrow> target_state \<Rightarrow> ('w, (bool \<times> goerr option) + target_state) go"
  where
  "add_target L op q st = do {
     r \<leftarrow> lb_do (l_api L) q;
     case r of
       Inl e \<Rightarrow>
         ret (Inl (if a_is_error (l_api L) e ErrorCodeResourceLimitExceeded then (False, None)
                   else (ts_changed st, Some (wrap op e))))
     | Inr a \<Rightarrow> do {
         err \<leftarrow> WatchAction (l_api L) a;
         ret (case err of
                Some e \<Rightarrow> Inl (ts_changed st, Some (wrap op e))
              | None \<Rightarrow> Inr (st\<lparr>ts_changed := True, ts_count := ts_count st + 1\<rparr>))
       }
   }"

definition add_server_body :: "'w lb_ops \<Rightarrow> string \<Rightarrow> target_env \<Rightarrow> int \<Rightarrow> target_state \<Rightarrow> ('w, (bool \<times> goerr option) + target_state) go"
  where
  "add_server_body L obj E i st =
     (if ts_ids st i then ret (Inr st)
      else if limit_reached (te_lb E) (ts_count st) then do {
        _ \<leftarrow> limit_event L obj;
        ret (Inr st)
      } else add_target L (targets_op @ '': target '' @ node_name (te_nodes E) i)
               (AddServerTarget (lb_id (te_lb E)) i (te_use_private E)) st)"

definition add_ip_body :: "'w lb_ops \<Rightarrow> string \<Rightarrow> target_env \<Rightarrow> int \<Rightarrow> string \<Rightarrow> target_state \<Rightarrow> ('w, (bool \<times> goerr option) + target_state) go"
  where
  "add_ip_body L obj E i x st =
     (if ts_ips st x then ret (Inr st)
      else if ParseIP x = [] then ret (Inr st)
      else if limit_reached (te_lb E) (ts_count st) then do {
        _ \<leftarrow> limit_event L obj;
        ret (Inr st)
      } else add_target L (targets_op @ '': target '' @ node_name (te_nodes E) i)
               (AddIPTarget (lb_id (te_lb E)) (ParseIP x)) st)"

definition add_robot_body :: "'w lb_ops \<Rightarrow> string \<Rightarrow> target_env \<Rightarrow> int \<Rightarrow> target_state \<Rightarrow> ('w, (bool \<times> goerr option) + target_state) go"
  where "add_robot_body L obj E i st = range_loop (add_ip_body L obj E i) (te_id_to_ips E i) st"

section \<open>ReconcileHCLBTargets\<close>

definition robot_servers :: "'w lb_ops \<Rightarrow> service \<Rightarrow> ('w, goerr + robot_server list) go" where
  "robot_servers L svc =
     (if l_has_robot L then do {
        r \<leftarrow> robot_list (l_api L);
        case r of
          Inl e \<Rightarrow> do {
            _ \<leftarrow> HandleRateLimitExceededError (l_api L) e (svc_name svc);
            ret (Inl (wrap (targets_op @ '': failed to get list of dedicated servers'') e))
          }
        | Inr ss \<Rightarrow> ret (Inr ss)
      } else ret (Inr []))"

definition make_env :: "load_balancer \<Rightarrow> bool \<Rightarrow> family \<Rightarrow> node_sets \<Rightarrow> robot_server list \<Rightarrow> target_env" where
  "make_env lb priv f ns ss = \<lparr>te_lb = lb, te_use_private = priv, te_nodes = ns,
     te_id_to_ips = robot_id_to_ips f ss, te_ip_to_id = robot_ips_to_id f ss\<rparr>"

definition init_state :: "load_balancer \<Rightarrow> target_state" where
  "init_state lb = \<lparr>ts_ids = (\<lambda>_. False), ts_ips = (\<lambda>_. False), ts_changed = False,
     ts_count = int (length (lb_targets lb))\<rparr>"

text \<open>The three loops over the targets, the cloud servers and the dedicated servers.\<close>

definition sync_targets :: "'w lb_ops \<Rightarrow> service \<Rightarrow> target_env \<Rightarrow> ('w, bool \<times> goerr option) go" where
  "sync_targets L svc E = do {
     r \<leftarrow> range_loop (remove_body L E) (lb_targets (te_lb E)) (init_state (te_lb E));
     case r of
       Inl res \<Rightarrow> ret res
     | Inr st \<Rightarrow> do {
         r \<leftarrow> range_loop (add_server_body L (svc_name svc) E)
                (map_order (l_ord_hcloud L) (ns_hcloud (te_nodes E))) st;
         case r of
           Inl res \<Rightarrow> ret res
         | Inr st \<Rightarrow> do {
             r \<leftarrow> range_loop (add_robot_body L (svc_name svc) E)
                    (map_order (l_ord_robot L) (ns_robot (te_nodes E))) st;
             ret (case r of Inl res \<Rightarrow> res | Inr st \<Rightarrow> (ts_changed st, None))
           }
       }
   }"

definition ReconcileHCLBTargets :: "'w lb_ops \<Rightarrow> load_balancer \<Rightarrow> service \<Rightarrow> node list \<Rightarrow> ('w, bool \<times> goerr option) go"
  where
  "ReconcileHCLBTargets L lb svc nodes =
     (case getRobotTargetFamily L svc of
        Inl e \<Rightarrow> ret (False, Some (wrap targets_op e))
      | Inr f \<Rightarrow>
     (case getUsePrivateIP L svc of
        Inl e \<Rightarrow> ret (False, Some (wrap targets_op e))
      | Inr priv \<Rightarrow>
          if priv \<and> l_network_id L = 0 then
            ret (False, Some (Msg (targets_op @ '': use private ip: missing network id'')))
          else do {
            r \<leftarrow> range_loop node_body nodes no_nodes;
            case r of
              Inl res \<Rightarrow> ret res
            | Inr ns \<Rightarrow> do {
                r \<leftarrow> robot_servers L svc;
                case r of
                  Inl e \<Rightarrow> ret (False, Some e)
                | Inr ss \<Rightarrow> sync_targets L svc (make_env lb priv f ns ss)
              }
          }))"

end
