(* ===== verification/Samples.thy ===== *)
theory Samples
  imports LBTargets
begin

text \<open>
  Concrete clients for the applications of the theorems at concrete inputs: an outside without
  state where every request succeeds, and a \<open>LoadBalancerOps\<close> on top of it.
\<close>

definition still_api :: "'w api" where
  "still_api = \<lparr>
     a_lb_list = \<lambda>s w. (Inr [], w), a_lb_get_by_name = \<lambda>n w. (Inr None, w),
     a_lb_get_by_id = \<lambda>i w. (Inr (Some sample_lb), w), a_lb_create = \<lambda>opts w. (Inr (7, 1), w),
     a_lb_update = \<lambda>i opts w. (Inr sample_lb, w), a_lb_delete = \<lambda>i w. (None, w),
     a_lb_do = \<lambda>q w. (Inr 7, w), a_watch = \<lambda>a w. (None, w),
     a_network_get = \<lambda>i w. (Inr (Some \<lparr>nw_id = i, nw_name = ''nw'', nw_routes = []\<rparr>), w),
     a_network_add_route = \<lambda>i r w. (Inr 7, w), a_network_delete_route = \<lambda>i r w. (Inr 7, w),
     a_cert_get = \<lambda>n w. (Inr (Some \<lparr>cert_id = 3, cert_name = n\<rparr>), w),
     a_cert_list = \<lambda>s w. (Inr [], w), a_cert_create = \<lambda>opts w. (None, w),
     a_robot_list = \<lambda>w. (Inr [], w), a_servers_all = \<lambda>w. (Inr [], w),
     a_server_get_by_id = \<lambda>i w. (Inr None, w), a_server_get_by_name = \<lambda>n w. (Inr None, w),
     a_server_list = \<lambda>w. (None, w), a_network_lookup = \<lambda>n w. (Inr None, w), a_metadata_networks = \<lambda>w. (Inr '''', w),
     a_robot_get = \<lambda>i w. (Inr None, w), a_robot_set_credentials = \<lambda>u p w. (None, w), a_set_token = \<lambda>t w. ((), w),
     a_read_file = \<lambda>n w. (Inr '''', w), a_stat = \<lambda>n w. (None, w), a_getwd = \<lambda>w. (Inr ''/'', w), a_watch_dir = \<lambda>n w. (None, w),
     a_kube_get = \<lambda>ns n w. (Inr empty_service, w), a_kube_patch = \<lambda>ns n p w. (None, w),
     a_now = \<lambda>w. (0, w), a_is_error = \<lambda>e c. False, a_is_robot_error = \<lambda>e c. False,
     a_is_kube_not_found = \<lambda>e. False, a_is_kube_conflict = \<lambda>e. False,
     a_default_lb_name = svc_uid, a_labels_parse = \<lambda>s. Inr (\<lambda>_. True)\<rparr>"

definition quiet_api :: "unit api" where
  "quiet_api = still_api"

definition sample_defaults :: lb_defaults where
  "sample_defaults = \<lparr>d_location = ''fsn1'', d_network_zone = '''', d_use_private_ip = False,
     d_robot_target_family = IPv4\<rparr>"

definition ops_on :: "'w api \<Rightarrow> 'w lb_ops" where
  "ops_on A = \<lparr>l_api = A, l_has_robot = True, l_retry_delay = 0, l_network_id = 0,
     l_defaults = sample_defaults, l_ord_hcloud = (\<lambda>_. 0), l_ord_robot = (\<lambda>_. 0), l_ord_ports = (\<lambda>_. 0)\<rparr>"

definition sample_globals :: go_globals where
  "sample_globals = \<lparr>g_rate_limit = \<lparr>waitTime = 5 * Minute, exceeded = False, lastChecked = 0\<rparr>,
     g_credentials = \<lparr>oldRobotUser = '''', oldRobotPassword = '''', oldHcloudToken = '''',
       robotReloadCounter = 0, hcloudTokenReloadCounter = 0\<rparr>\<rparr>"

definition sample_robot :: robot_server where
  "sample_robot = \<lparr>rs_number = 5, rs_name = ''bm-1'', rs_ip = ''10.0.0.5'', rs_ipv6_net = ''2a01:4f8::'',
     rs_product = ''EX44'', rs_dc = ''FSN1-DC8''\<rparr>"

text \<open>The service annotated with the given values.\<close>

definition annotated :: "(annot \<times> string) list \<Rightarrow> service" where
  "annotated xs = empty_service\<lparr>svc_uid := ''uid-1'', svc_name := ''web'', svc_namespace := ''default'',
     svc_annotations := foldl (\<lambda>m (n, v). m(name_str n \<mapsto> v)) Map.empty xs\<rparr>"

text \<open>A load balancer with a server, an address and a foreign target, and a cluster of a
  cloud node and a dedicated one.\<close>

definition sample_target_lb :: load_balancer where
  "sample_target_lb = sample_lb\<lparr>lb_targets :=
     [ServerTarget 1 False, IPTarget ''10.0.0.9'', OtherTarget]\<rparr>"

definition sample_nodes :: "node list" where
  "sample_nodes = [node_of ''n3'' ''hcloud://3'', node_of ''bm'' ''hrobot://5'']"

definition robot_api :: "unit api" where
  "robot_api = quiet_api\<lparr>a_robot_list := \<lambda>w. (Inr [sample_robot], w)\<rparr>"

definition target_run :: "(bool \<times> goerr option) \<times> api_call list" where
  "target_run = outcome (ReconcileHCLBTargets (ops_on robot_api) sample_target_lb (annotated []) sample_nodes) sample_globals ()"

end
