(* ===== verification/LBTargetsCorrect.thy ===== *)
theory LBTargetsCorrect
  imports LBTargets Samples
begin

text \<open>
  Correctness of \<open>ReconcileHCLBTargets\<close>. The abstract view of a load balancer's targets is a
  set; the accepted requests of a log act on it. The three loops are specified separately and
  composed.
\<close>

section \<open>The abstract set of targets\<close>

datatype atarget = ASrv int bool | AIP ip | AOther

fun abs_target :: "lb_target \<Rightarrow> atarget" where
  "abs_target (ServerTarget i p) = ASrv i p"
| "abs_target (IPTarget x) = AIP (ParseIP x)"
| "abs_target OtherTarget = AOther"

definition abs_targets :: "load_balancer \<Rightarrow> atarget set" where
  "abs_targets lb = abs_target ` set (lb_targets lb)"

fun apply_request :: "lb_request \<Rightarrow> atarget set \<Rightarrow> atarget set" where
  "apply_request (AddServerTarget l i p) T = insert (ASrv i p) T"
| "apply_request (RemoveServerTarget l i) T = T - {ASrv i True, ASrv i False}"
| "apply_request (AddIPTarget l x) T = insert (AIP x) T"
| "apply_request (RemoveIPTarget l x) T = T - {AIP x}"
| "apply_request q T = T"

definition apply_requests :: "lb_request list \<Rightarrow> atarget set \<Rightarrow> atarget set" where
  "apply_requests qs T = fold apply_request qs T"

lemma apply_requests_simps [simp]:
  "apply_requests [] T = T"
  "apply_requests (q # qs) T = apply_requests qs (apply_request q T)"
  "apply_requests (ps @ qs) T = apply_requests qs (apply_requests ps T)"
  by (simp_all add: apply_requests_def)

text \<open>A log entry that shows a refused change, and the event for a reached target limit.\<close>

fun refused :: "api_call \<Rightarrow> bool" where
  "refused (LbDo q (Inl e)) = True"
| "refused c = False"

fun limit_hit :: "api_call \<Rightarrow> bool" where
  "limit_hit (Event r obj) = (r = ''LoadBalancerTargetsReached'')"
| "limit_hit c = False"

definition clean :: "api_call list \<Rightarrow> bool" where
  "clean cs \<longleftrightarrow> (\<forall>c \<in> set cs. \<not> refused c \<and> \<not> limit_hit c)"

lemma clean_simps [simp]:
  "clean []" "clean (c # cs) \<longleftrightarrow> \<not> refused c \<and> \<not> limit_hit c \<and> clean cs"
  "clean (cs @ ds) \<longleftrightarrow> clean cs \<and> clean ds"
  by (auto simp: clean_def)

section \<open>Single requests\<close>

lemma valid_remove_target:
  assumes "\<And>a. Q [LbDo q (Inr a), Watch a None] (Inr (st\<lparr>ts_changed := True, ts_count := ts_count st - 1\<rparr>))"
    and "\<And>cs e. only_requests ((=) q) cs \<Longrightarrow> Q cs (Inl (ts_changed st, Some e))"
  shows "valid (remove_target L op q st) Q"
  unfolding remove_target_def
  by (intro valid_rules valid_do_and_watch) (use assms in \<open>auto intro!: valid_rules\<close>)

lemma valid_add_target:
  assumes "\<And>a. Q [LbDo q (Inr a), Watch a None] (Inr (st\<lparr>ts_changed := True, ts_count := ts_count st + 1\<rparr>))"
    and "\<And>e res. res = (False, None) \<or> (\<exists>e'. res = (ts_changed st, Some e')) \<Longrightarrow> Q [LbDo q (Inl e)] (Inl res)"
    and "\<And>a e e'. Q [LbDo q (Inr a), Watch a (Some e)] (Inl (ts_changed st, Some e'))"
  shows "valid (add_target L op q st) Q"
  unfolding add_target_def request_defs
  by (intro valid_rules) (auto intro!: valid_rules assms split: sum.split option.split)

section \<open>Distinct targets\<close>

fun target_key :: "lb_target \<Rightarrow> int + ip" where
  "target_key (ServerTarget i p) = Inl i"
| "target_key (IPTarget x) = Inr (ParseIP x)"
| "target_key OtherTarget = Inr []"

text \<open>The API lists a server or an address at most once among the targets of a load balancer.\<close>

definition distinct_targets :: "load_balancer \<Rightarrow> bool" where
  "distinct_targets lb \<longleftrightarrow> distinct (map target_key (filter (\<lambda>t. t \<noteq> OtherTarget) (lb_targets lb)))"

lemma distinct_targets_key:
  "distinct_targets lb \<Longrightarrow> t \<in> set (lb_targets lb) \<Longrightarrow> t' \<in> set (lb_targets lb) \<Longrightarrow>
   t \<noteq> OtherTarget \<Longrightarrow> t' \<noteq> OtherTarget \<Longrightarrow> target_key t = target_key t' \<Longrightarrow> t = t'"
  unfolding distinct_targets_def distinct_map by (auto dest: inj_onD)

lemma distinct_targets_split:
  assumes "distinct_targets lb" and "lb_targets lb = seen @ t # rest" and "t \<noteq> OtherTarget"
    and "t' \<in> set seen" and "t' \<noteq> OtherTarget"
  shows "target_key t' \<noteq> target_key t"
proof -
  have "target_key t \<notin> target_key ` set (filter (\<lambda>t. t \<noteq> OtherTarget) seen)"
    using assms(1-3) by (simp add: distinct_targets_def)
  moreover have "target_key t' \<in> target_key ` set (filter (\<lambda>t. t \<noteq> OtherTarget) seen)"
    using assms(4,5) by (intro imageI) simp
  ultimately show ?thesis by metis
qed

text \<open>The request that removes a target, and its effect on the abstract set.\<close>

fun removal :: "int \<Rightarrow> lb_target \<Rightarrow> lb_request" where
  "removal l (ServerTarget i p) = RemoveServerTarget l i"
| "removal l (IPTarget x) = RemoveIPTarget l (ParseIP x)"
| "removal l OtherTarget = DeleteService l 0"

lemma abs_target_of_key:
  "t \<noteq> OtherTarget \<Longrightarrow> abs_target u = abs_target t \<Longrightarrow> u \<noteq> OtherTarget \<and> target_key u = target_key t"
  by (cases t; cases u) auto

lemma removal_effect:
  assumes "distinct_targets lb" and "t \<in> set (lb_targets lb)" and "t \<noteq> OtherTarget"
    and "T \<subseteq> abs_targets lb"
  shows "apply_request (removal l t) T = T - {abs_target t}"
proof -
  have same: "t' = t" if "t' \<in> set (lb_targets lb)" "t' \<noteq> OtherTarget" "target_key t' = target_key t" for t'
    using distinct_targets_key [OF assms(1,2) that(1) assms(3) that(2)] that(3) by simp
  show ?thesis
  proof (cases t)
    case (ServerTarget i p)
    have "ASrv i q \<notin> T" if "q \<noteq> p" for q
    proof
      assume "ASrv i q \<in> T"
      then obtain u where u: "u \<in> set (lb_targets lb)" "abs_target u = ASrv i q"
        using assms(4) by (force simp: abs_targets_def)
      from u(2) have "u = ServerTarget i q" by (cases u) auto
      with same [of u] u(1) ServerTarget that show False by simp
    qed
    then show ?thesis using ServerTarget by (cases p) auto
  qed (use assms(3) in simp_all)
qed

section \<open>The removal loop\<close>

definition dropped :: "target_env \<Rightarrow> lb_target list \<Rightarrow> atarget set" where
  "dropped E ts = abs_target ` {t \<in> set ts. \<not> keep_target E t}"

definition tracked :: "target_env \<Rightarrow> lb_target list \<Rightarrow> target_state \<Rightarrow> bool" where
  "tracked E seen st \<longleftrightarrow>
     (\<forall>i. ts_ids st i = (\<exists>p. ServerTarget i p \<in> set seen \<and> keep_target E (ServerTarget i p))) \<and>
     (\<forall>x. ts_ips st x = (IPTarget x \<in> set seen \<and> keep_target E (IPTarget x)))"

lemma dropped_snoc:
  "dropped E (seen @ [t]) = (if keep_target E t then dropped E seen else insert (abs_target t) (dropped E seen))"
  by (auto simp: dropped_def)

lemma tracked_skip:
  "tracked E seen st \<Longrightarrow> keep_target E t \<Longrightarrow>
   tracked E (seen @ [t]) (case t of ServerTarget i p \<Rightarrow> st\<lparr>ts_ids := (ts_ids st)(i := True)\<rparr>
     | IPTarget x \<Rightarrow> st\<lparr>ts_ips := (ts_ips st)(x := True)\<rparr> | OtherTarget \<Rightarrow> st)"
  by (cases t) (auto simp: tracked_def simp del: keep_target.simps)

lemma tracked_drop:
  assumes "tracked E seen st" and "\<not> keep_target E t"
    and "\<And>t'. t' \<in> set seen \<Longrightarrow> t' \<noteq> OtherTarget \<Longrightarrow> target_key t' \<noteq> target_key t"
  shows "tracked E (seen @ [t]) (case t of ServerTarget i p \<Rightarrow> st\<lparr>ts_ids := (ts_ids st)(i := False)\<rparr>
     | IPTarget x \<Rightarrow> st\<lparr>ts_ips := (ts_ips st)(x := False)\<rparr> | OtherTarget \<Rightarrow> st)"
  using assms(1,2) assms(3) [of "ServerTarget i p" for i p] assms(3) [of "IPTarget x" for x]
  by (cases t) (auto simp: tracked_def simp del: keep_target.simps, metis (full_types))

text \<open>
  What the removal loop has done after the targets \<open>seen\<close>: the changes remove exactly the
  dropped targets, the bookkeeping of the kept ones is right, and the counter follows.
\<close>

definition removed_so_far :: "target_env \<Rightarrow> lb_target list \<Rightarrow> api_call list \<Rightarrow> target_state \<Rightarrow> bool" where
  "removed_so_far E seen cs st \<longleftrightarrow>
     apply_requests (changes cs) (abs_targets (te_lb E)) = abs_targets (te_lb E) - dropped E seen \<and>
     tracked E seen st"

lemma removed_so_far_init: "removed_so_far E [] [] (init_state (te_lb E))"
  by (simp add: removed_so_far_def dropped_def tracked_def init_state_def)

lemma removed_so_far_step:
  assumes "removed_so_far E seen cs st" and "lb_targets (te_lb E) = seen @ t # rest"
    and "distinct_targets (te_lb E)" and "t \<noteq> OtherTarget" and "\<not> keep_target E t"
    and "changes cs' = [removal l t]"
    and "ts_ids st' = ts_ids st1" and "ts_ips st' = ts_ips st1"
    and "st1 = (case t of ServerTarget i p \<Rightarrow> st\<lparr>ts_ids := (ts_ids st)(i := False)\<rparr>
           | IPTarget x \<Rightarrow> st\<lparr>ts_ips := (ts_ips st)(x := False)\<rparr> | OtherTarget \<Rightarrow> st)"
  shows "removed_so_far E (seen @ [t]) (cs @ cs') st'"
proof -
  have "tracked E (seen @ [t]) st1"
    unfolding assms(9)
    by (rule tracked_drop) (use assms(1,5) distinct_targets_split [OF assms(3,2,4)] in \<open>auto simp: removed_so_far_def\<close>)
  then have "tracked E (seen @ [t]) st'" using assms(7,8) by (simp add: tracked_def)
  moreover have "apply_request (removal l t) (abs_targets (te_lb E) - dropped E seen)
      = abs_targets (te_lb E) - dropped E seen - {abs_target t}"
    by (rule removal_effect) (use assms(2,3,4) in auto)
  ultimately show ?thesis
    using assms(1,5,6) by (auto simp: removed_so_far_def dropped_snoc simp del: keep_target.simps)
qed

lemma removed_so_far_keep:
  assumes "removed_so_far E seen cs st" and "keep_target E t"
  shows "removed_so_far E (seen @ [t]) cs (case t of ServerTarget i p \<Rightarrow> st\<lparr>ts_ids := (ts_ids st)(i := True)\<rparr>
           | IPTarget x \<Rightarrow> st\<lparr>ts_ips := (ts_ips st)(x := True)\<rparr> | OtherTarget \<Rightarrow> st)"
  using assms tracked_skip [of E seen st t] by (auto simp: removed_so_far_def dropped_snoc simp del: keep_target.simps)

lemma remove_body_keep:
  "keep_target E t \<Longrightarrow> remove_body L E t st = ret (Inr (case t of ServerTarget i p \<Rightarrow> st\<lparr>ts_ids := (ts_ids st)(i := True)\<rparr>
     | IPTarget x \<Rightarrow> st\<lparr>ts_ips := (ts_ips st)(x := True)\<rparr> | OtherTarget \<Rightarrow> st))"
  by (cases t) (simp_all add: Let_def del: keep_target.simps)

lemma removal_loop:
  assumes "distinct_targets (te_lb E)"
  shows "valid (range_loop (remove_body L E) (lb_targets (te_lb E)) (init_state (te_lb E)))
    (\<lambda>cs r. case r of Inl res \<Rightarrow> snd res \<noteq> None | Inr st \<Rightarrow> removed_so_far E (lb_targets (te_lb E)) cs st)"
proof (rule valid_range_loop [where I = "removed_so_far E" and E = "\<lambda>cs res. snd res \<noteq> None"])
  show "removed_so_far E [] [] (init_state (te_lb E))" by (rule removed_so_far_init)
next
  fix t st cs seen rest
  assume split: "lb_targets (te_lb E) = seen @ t # rest" and I: "removed_so_far E seen cs st"
  show "valid (remove_body L E t st) (\<lambda>cs' r. case r of Inl res \<Rightarrow> snd res \<noteq> None
      | Inr st' \<Rightarrow> removed_so_far E (seen @ [t]) (cs @ cs') st')"
  proof (cases "keep_target E t")
    case True
    then show ?thesis
      unfolding remove_body_keep [OF True]
      by (intro valid_rules) (use removed_so_far_keep [OF I True] in simp)
  next
    case False
    then have other: "t \<noteq> OtherTarget" by auto
    note step = removed_so_far_step [OF I split assms other False _ _ _ refl, where l = "lb_id (te_lb E)"]
    show ?thesis
    proof (cases t)
      case (ServerTarget i p)
      then show ?thesis using False
        by (auto intro!: valid_remove_target step [unfolded ServerTarget] simp: Let_def simp del: keep_target.simps)
    next
      case (IPTarget x)
      then show ?thesis using False
        by (auto intro!: valid_remove_target step [unfolded IPTarget] simp: Let_def simp del: keep_target.simps)
    qed (use other in simp)
  qed
qed

section \<open>The loops that add targets\<close>

lemma add_server_loop:
  "valid (range_loop (add_server_body L obj E) ks st0)
    (\<lambda>cs r. case r of Inl (ch, err) \<Rightarrow> err \<noteq> None \<or> \<not> clean cs
      | Inr st \<Rightarrow> ts_ids st = ts_ids st0 \<and> ts_ips st = ts_ips st0 \<and>
          (clean cs \<longrightarrow> (\<forall>T. apply_requests (changes cs) T =
             T \<union> {ASrv i (te_use_private E) |i. i \<in> set ks \<and> \<not> ts_ids st0 i})))"
  by (rule valid_range_loop [where I = "\<lambda>seen cs st. ts_ids st = ts_ids st0 \<and> ts_ips st = ts_ips st0 \<and>
          (clean cs \<longrightarrow> (\<forall>T. apply_requests (changes cs) T =
             T \<union> {ASrv i (te_use_private E) |i. i \<in> set seen \<and> \<not> ts_ids st0 i}))"
        and E = "\<lambda>cs (ch, err). err \<noteq> None \<or> \<not> clean cs"])
    (auto simp: add_server_body_def limit_event_def record_event_def intro!: valid_rules valid_add_target)

definition missing_ips :: "(string \<Rightarrow> bool) \<Rightarrow> string list \<Rightarrow> atarget set" where
  "missing_ips ips xs = {AIP (ParseIP x) |x. x \<in> set xs \<and> ParseIP x \<noteq> [] \<and> \<not> ips x}"

lemma missing_ips_simps [simp]:
  "missing_ips ips [] = {}"
  "missing_ips ips (xs @ [x]) = (if ParseIP x \<noteq> [] \<and> \<not> ips x then insert (AIP (ParseIP x)) (missing_ips ips xs)
     else missing_ips ips xs)"
  by (auto simp: missing_ips_def)

lemma add_ip_loop:
  "valid (range_loop (add_ip_body L obj E i) xs st0)
    (\<lambda>cs r. case r of Inl (ch, err) \<Rightarrow> err \<noteq> None \<or> \<not> clean cs
      | Inr st \<Rightarrow> ts_ips st = ts_ips st0 \<and>
          (clean cs \<longrightarrow> (\<forall>T. apply_requests (changes cs) T = T \<union> missing_ips (ts_ips st0) xs)))"
  by (rule valid_range_loop [where I = "\<lambda>seen cs st. ts_ips st = ts_ips st0 \<and>
          (clean cs \<longrightarrow> (\<forall>T. apply_requests (changes cs) T = T \<union> missing_ips (ts_ips st0) seen))"
        and E = "\<lambda>cs (ch, err). err \<noteq> None \<or> \<not> clean cs"])
    (auto simp: add_ip_body_def limit_event_def record_event_def intro!: valid_rules valid_add_target)

lemma add_robot_loop:
  "valid (range_loop (add_robot_body L obj E) ks st0)
    (\<lambda>cs r. case r of Inl (ch, err) \<Rightarrow> err \<noteq> None \<or> \<not> clean cs
      | Inr st \<Rightarrow> ts_ips st = ts_ips st0 \<and>
          (clean cs \<longrightarrow> (\<forall>T. apply_requests (changes cs) T =
             T \<union> (\<Union>i \<in> set ks. missing_ips (ts_ips st0) (te_id_to_ips E i)))))"
proof (rule valid_range_loop [where I = "\<lambda>seen cs st. ts_ips st = ts_ips st0 \<and>
          (clean cs \<longrightarrow> (\<forall>T. apply_requests (changes cs) T =
             T \<union> (\<Union>i \<in> set seen. missing_ips (ts_ips st0) (te_id_to_ips E i))))"
        and E = "\<lambda>cs (ch, err). err \<noteq> None \<or> \<not> clean cs"])
  fix i and st :: target_state and cs seen rest
  assume "ts_ips st = ts_ips st0 \<and> (clean cs \<longrightarrow> (\<forall>T. apply_requests (changes cs) T =
             T \<union> (\<Union>i \<in> set seen. missing_ips (ts_ips st0) (te_id_to_ips E i))))"
  then show "valid (add_robot_body L obj E i st) (\<lambda>cs' r. case r of Inl res \<Rightarrow> (case res of (ch, err) \<Rightarrow> err \<noteq> None \<or> \<not> clean (cs @ cs'))
      | Inr st' \<Rightarrow> ts_ips st' = ts_ips st0 \<and> (clean (cs @ cs') \<longrightarrow> (\<forall>T. apply_requests (changes (cs @ cs')) T =
             T \<union> (\<Union>i \<in> set (seen @ [i]). missing_ips (ts_ips st0) (te_id_to_ips E i)))))"
    unfolding add_robot_body_def
    by (intro valid_mono [OF add_ip_loop]) (auto split: sum.splits)
qed auto

section \<open>All loops together\<close>

definition wanted_by_env :: "target_env \<Rightarrow> atarget set" where
  "wanted_by_env E =
     {ASrv i (te_use_private E) |i. i \<in> set (ns_hcloud (te_nodes E))} \<union>
     {AIP (ParseIP x) |i x. i \<in> set (ns_robot (te_nodes E)) \<and> x \<in> set (te_id_to_ips E i) \<and> ParseIP x \<noteq> []}"

text \<open>Both maps of the environment agree: an address of the one map is listed in the other.\<close>

definition maps_agree :: "target_env \<Rightarrow> bool" where
  "maps_agree E \<longleftrightarrow> (\<forall>x i. te_ip_to_id E x = Some i \<longrightarrow> x \<in> set (te_id_to_ips E i))"

text \<open>The API lists addresses among the targets.\<close>

definition ip_targets_parse :: "load_balancer \<Rightarrow> bool" where
  "ip_targets_parse lb \<longleftrightarrow> (\<forall>x. IPTarget x \<in> set (lb_targets lb) \<longrightarrow> ParseIP x \<noteq> [])"

lemma abs_targets_minus_dropped:
  assumes "distinct_targets lb"
  shows "abs_targets lb - dropped E (lb_targets lb) = abs_target ` {t \<in> set (lb_targets lb). keep_target E t}"
    (is "?l = ?r")
proof (intro equalityI subsetI)
  fix a assume "a \<in> ?l" then show "a \<in> ?r" by (auto simp: abs_targets_def dropped_def)
next
  fix a assume "a \<in> ?r"
  then obtain t where t: "t \<in> set (lb_targets lb)" "keep_target E t" "a = abs_target t" by auto
  have "a \<notin> dropped E (lb_targets lb)"
  proof
    assume "a \<in> dropped E (lb_targets lb)"
    then obtain u where u: "u \<in> set (lb_targets lb)" "\<not> keep_target E u" "abs_target t = abs_target u"
      using t(3) by (auto simp: dropped_def simp del: keep_target.simps)
    then have "u \<noteq> OtherTarget" by auto
    with u abs_target_of_key [OF this u(3)] distinct_targets_key [OF assms t(1) u(1)] t(2)
    show False by auto
  qed
  then show "a \<in> ?l" using t by (auto simp: abs_targets_def)
qed

lemma kept_and_added:
  assumes "distinct_targets (te_lb E)" and "ip_targets_parse (te_lb E)" and "maps_agree E"
    and "removed_so_far E (lb_targets (te_lb E)) cs st"
    and "set ks = set (ns_hcloud (te_nodes E))" and "set ks' = set (ns_robot (te_nodes E))"
  shows "apply_requests (changes cs) (abs_targets (te_lb E)) \<union>
      {ASrv i (te_use_private E) |i. i \<in> set ks \<and> \<not> ts_ids st i} \<union>
      (\<Union>i \<in> set ks'. missing_ips (ts_ips st) (te_id_to_ips E i)) =
    wanted_by_env E \<union> (abs_targets (te_lb E) \<inter> {AOther})" (is "?l = ?r")
proof -
  let ?K = "abs_target ` {t \<in> set (lb_targets (te_lb E)). keep_target E t}"
  have K: "apply_requests (changes cs) (abs_targets (te_lb E)) = ?K" and tr: "tracked E (lb_targets (te_lb E)) st"
    using assms(4) by (simp_all add: removed_so_far_def abs_targets_minus_dropped [OF assms(1)] del: keep_target.simps)
  have kept: "abs_target t \<in> ?r" if "t \<in> set (lb_targets (te_lb E))" "keep_target E t" for t
  proof (cases t)
    case (IPTarget x)
    with that(2) obtain i where "te_ip_to_id E x = Some i" "i \<in> set (ns_robot (te_nodes E))"
      by (auto split: option.splits)
    moreover have "ParseIP x \<noteq> []" using that(1) IPTarget assms(2) by (simp add: ip_targets_parse_def)
    ultimately show ?thesis using assms(3) IPTarget by (auto simp: wanted_by_env_def maps_agree_def)
  qed (use that in \<open>auto simp: wanted_by_env_def abs_targets_def rev_image_eqI\<close>)
  have srv: "ASrv i (te_use_private E) \<in> ?K" if "ts_ids st i" for i
    using that tr by (force simp: tracked_def)
  have ip: "AIP (ParseIP x) \<in> ?K" if "ts_ips st x" for x
    using that tr by (force simp: tracked_def)
  have other: "abs_targets (te_lb E) \<inter> {AOther} \<subseteq> ?K"
  proof
    fix a assume "a \<in> abs_targets (te_lb E) \<inter> {AOther}"
    then obtain u where u: "u \<in> set (lb_targets (te_lb E))" "abs_target u = AOther" "a = AOther"
      by (auto simp: abs_targets_def)
    from u(2) have "u = OtherTarget" by (cases u) auto
    with u show "a \<in> ?K" by force
  qed
  show ?thesis
  proof (intro equalityI subsetI)
    fix a assume "a \<in> ?l"
    then show "a \<in> ?r"
      unfolding K using kept assms(5,6) by (auto simp: wanted_by_env_def missing_ips_def simp del: keep_target.simps)
  next
    fix a assume "a \<in> ?r"
    then show "a \<in> ?l"
      unfolding K using srv ip other assms(5,6)
      by (fastforce simp: wanted_by_env_def missing_ips_def simp del: keep_target.simps)
  qed
qed

lemma sync_targets_converges:
  assumes "distinct_targets (te_lb E)" and "ip_targets_parse (te_lb E)"
  shows "valid (sync_targets L svc E) (\<lambda>cs (ch, err). maps_agree E \<and> err = None \<and> clean cs \<longrightarrow>
    apply_requests (changes cs) (abs_targets (te_lb E)) = wanted_by_env E \<union> (abs_targets (te_lb E) \<inter> {AOther}))"
  unfolding sync_targets_def
proof (rule valid_bind, rule valid_mono [OF removal_loop [OF assms(1)]], goal_cases)
  case (1 cs1 r)
  show ?case
  proof (cases r)
    case (Inl res)
    then show ?thesis using 1 by (auto intro!: valid_return)
  next
    case (Inr st1)
    with 1 have rem: "removed_so_far E (lb_targets (te_lb E)) cs1 st1" by simp
    note final = kept_and_added [OF assms _ rem set_map_order set_map_order]
    show ?thesis
      unfolding Inr sum.case
    proof (rule valid_bind, rule valid_mono [OF add_server_loop], goal_cases)
      case (1 cs2 r2)
      show ?case
      proof (cases r2)
        case (Inl res)
        then show ?thesis using 1 by (auto intro!: valid_return)
      next
        case (Inr st2)
        with 1 have add: "ts_ips st2 = ts_ips st1"
          "clean cs2 \<Longrightarrow> apply_requests (changes cs2) T =
             T \<union> {ASrv i (te_use_private E) |i. i \<in> set (map_order (l_ord_hcloud L) (ns_hcloud (te_nodes E))) \<and> \<not> ts_ids st1 i}" for T
          by auto
        show ?thesis
          unfolding Inr sum.case
        proof (rule valid_bind, rule valid_mono [OF add_robot_loop], goal_cases)
          case (1 cs3 r3)
          then show ?case
            using add final by (cases r3) (auto intro!: valid_return)
        qed
      qed
    qed
  qed
qed

section \<open>The environment\<close>

lemma robot_id_to_ips_snoc:
  "robot_id_to_ips f (ss @ [s]) = (robot_id_to_ips f ss)(rs_number s := robotTargetIPs f s)"
  by (simp add: robot_id_to_ips_def)

lemma robot_id_to_ips_lookup:
  "distinct (map rs_number ss) \<Longrightarrow> s \<in> set ss \<Longrightarrow> robot_id_to_ips f ss (rs_number s) = robotTargetIPs f s"
  by (induction ss rule: rev_induct) (auto simp: robot_id_to_ips_snoc image_iff)

lemma robot_id_to_ips_absent: "i \<notin> rs_number ` set ss \<Longrightarrow> robot_id_to_ips f ss i = []"
  by (induction ss rule: rev_induct) (simp_all add: robot_id_to_ips_snoc, simp add: robot_id_to_ips_def)

lemma foldl_upd_lookup: "foldl (\<lambda>m x. m(x \<mapsto> v)) m xs k = (if k \<in> set xs then Some v else m k)"
  by (induction xs arbitrary: m) auto

lemma robot_ips_to_id_lookup:
  "robot_ips_to_id f ss x = Some i \<Longrightarrow> \<exists>s \<in> set ss. rs_number s = i \<and> x \<in> set (robotTargetIPs f s)"
proof (induction ss rule: rev_induct)
  case (snoc s ss)
  then show ?case by (auto simp: robot_ips_to_id_def foldl_upd_lookup split: if_splits)
qed (simp add: robot_ips_to_id_def)

lemma make_env_simps [simp]:
  "te_lb (make_env lb priv f ns ss) = lb" "te_use_private (make_env lb priv f ns ss) = priv"
  "te_nodes (make_env lb priv f ns ss) = ns" "te_id_to_ips (make_env lb priv f ns ss) = robot_id_to_ips f ss"
  "te_ip_to_id (make_env lb priv f ns ss) = robot_ips_to_id f ss"
  by (simp_all add: make_env_def)

lemma make_env_maps_agree: "distinct (map rs_number ss) \<Longrightarrow> maps_agree (make_env lb priv f ns ss)"
  by (auto simp: maps_agree_def robot_id_to_ips_lookup dest!: robot_ips_to_id_lookup)

definition nodes_read :: "node list \<Rightarrow> bool \<Rightarrow> int set" where
  "nodes_read nodes cloud = {i. \<exists>n \<in> set nodes. ToServerID (nd_provider_id n) = Inr (i, cloud)}"

lemma nodes_read_simps [simp]:
  "nodes_read [] c = {}"
  "nodes_read (ns @ [n]) c = (case ToServerID (nd_provider_id n) of Inr (i, c') \<Rightarrow>
      if c' = c then insert i (nodes_read ns c) else nodes_read ns c | Inl e \<Rightarrow> nodes_read ns c)"
  by (auto simp: nodes_read_def split: sum.split prod.split)

lemma set_add_key [simp]: "set (add_key k ks) = insert k (set ks)"
  by (auto simp: add_key_def)

lemma node_loop:
  "valid (range_loop node_body nodes no_nodes) (\<lambda>cs r. (\<forall>c \<in> set cs. \<exists>o1. c = Event ''UnknownProviderIDPrefix'' o1) \<and>
     (case r of Inl (ch, err) \<Rightarrow> err \<noteq> None
      | Inr ns \<Rightarrow> set (ns_hcloud ns) = nodes_read nodes True \<and> set (ns_robot ns) = nodes_read nodes False))"
  (is "valid _ (\<lambda>cs r. ?ev cs \<and> _ r)")
proof (rule valid_mono [OF valid_range_loop [where E = "\<lambda>cs (ch, err). ?ev cs \<and> err \<noteq> None" and
    I = "\<lambda>seen cs ns. ?ev cs \<and> set (ns_hcloud ns) = nodes_read seen True \<and> set (ns_robot ns) = nodes_read seen False"]])
  fix n and ns :: node_sets and cs seen rest
  assume "?ev cs \<and> set (ns_hcloud ns) = nodes_read seen True \<and> set (ns_robot ns) = nodes_read seen False"
  then show "valid (node_body n ns) (\<lambda>cs' r. case r of Inl res \<Rightarrow> (case res of (ch, err) \<Rightarrow> ?ev (cs @ cs') \<and> err \<noteq> None)
      | Inr ns' \<Rightarrow> ?ev (cs @ cs') \<and> set (ns_hcloud ns') = nodes_read (seen @ [n]) True
          \<and> set (ns_robot ns') = nodes_read (seen @ [n]) False)"
    by (auto simp: node_body_def record_event_def add_node_def split: sum.split prod.split intro!: valid_rules)
qed (auto simp: no_nodes_def split: sum.splits)

section \<open>ReconcileHCLBTargets\<close>

text \<open>The targets that a service's nodes and the dedicated servers call for.\<close>

definition desired_targets :: "bool \<Rightarrow> family \<Rightarrow> node list \<Rightarrow> robot_server list \<Rightarrow> atarget set" where
  "desired_targets priv f nodes ss =
     {ASrv i priv |i. i \<in> nodes_read nodes True} \<union>
     {AIP (ParseIP x) |s x. s \<in> set ss \<and> rs_number s \<in> nodes_read nodes False \<and>
        x \<in> set (robotTargetIPs f s) \<and> ParseIP x \<noteq> []}"

lemma wanted_by_make_env:
  assumes "distinct (map rs_number ss)"
    and "set (ns_hcloud ns) = nodes_read nodes True" and "set (ns_robot ns) = nodes_read nodes False"
  shows "wanted_by_env (make_env lb priv f ns ss) = desired_targets priv f nodes ss"
proof -
  have "x \<in> set (robot_id_to_ips f ss i) \<longleftrightarrow> (\<exists>s \<in> set ss. rs_number s = i \<and> x \<in> set (robotTargetIPs f s))" for i x
  proof (cases "i \<in> rs_number ` set ss")
    case True
    then obtain s where s: "s \<in> set ss" "rs_number s = i" by auto
    have "s' = s" if "s' \<in> set ss" "rs_number s' = i" for s'
      using assms(1) s that unfolding distinct_map by (metis inj_onD)
    with s show ?thesis using robot_id_to_ips_lookup [OF assms(1) s(1), of f] by metis
  qed (auto simp: robot_id_to_ips_absent)
  note iff = this
  show ?thesis unfolding wanted_by_env_def desired_targets_def make_env_simps assms(2,3) iff by blast
qed

fun robot_answer :: "api_call list \<Rightarrow> robot_server list" where
  "robot_answer [] = []"
| "robot_answer (RobotList (Inr ss) # cs) = ss"
| "robot_answer (c # cs) = robot_answer cs"

text \<open>The dedicated servers the run was told about: none without a Robot client.\<close>

definition listed_servers :: "'w lb_ops \<Rightarrow> api_call list \<Rightarrow> robot_server list" where
  "listed_servers L cs = (if l_has_robot L then robot_answer cs else [])"

lemma robot_answer_events: "\<forall>c \<in> set cs. \<exists>o1. c = Event r o1 \<Longrightarrow> robot_answer (cs @ ds) = robot_answer ds"
  by (induction cs) auto

lemma valid_robot_servers:
  assumes "\<And>ss cs. (if l_has_robot L then cs = [RobotList (Inr ss)] else cs = [] \<and> ss = []) \<Longrightarrow> Q cs (Inr ss)"
    and "\<And>cs e e'. \<forall>c \<in> set cs. (\<exists>t. c = Now t) \<or> c = Event ''RobotRateLimitExceeded'' (svc_name svc) \<Longrightarrow>
      Q (RobotList (Inl e) # cs) (Inl e')"
  shows "valid (robot_servers L svc) Q"
  unfolding robot_servers_def robot_list_def
  by (auto intro!: valid_rules valid_HandleRateLimitExceededError assms split: sum.split) blast

lemma no_changes_events: "\<forall>c \<in> set cs. \<exists>o1. c = Event r o1 \<Longrightarrow> changes cs = []"
  by (induction cs) auto

lemma clean_events: "\<forall>c \<in> set cs. \<exists>o1. c = Event ''UnknownProviderIDPrefix'' o1 \<Longrightarrow> clean cs"
  by (auto simp: clean_def)

text \<open>The environment a run of \<open>ReconcileHCLBTargets\<close> works in, up to the order of the nodes.\<close>

definition run_env :: "'w lb_ops \<Rightarrow> load_balancer \<Rightarrow> service \<Rightarrow> node list \<Rightarrow> api_call list \<Rightarrow> target_env \<Rightarrow> bool" where
  "run_env L lb svc nodes cs E \<longleftrightarrow> (\<exists>priv f ns. getUsePrivateIP L svc = Inr priv \<and>
     getRobotTargetFamily L svc = Inr f \<and> set (ns_hcloud ns) = nodes_read nodes True \<and>
     set (ns_robot ns) = nodes_read nodes False \<and> E = make_env lb priv f ns (listed_servers L cs))"

text \<open>Every run either stops before any change, or is a run of the three loops.\<close>

lemma ReconcileHCLBTargets_cases:
  assumes sync: "\<And>E ev. run_env L lb svc nodes ev E \<Longrightarrow> reads_only ev \<Longrightarrow> (\<And>ds. listed_servers L (ev @ ds) = listed_servers L ev) \<Longrightarrow>
      te_lb E = lb \<Longrightarrow> valid (sync_targets L svc E) (\<lambda>cs res. Q (ev @ cs) res)"
    and stop: "\<And>cs ch e. reads_only cs \<Longrightarrow> Q cs (ch, Some e)"
  shows "valid (ReconcileHCLBTargets L lb svc nodes) Q"
proof (cases "getRobotTargetFamily L svc")
  case (Inl e)
  then show ?thesis by (simp add: ReconcileHCLBTargets_def valid_return stop reads_only_def)
next
  case f: (Inr f)
  show ?thesis
  proof (cases "getUsePrivateIP L svc")
    case (Inl e)
    then show ?thesis using f by (simp add: ReconcileHCLBTargets_def valid_return stop reads_only_def)
  next
    case priv: (Inr priv)
    have "valid (do { r \<leftarrow> range_loop node_body nodes no_nodes;
            case r of Inl res \<Rightarrow> ret res
            | Inr ns \<Rightarrow> do { r \<leftarrow> robot_servers L svc;
                case r of Inl e \<Rightarrow> ret (False, Some e)
                | Inr ss \<Rightarrow> sync_targets L svc (make_env lb priv f ns ss) } }) Q"
    proof (rule valid_bind, rule valid_mono [OF node_loop], goal_cases)
      case (1 ev r)
      then have ev: "\<forall>c \<in> set ev. \<exists>o1. c = Event ''UnknownProviderIDPrefix'' o1" by simp
      then have ev_reads: "reads_only ev" by (auto simp: reads_only_def)
      show ?case
      proof (cases r)
        case (Inl res)
        then show ?thesis using 1 ev_reads by (auto intro!: valid_return stop)
      next
        case (Inr ns)
        show ?thesis
          unfolding Inr sum.case
        proof (rule valid_bind, rule valid_robot_servers)
          fix ss cs
          assume cs: "if l_has_robot L then cs = [RobotList (Inr ss)] else cs = [] \<and> ss = []"
          then have ls: "listed_servers L (ev @ cs @ ds) = ss" "listed_servers L (ev @ cs) = ss" for ds
            using robot_answer_events [OF ev] by (simp_all add: listed_servers_def split: if_splits)
          have "run_env L lb svc nodes (ev @ cs) (make_env lb priv f ns ss)"
            unfolding run_env_def using f priv 1 Inr ls(2) by auto
          moreover have "reads_only (ev @ cs)" using ev_reads cs by (auto simp: reads_only_def split: if_splits)
          ultimately have "valid (sync_targets L svc (make_env lb priv f ns ss)) (\<lambda>cs'. Q ((ev @ cs) @ cs'))"
            by (rule sync) (simp_all add: ls)
          then show "valid (case Inr ss of Inl e \<Rightarrow> ret (False, Some e) | Inr ss \<Rightarrow> sync_targets L svc (make_env lb priv f ns ss))
             (\<lambda>cs'. Q (ev @ cs @ cs'))" by simp
        next
          fix cs e e'
          assume "\<forall>c \<in> set cs. (\<exists>t. c = Now t) \<or> c = Event ''RobotRateLimitExceeded'' (svc_name svc)"
          then have "reads_only (ev @ RobotList (Inl e) # cs)"
            using ev_reads by (auto simp: reads_only_def)
          then show "valid (case Inl e' of Inl e \<Rightarrow> ret (False, Some e) | Inr ss \<Rightarrow> sync_targets L svc (make_env lb priv f ns ss))
             (\<lambda>cs'. Q (ev @ (RobotList (Inl e) # cs) @ cs'))" by (auto intro!: valid_return stop)
        qed
      qed
    qed
    then show ?thesis using f priv by (simp add: ReconcileHCLBTargets_def valid_return reads_only_def stop)
  qed
qed

lemma targets_converge_valid:
  assumes "distinct_targets lb" and "ip_targets_parse lb"
  shows "valid (ReconcileHCLBTargets L lb svc nodes) (\<lambda>cs (ch, err). err = None \<and> clean cs \<and>
      distinct (map rs_number (listed_servers L cs)) \<longrightarrow>
    (\<exists>priv f. getUsePrivateIP L svc = Inr priv \<and> getRobotTargetFamily L svc = Inr f \<and>
      apply_requests (changes cs) (abs_targets lb) =
        desired_targets priv f nodes (listed_servers L cs) \<union> (abs_targets lb \<inter> {AOther})))"
proof (rule ReconcileHCLBTargets_cases)
  fix E ev
  assume ev: "run_env L lb svc nodes ev E" "reads_only ev" "te_lb E = lb"
    and ls: "\<And>ds. listed_servers L (ev @ ds) = listed_servers L ev"
  then obtain priv f ns where E: "getUsePrivateIP L svc = Inr priv" "getRobotTargetFamily L svc = Inr f"
    "set (ns_hcloud ns) = nodes_read nodes True" "set (ns_robot ns) = nodes_read nodes False"
    "E = make_env lb priv f ns (listed_servers L ev)"
    by (auto simp: run_env_def)
  have "changes ev = []" using ev(2) by (auto simp: reads_only_def intro: changes_no_write)
  with E ls show "valid (sync_targets L svc E) (\<lambda>cs (ch, err). err = None \<and> clean (ev @ cs) \<and>
      distinct (map rs_number (listed_servers L (ev @ cs))) \<longrightarrow>
    (\<exists>priv f. getUsePrivateIP L svc = Inr priv \<and> getRobotTargetFamily L svc = Inr f \<and>
      apply_requests (changes (ev @ cs)) (abs_targets lb) =
        desired_targets priv f nodes (listed_servers L (ev @ cs)) \<union> (abs_targets lb \<inter> {AOther})))"
    using sync_targets_converges [of E L svc] assms ev(3)
    by (auto elim!: valid_mono simp: make_env_maps_agree wanted_by_make_env)
qed auto

text \<open>C1: Convergence of the targets. When \<open>ReconcileHCLBTargets\<close> reports no error, no request was
  refused and the target limit was not hit, then the changes it made turn the load balancer's
  targets into exactly the wanted ones: the cloud nodes with the wanted private flag and the
  addresses of the dedicated nodes, plus targets of foreign kinds, which stay untouched.\<close>

theorem targets_converge:
  assumes "distinct_targets lb" and "ip_targets_parse lb"
    and "runs (ReconcileHCLBTargets L lb svc nodes) cs (ch, None)"
    and "clean cs" and "distinct (map rs_number (listed_servers L cs))"
  shows "\<exists>priv f. getUsePrivateIP L svc = Inr priv \<and> getRobotTargetFamily L svc = Inr f \<and>
    apply_requests (changes cs) (abs_targets lb) =
      desired_targets priv f nodes (listed_servers L cs) \<union> (abs_targets lb \<inter> {AOther})"
  using valid_runs [OF targets_converge_valid [OF assms(1,2)] assms(3)] assms(4,5) by simp

lemma target_run_facts:
  "fst target_run = (True, None) \<and> clean (snd target_run) \<and> robot_answer (snd target_run) = [sample_robot]"
proof -
  have "case target_run of (a, cs) \<Rightarrow> a = (True, None) \<and> list_all (\<lambda>c. \<not> refused c \<and> \<not> limit_hit c) cs \<and>
      robot_answer cs = [sample_robot]"
    by code_simp
  then show ?thesis by (simp add: case_prod_unfold clean_def list_all_iff)
qed

lemma target_run_runs:
  "runs (ReconcileHCLBTargets (ops_on robot_api) sample_target_lb (annotated []) sample_nodes) (snd target_run) (True, None)"
  unfolding target_run_def by (rule runs_outcome) (use target_run_facts in \<open>simp add: target_run_def\<close>)

theorem targets_converge_witness:
  "\<exists>priv f. apply_requests (changes (snd target_run)) (abs_targets sample_target_lb) =
      desired_targets priv f sample_nodes [sample_robot] \<union> (abs_targets sample_target_lb \<inter> {AOther})"
proof -
  have lb: "distinct_targets sample_target_lb" "ip_targets_parse sample_target_lb"
    unfolding distinct_targets_def ip_targets_parse_def sample_target_lb_def by (simp_all, code_simp)
  have "listed_servers (ops_on robot_api) (snd target_run) = [sample_robot]"
    using target_run_facts by (simp add: listed_servers_def ops_on_def)
  with targets_converge [OF lb target_run_runs] target_run_facts show ?thesis by auto
qed

end
