(* ===== verification/LBTargetsSafety.thy ===== *)
theory LBTargetsSafety
  imports LBTargetsCorrect
begin

text \<open>
  What \<open>ReconcileHCLBTargets\<close> never does, on any run, failed ones included: it only sends
  changes that the nodes call for, it never lets the load balancer exceed the number of targets
  of its type, and it sends nothing when the targets are already right.
\<close>

section \<open>The number of targets along a log\<close>

fun delta :: "lb_request \<Rightarrow> int" where
  "delta (AddServerTarget l i p) = 1"
| "delta (AddIPTarget l x) = 1"
| "delta (RemoveServerTarget l i) = - 1"
| "delta (RemoveIPTarget l x) = - 1"
| "delta q = 0"

definition net_count :: "load_balancer \<Rightarrow> lb_request list \<Rightarrow> int" where
  "net_count lb qs = int (length (lb_targets lb)) + sum_list (map delta qs)"

lemma net_count_simps [simp]:
  "net_count lb [] = int (length (lb_targets lb))"
  "net_count lb (qs @ [q]) = net_count lb qs + delta q"
  by (simp_all add: net_count_def)

text \<open>At every point of a run the number of targets stays within the type's limit, or within
  the number the load balancer had before.\<close>

definition within_limit :: "load_balancer \<Rightarrow> lb_request list \<Rightarrow> bool" where
  "within_limit lb qs \<longleftrightarrow> (\<forall>t ps. lb_type lb = Some t \<longrightarrow> prefix ps qs \<longrightarrow>
     net_count lb ps \<le> max (int (length (lb_targets lb))) (maxNumber t))"

lemma within_limit_Nil [simp]: "within_limit lb []"
  by (simp add: within_limit_def)

lemma within_limit_snoc:
  "within_limit lb (qs @ [q]) \<longleftrightarrow> within_limit lb qs \<and>
     (\<forall>t. lb_type lb = Some t \<longrightarrow> net_count lb (qs @ [q]) \<le> max (int (length (lb_targets lb))) (maxNumber t))"
  by (auto simp: within_limit_def prefix_snoc)

lemma within_limit_now: "within_limit lb qs \<Longrightarrow> lb_type lb = Some t \<Longrightarrow>
   net_count lb qs \<le> max (int (length (lb_targets lb))) (maxNumber t)"
  by (simp add: within_limit_def)

lemma within_limit_remove: "within_limit lb qs \<Longrightarrow> delta q \<le> 0 \<Longrightarrow> within_limit lb (qs @ [q])"
  using within_limit_now [of lb qs] by (fastforce simp: within_limit_snoc)

lemma within_limit_add:
  "within_limit lb qs \<Longrightarrow> \<not> limit_reached lb (net_count lb qs) \<Longrightarrow> delta q \<le> 1 \<Longrightarrow> within_limit lb (qs @ [q])"
  by (fastforce simp: within_limit_snoc limit_reached_def maxTargetsReached_def)

section \<open>Justified changes\<close>

fun justified :: "target_env \<Rightarrow> lb_request \<Rightarrow> bool" where
  "justified E (RemoveServerTarget l i) \<longleftrightarrow> l = lb_id (te_lb E) \<and>
     (\<exists>p. ServerTarget i p \<in> set (lb_targets (te_lb E)) \<and> (i \<notin> set (ns_hcloud (te_nodes E)) \<or> p \<noteq> te_use_private E))"
| "justified E (AddServerTarget l i p) \<longleftrightarrow> l = lb_id (te_lb E) \<and>
     i \<in> set (ns_hcloud (te_nodes E)) \<and> p = te_use_private E"
| "justified E (RemoveIPTarget l a) \<longleftrightarrow> l = lb_id (te_lb E) \<and>
     (\<exists>x. IPTarget x \<in> set (lb_targets (te_lb E)) \<and> a = ParseIP x \<and> \<not> keep_target E (IPTarget x))"
| "justified E (AddIPTarget l a) \<longleftrightarrow> l = lb_id (te_lb E) \<and>
     (\<exists>i x. i \<in> set (ns_robot (te_nodes E)) \<and> x \<in> set (te_id_to_ips E i) \<and> a = ParseIP x \<and> a \<noteq> [])"
| "justified E q \<longleftrightarrow> False"

definition accounted :: "target_env \<Rightarrow> api_call list \<Rightarrow> target_state \<Rightarrow> bool" where
  "accounted E cs st \<longleftrightarrow> only_requests (justified E) cs \<and> within_limit (te_lb E) (changes cs) \<and>
     ts_count st = net_count (te_lb E) (changes cs) \<and> (ts_changed st \<longleftrightarrow> changes cs \<noteq> [])"

definition refused_resource :: "'w api \<Rightarrow> api_call list \<Rightarrow> bool" where
  "refused_resource A cs \<longleftrightarrow>
     (\<exists>q e. LbDo q (Inl e) \<in> set cs \<and> a_is_error A e ErrorCodeResourceLimitExceeded)"

definition accounted_result :: "'w api \<Rightarrow> target_env \<Rightarrow> api_call list \<Rightarrow> bool \<times> goerr option \<Rightarrow> bool" where
  "accounted_result A E cs res \<longleftrightarrow> only_requests (justified E) cs \<and> within_limit (te_lb E) (changes cs) \<and>
     (snd res = None \<longrightarrow> fst res = (changes cs \<noteq> []) \<or> \<not> fst res \<and> refused_resource A cs)"

lemma accounted_frame:
  "accounted E cs st \<Longrightarrow> accounted E cs (st\<lparr>ts_ids := a\<rparr>)" "accounted E cs st \<Longrightarrow> accounted E cs (st\<lparr>ts_ips := b\<rparr>)"
  by (simp_all add: accounted_def)

lemma accounted_noop:
  "accounted E cs st \<Longrightarrow> \<forall>c \<in> set cs'. \<not> is_write c \<Longrightarrow> accounted E (cs @ cs') st"
  by (simp add: accounted_def changes_no_write only_requests_no_write)

lemma accounted_change:
  assumes "accounted E cs st" and "justified E q"
    and "delta q \<le> 0 \<or> delta q \<le> 1 \<and> \<not> limit_reached (te_lb E) (ts_count st)"
    and "ts_changed st'" and "ts_count st' = ts_count st + delta q"
  shows "accounted E (cs @ [LbDo q (Inr a), Watch a None]) st'"
  using assms within_limit_remove [of "te_lb E" "changes cs" q] within_limit_add [of "te_lb E" "changes cs" q]
  by (auto simp: accounted_def)

lemma accounted_failed:
  assumes "accounted E cs st" and "justified E q"
    and "delta q \<le> 0 \<or> delta q \<le> 1 \<and> \<not> limit_reached (te_lb E) (ts_count st)"
  shows "accounted_result A E (cs @ [LbDo q (Inl e)]) (ch, Some e')"
    and "accounted_result A E (cs @ [LbDo q (Inr a), Watch a w]) (ch, Some e')"
    and "a_is_error A e ErrorCodeResourceLimitExceeded \<Longrightarrow> accounted_result A E (cs @ [LbDo q (Inl e)]) (False, None)"
  using assms within_limit_remove [of "te_lb E" "changes cs" q] within_limit_add [of "te_lb E" "changes cs" q]
  by (auto simp: accounted_def accounted_result_def refused_resource_def)

lemma accounted_remove_target:
  assumes "accounted E cs st" and "justified E q" and "delta q = -1"
  shows "valid (remove_target L op q st) (\<lambda>cs' r. case r of Inl res \<Rightarrow> accounted_result A E (cs @ cs') res
    | Inr st' \<Rightarrow> accounted E (cs @ cs') st')"
  unfolding remove_target_def
  by (intro valid_rules valid_do_and_watch)
    (use assms accounted_failed [OF assms(1,2)] accounted_change [OF assms(1,2)] in \<open>auto intro!: valid_rules\<close>)

lemma accounted_add_target:
  assumes "accounted E cs st" and "justified E q" and "delta q = 1" and "\<not> limit_reached (te_lb E) (ts_count st)"
  shows "valid (add_target L op q st) (\<lambda>cs' r. case r of Inl res \<Rightarrow> accounted_result (l_api L) E (cs @ cs') res
    | Inr st' \<Rightarrow> accounted E (cs @ cs') st')"
  unfolding add_target_def request_defs
  by (intro valid_rules)
    (use assms accounted_failed [OF assms(1,2)] accounted_change [OF assms(1,2)] in
      \<open>auto intro!: valid_rules split: sum.splits option.splits\<close>)

lemma accounted_removal_loop:
  assumes "accounted E cs0 st0"
  shows "valid (range_loop (remove_body L E) (lb_targets (te_lb E)) st0)
    (\<lambda>cs r. case r of Inl res \<Rightarrow> accounted_result A E (cs0 @ cs) res | Inr st \<Rightarrow> accounted E (cs0 @ cs) st)"
proof (rule valid_range_loop [where I = "\<lambda>seen cs st. accounted E (cs0 @ cs) st"
      and E = "\<lambda>cs res. accounted_result A E (cs0 @ cs) res"])
  fix t st cs seen rest
  assume split: "lb_targets (te_lb E) = seen @ t # rest" and acc: "accounted E (cs0 @ cs) st"
  show "valid (remove_body L E t st) (\<lambda>cs' r. case r of Inl res \<Rightarrow> accounted_result A E (cs0 @ cs @ cs') res
      | Inr st' \<Rightarrow> accounted E (cs0 @ cs @ cs') st')"
  proof (cases "keep_target E t")
    case True
    then show ?thesis
      unfolding remove_body_keep [OF True]
      by (intro valid_rules) (use acc in \<open>auto intro: accounted_frame split: lb_target.split\<close>)
  next
    case False
    then have "t \<noteq> OtherTarget" and t: "t \<in> set (lb_targets (te_lb E))" using split by auto
    then show ?thesis
    proof (cases t)
      case (ServerTarget i p)
      then have "justified E (RemoveServerTarget (lb_id (te_lb E)) i)" using False t by auto
      then show ?thesis using False ServerTarget
          accounted_remove_target [OF accounted_frame(1) [OF acc], of "RemoveServerTarget (lb_id (te_lb E)) i"]
        by (simp add: Let_def del: keep_target.simps)
    next
      case (IPTarget x)
      then have "justified E (RemoveIPTarget (lb_id (te_lb E)) (ParseIP x))" using False t by (auto simp del: keep_target.simps)
      then show ?thesis using False IPTarget
          accounted_remove_target [OF accounted_frame(2) [OF acc], of "RemoveIPTarget (lb_id (te_lb E)) (ParseIP x)"]
        by (simp add: Let_def del: keep_target.simps)
    qed simp
  qed
qed (use assms in simp)

lemma accounted_server_loop:
  assumes "accounted E cs0 st0" and "set ks \<subseteq> set (ns_hcloud (te_nodes E))"
  shows "valid (range_loop (add_server_body L obj E) ks st0)
    (\<lambda>cs r. case r of Inl res \<Rightarrow> accounted_result (l_api L) E (cs0 @ cs) res | Inr st \<Rightarrow> accounted E (cs0 @ cs) st)"
proof (rule valid_range_loop [where I = "\<lambda>seen cs st. accounted E (cs0 @ cs) st"
      and E = "\<lambda>cs res. accounted_result (l_api L) E (cs0 @ cs) res"])
  fix i st cs seen rest
  assume "ks = seen @ i # rest" and acc: "accounted E (cs0 @ cs) st"
  with assms(2) have "justified E (AddServerTarget (lb_id (te_lb E)) i (te_use_private E))" by auto
  with acc show "valid (add_server_body L obj E i st) (\<lambda>cs' r. case r of Inl res \<Rightarrow> accounted_result (l_api L) E (cs0 @ cs @ cs') res
      | Inr st' \<Rightarrow> accounted E (cs0 @ cs @ cs') st')"
    using accounted_noop [OF acc]
    by (auto simp: add_server_body_def limit_event_def record_event_def
        intro!: valid_rules accounted_add_target [OF acc, unfolded append_assoc])
qed (use assms in simp)

lemma accounted_ip_loop:
  assumes "accounted E cs0 st0" and "i \<in> set (ns_robot (te_nodes E))"
  shows "valid (range_loop (add_ip_body L obj E i) (te_id_to_ips E i) st0)
    (\<lambda>cs r. case r of Inl res \<Rightarrow> accounted_result (l_api L) E (cs0 @ cs) res | Inr st \<Rightarrow> accounted E (cs0 @ cs) st)"
proof (rule valid_range_loop [where I = "\<lambda>seen cs st. accounted E (cs0 @ cs) st"
      and E = "\<lambda>cs res. accounted_result (l_api L) E (cs0 @ cs) res"])
  fix x st cs seen rest
  assume "te_id_to_ips E i = seen @ x # rest" and acc: "accounted E (cs0 @ cs) st"
  then have "justified E (AddIPTarget (lb_id (te_lb E)) (ParseIP x))" if "ParseIP x \<noteq> []"
    using assms(2) that by (metis in_set_conv_decomp justified.simps(4))
  then show "valid (add_ip_body L obj E i x st) (\<lambda>cs' r. case r of Inl res \<Rightarrow> accounted_result (l_api L) E (cs0 @ cs @ cs') res
      | Inr st' \<Rightarrow> accounted E (cs0 @ cs @ cs') st')"
    using accounted_noop [OF acc] acc
    by (auto simp: add_ip_body_def limit_event_def record_event_def
        intro!: valid_rules accounted_add_target [OF acc, unfolded append_assoc])
qed (use assms in simp)

lemma accounted_robot_loop:
  assumes "accounted E cs0 st0" and "set ks \<subseteq> set (ns_robot (te_nodes E))"
  shows "valid (range_loop (add_robot_body L obj E) ks st0)
    (\<lambda>cs r. case r of Inl res \<Rightarrow> accounted_result (l_api L) E (cs0 @ cs) res | Inr st \<Rightarrow> accounted E (cs0 @ cs) st)"
proof (rule valid_range_loop [where I = "\<lambda>seen cs st. accounted E (cs0 @ cs) st"
      and E = "\<lambda>cs res. accounted_result (l_api L) E (cs0 @ cs) res"])
  fix i and st :: target_state and cs seen rest
  assume "ks = seen @ i # rest" and acc: "accounted E (cs0 @ cs) st"
  with assms(2) have "i \<in> set (ns_robot (te_nodes E))" by auto
  from accounted_ip_loop [OF acc this]
  show "valid (add_robot_body L obj E i st) (\<lambda>cs' r. case r of Inl res \<Rightarrow> accounted_result (l_api L) E (cs0 @ cs @ cs') res
      | Inr st' \<Rightarrow> accounted E (cs0 @ cs @ cs') st')"
    unfolding add_robot_body_def append_assoc .
qed (use assms in simp)

lemma accounted_done: "accounted E cs st \<Longrightarrow> accounted_result A E cs (ts_changed st, None)"
  by (simp add: accounted_def accounted_result_def)

lemma accounted_sync:
  "valid (sync_targets L svc E) (accounted_result (l_api L) E)"
proof -
  have init: "accounted E [] (init_state (te_lb E))" by (simp add: accounted_def init_state_def)
  show ?thesis
    unfolding sync_targets_def
  proof (rule valid_bind, rule valid_mono [OF accounted_removal_loop [OF init, where A = "l_api L"]], goal_cases)
    case (1 cs1 r)
    show ?case
    proof (cases r)
      case (Inr st1)
      with 1 have acc: "accounted E cs1 st1" by simp
      show ?thesis
        unfolding Inr sum.case
      proof (rule valid_bind, rule valid_mono [OF accounted_server_loop [OF acc eq_refl [OF set_map_order]]], goal_cases)
        case (1 cs2 r2)
        show ?case
        proof (cases r2)
          case (Inr st2)
          with 1 have acc: "accounted E (cs1 @ cs2) st2" by simp
          show ?thesis
            unfolding Inr sum.case
            by (rule valid_bind, rule valid_mono [OF accounted_robot_loop [OF acc eq_refl [OF set_map_order]]])
              (auto intro!: valid_return accounted_done split: sum.splits)
        qed (use 1 in \<open>auto intro!: valid_return\<close>)
      qed
    qed (use 1 in \<open>auto intro!: valid_return\<close>)
  qed
qed

section \<open>The properties of ReconcileHCLBTargets\<close>

text \<open>C8: On every run, failed ones included, \<open>ReconcileHCLBTargets\<close> writes nothing but
  justified changes: it removes server targets only when the server is no node of the cluster or
  has the wrong private flag, and IP targets only when no dedicated node has the address; it adds
  only nodes of the cluster. At no point the number of targets exceeds the limit of the load
  balancer's type (or the number it started with). When it reports success, the changed flag
  says whether a change was made, except after a refusal for a resource limit.\<close>

theorem targets_changes_justified:
  assumes "runs (ReconcileHCLBTargets L lb svc nodes) cs (ch, err)"
  shows "reads_only cs \<and> err \<noteq> None \<or>
    (\<exists>E. run_env L lb svc nodes cs E \<and> only_requests (justified E) cs \<and> within_limit lb (changes cs) \<and>
      (err = None \<longrightarrow> ch = (changes cs \<noteq> []) \<or> \<not> ch \<and> refused_resource (l_api L) cs))"
proof -
  have "valid (ReconcileHCLBTargets L lb svc nodes) (\<lambda>cs (ch, err). reads_only cs \<and> err \<noteq> None \<or>
    (\<exists>E. run_env L lb svc nodes cs E \<and> te_lb E = lb \<and> accounted_result (l_api L) E cs (ch, err)))"
  proof (rule ReconcileHCLBTargets_cases)
    fix E ev
    assume E: "run_env L lb svc nodes ev E" "reads_only ev" "te_lb E = lb"
      and ls: "\<And>ds. listed_servers L (ev @ ds) = listed_servers L ev"
    have "run_env L lb svc nodes (ev @ cs) E" for cs using E(1) by (simp add: run_env_def ls)
    moreover have "accounted_result (l_api L) E (ev @ cs) res" if "accounted_result (l_api L) E cs res" for cs res
      using that E(2) changes_no_write [of ev]
      by (auto simp: accounted_result_def reads_only_def only_requests_no_write refused_resource_def)
    ultimately show "valid (sync_targets L svc E) (\<lambda>cs (ch, err). reads_only (ev @ cs) \<and> err \<noteq> None \<or>
      (\<exists>E. run_env L lb svc nodes (ev @ cs) E \<and> te_lb E = lb \<and> accounted_result (l_api L) E (ev @ cs) (ch, err)))"
      using E(3) by (intro valid_mono [OF accounted_sync]) blast
  qed simp
  from valid_runs [OF this assms] show ?thesis by (auto simp: accounted_result_def)
qed

theorem targets_changes_justified_witness:
  "\<exists>E. run_env (ops_on robot_api) sample_target_lb (annotated []) sample_nodes (snd target_run) E \<and>
     only_requests (justified E) (snd target_run) \<and> within_limit sample_target_lb (changes (snd target_run))"
  using targets_changes_justified [OF target_run_runs] by auto

section \<open>Nothing to do\<close>

text \<open>The load balancer already has the targets that the environment calls for.\<close>

definition in_sync :: "target_env \<Rightarrow> bool" where
  "in_sync E \<longleftrightarrow> (\<forall>t \<in> set (lb_targets (te_lb E)). keep_target E t) \<and>
     (\<forall>i \<in> set (ns_hcloud (te_nodes E)). \<exists>p. ServerTarget i p \<in> set (lb_targets (te_lb E))) \<and>
     (\<forall>i \<in> set (ns_robot (te_nodes E)). \<forall>x \<in> set (te_id_to_ips E i).
        ParseIP x = [] \<or> IPTarget x \<in> set (lb_targets (te_lb E)))"

lemma valid_range_loop_skip:
  "(\<And>x. x \<in> set xs \<Longrightarrow> f x s = ret (Inr s)) \<Longrightarrow> range_loop f xs s = ret (Inr s)"
  by (induction xs) simp_all

lemma in_sync_removal:
  assumes "in_sync E"
  shows "valid (range_loop (remove_body L E) (lb_targets (te_lb E)) (init_state (te_lb E)))
    (\<lambda>cs r. case r of Inl res \<Rightarrow> False
      | Inr st \<Rightarrow> cs = [] \<and> \<not> ts_changed st \<and> tracked E (lb_targets (te_lb E)) st)"
proof (rule valid_range_loop [where I = "\<lambda>seen cs st. cs = [] \<and> \<not> ts_changed st \<and> tracked E seen st"
      and E = "\<lambda>cs res. False"])
  fix t st and cs :: "api_call list" and seen rest
  assume "lb_targets (te_lb E) = seen @ t # rest" and I: "cs = [] \<and> \<not> ts_changed st \<and> tracked E seen st"
  then have keep: "keep_target E t" using assms by (simp add: in_sync_def)
  show "valid (remove_body L E t st) (\<lambda>cs' r. case r of Inl res \<Rightarrow> False
      | Inr st' \<Rightarrow> cs @ cs' = [] \<and> \<not> ts_changed st' \<and> tracked E (seen @ [t]) st')"
    unfolding remove_body_keep [OF keep]
    by (intro valid_rules) (use I tracked_skip [of E seen st t] keep in \<open>auto split: lb_target.splits\<close>)
qed (simp add: init_state_def tracked_def)

lemma in_sync_adds:
  assumes "in_sync E" and "tracked E (lb_targets (te_lb E)) st"
  shows "set ks \<subseteq> set (ns_hcloud (te_nodes E)) \<Longrightarrow> range_loop (add_server_body L obj E) ks st = ret (Inr st)"
    and "set ks' \<subseteq> set (ns_robot (te_nodes E)) \<Longrightarrow> range_loop (add_robot_body L obj E) ks' st = ret (Inr st)"
proof -
  have ids: "ts_ids st i" if i: "i \<in> set (ns_hcloud (te_nodes E))" for i
  proof -
    obtain p where p: "ServerTarget i p \<in> set (lb_targets (te_lb E))"
      using assms(1) i by (auto simp: in_sync_def)
    then have "keep_target E (ServerTarget i p)" using assms(1) by (simp add: in_sync_def del: keep_target.simps)
    with p show ?thesis using assms(2) by (auto simp: tracked_def simp del: keep_target.simps)
  qed
  have ips: "ts_ips st x" if "i \<in> set (ns_robot (te_nodes E))" "x \<in> set (te_id_to_ips E i)" "ParseIP x \<noteq> []" for i x
  proof -
    have x: "IPTarget x \<in> set (lb_targets (te_lb E))" using assms(1) that by (auto simp: in_sync_def)
    then have "keep_target E (IPTarget x)" using assms(1) unfolding in_sync_def by blast
    with x show ?thesis using assms(2) by (simp add: tracked_def del: keep_target.simps)
  qed
  show "set ks \<subseteq> set (ns_hcloud (te_nodes E)) \<Longrightarrow> range_loop (add_server_body L obj E) ks st = ret (Inr st)"
    by (rule valid_range_loop_skip) (auto simp: add_server_body_def ids)
  show "set ks' \<subseteq> set (ns_robot (te_nodes E)) \<Longrightarrow> range_loop (add_robot_body L obj E) ks' st = ret (Inr st)"
    by (rule valid_range_loop_skip, unfold add_robot_body_def, rule valid_range_loop_skip)
      (auto simp: add_ip_body_def ips)
qed

lemma in_sync_sync:
  assumes "in_sync E"
  shows "valid (sync_targets L svc E) (\<lambda>cs res. cs = [] \<and> res = (False, None))"
  unfolding sync_targets_def
  by (rule valid_bind, rule valid_mono [OF in_sync_removal [OF assms]])
    (auto simp: in_sync_adds [OF assms] intro!: valid_return split: sum.splits)

text \<open>Reconciling is idempotent: when the load balancer already has the targets that the nodes
  and the dedicated servers call for, \<open>ReconcileHCLBTargets\<close> changes nothing at the API and
  reports no change.\<close>

theorem targets_in_sync_noop:
  assumes "runs (ReconcileHCLBTargets L lb svc nodes) cs (ch, err)"
    and "\<And>E. run_env L lb svc nodes cs E \<Longrightarrow> in_sync E"
  shows "reads_only cs \<and> (err = None \<longrightarrow> \<not> ch)"
proof -
  have "valid (ReconcileHCLBTargets L lb svc nodes) (\<lambda>cs (ch, err).
    (\<forall>E. run_env L lb svc nodes cs E \<longrightarrow> in_sync E) \<longrightarrow> reads_only cs \<and> (err = None \<longrightarrow> \<not> ch))"
  proof (rule ReconcileHCLBTargets_cases)
    fix E ev
    assume E: "run_env L lb svc nodes ev E" "reads_only ev"
      and ls: "\<And>ds. listed_servers L (ev @ ds) = listed_servers L ev"
    have env: "run_env L lb svc nodes (ev @ cs) E" for cs using E(1) by (simp add: run_env_def ls)
    show "valid (sync_targets L svc E) (\<lambda>cs (ch, err). (\<forall>E. run_env L lb svc nodes (ev @ cs) E \<longrightarrow> in_sync E) \<longrightarrow>
      reads_only (ev @ cs) \<and> (err = None \<longrightarrow> \<not> ch))"
    proof (cases "in_sync E")
      case True
      then show ?thesis using E(2) by (intro valid_mono [OF in_sync_sync]) auto
    next
      case False
      then show ?thesis using env by (intro valid_mono [OF accounted_sync]) blast
    qed
  qed simp
  from valid_runs [OF this assms(1)] show ?thesis using assms(2) by auto
qed

definition synced_lb :: load_balancer where
  "synced_lb = sample_lb\<lparr>lb_targets := [ServerTarget 2 False, OtherTarget]\<rparr>"

theorem targets_in_sync_noop_witness:
  "\<exists>cs. runs (ReconcileHCLBTargets (ops_on quiet_api) synced_lb (annotated []) [node_of ''n2'' ''hcloud://2'']) cs (False, None)
     \<and> reads_only cs"
proof -
  let ?m = "ReconcileHCLBTargets (ops_on quiet_api) synced_lb (annotated []) [node_of ''n2'' ''hcloud://2'']"
  have run: "runs ?m (snd (outcome ?m sample_globals ())) (False, None)"
    by (rule runs_outcome) code_simp
  have id: "ToServerID ''hcloud://2'' = Inr (2, True)" by code_simp
  have priv: "getUsePrivateIP (ops_on quiet_api) (annotated []) = Inr False" by code_simp
  have sync: "run_env (ops_on quiet_api) synced_lb (annotated []) [node_of ''n2'' ''hcloud://2''] cs E \<Longrightarrow> in_sync E" for cs E
    by (auto simp: run_env_def in_sync_def nodes_read_def id priv synced_lb_def)
  show ?thesis
    by (intro exI conjI, rule run, rule conjunct1 [OF targets_in_sync_noop [OF run]], erule sync)
qed

end
