(* ===== verification/ServiceOptsCorrect.thy ===== *)
theory ServiceOptsCorrect
  imports ServiceOpts Samples
begin

text \<open>
  What the options builder computes, as a function of the annotations: the extraction steps
  are shown to be a composition of independent reads, and the options are compared with a
  specification that names for every field the annotation it comes from and its default.
\<close>

section \<open>Extraction as a composition of reads\<close>

text \<open>A typed annotation is well-formed when it is missing or can be read.\<close>

definition is_ok :: "goerr + 'a \<Rightarrow> bool" where
  "is_ok r \<longleftrightarrow> (case r of Inl e \<Rightarrow> errors_is e ErrNotSet | Inr v \<Rightarrow> True)"

definition opt :: "goerr + 'a \<Rightarrow> 'a option" where
  "opt r = (case r of Inl e \<Rightarrow> None | Inr v \<Rightarrow> Some v)"

lemma is_ok_simps [simp]: "is_ok (Inl e) = errors_is e ErrNotSet" "is_ok (Inr v)"
  by (simp_all add: is_ok_def)

lemma opt_simps [simp]: "opt (Inl e) = None" "opt (Inr v) = Some v"
  by (simp_all add: opt_def)

text \<open>One step of \<open>b.do\<close> whose function only reads annotations.\<close>

definition b_step :: "(builder \<Rightarrow> goerr + builder) \<Rightarrow> builder \<Rightarrow> builder" where
  "b_step f b = (if b_err b \<noteq> None then b
     else case f b of Inl e \<Rightarrow> b\<lparr>b_err := Some e\<rparr> | Inr b' \<Rightarrow> b'\<lparr>b_err := None\<rparr>)"

lemma b_do_pure: "b_do (\<lambda>b. ret (f b)) b = ret (b_step f b)"
  by (simp add: b_do_def b_step_def)

lemma b_do_annot_pure: "b_do_annot op get put b = ret (b_step (b_annot op get put) b)"
  by (simp add: b_do_annot_def b_do_pure)

definition opt_put :: "('a \<Rightarrow> builder \<Rightarrow> builder) \<Rightarrow> 'a option \<Rightarrow> builder \<Rightarrow> builder" where
  "opt_put put v b = (case v of None \<Rightarrow> b | Some x \<Rightarrow> put x b)"

text \<open>The effect of reading one annotation; \<open>put\<close> does not touch the error.\<close>

definition b_read :: "string \<Rightarrow> (service \<Rightarrow> goerr + 'a) \<Rightarrow> ('a \<Rightarrow> builder \<Rightarrow> builder) \<Rightarrow> builder \<Rightarrow> builder" where
  "b_read op get put b = b_step (b_annot op get put) b"

lemma b_do_sticky: "b_err b \<noteq> None \<Longrightarrow> b_do f b = ret b"
  by (simp add: b_do_def)

lemma b_do_annot_read: "b_do_annot op get put b = ret (b_read op get put b)"
  by (simp add: b_do_annot_def b_do_pure b_read_def)

lemma b_read_ok [simp]:
  "(\<And>x b. b_err (put x b) = b_err b) \<Longrightarrow>
   b_err (b_read op get put b) = None \<longleftrightarrow> b_err b = None \<and> is_ok (get (b_service b))"
  by (auto simp: b_read_def b_step_def b_annot_def split: sum.split if_splits)

lemma b_read_service [simp]:
  "(\<And>x b. b_service (put x b) = b_service b) \<Longrightarrow> b_service (b_read op get put b) = b_service b"
  by (auto simp: b_read_def b_step_def b_annot_def split: sum.split if_splits)

lemma b_read_value [simp]:
  assumes "\<And>x b. b_err (put x b) = b_err b" and "b_err b = None" and "is_ok (get (b_service b))"
  shows "b_read op get put b = opt_put put (opt (get (b_service b))) b"
proof -
  have id: "b'\<lparr>b_err := None\<rparr> = b'" if "b_err b' = None" for b' :: builder
    using that by (cases b') simp
  show ?thesis
    using assms by (auto simp: b_read_def b_step_def b_annot_def opt_put_def id split: sum.split)
qed

section \<open>The specification\<close>

definition spec_protocol :: "service \<Rightarrow> string" where
  "spec_protocol svc = (case opt (LBSvcProtocolFromService LBSvcProtocol svc) of Some q \<Rightarrow> q | None \<Rightarrow> ProtocolTCP)"

definition spec_hc_protocol :: "service \<Rightarrow> string" where
  "spec_hc_protocol svc = (case opt (LBSvcProtocolFromService LBSvcHealthCheckProtocol svc) of
     Some q \<Rightarrow> q | None \<Rightarrow> spec_protocol svc)"

text \<open>At least one of the annotations of a group is set.\<close>

definition any_http :: "service \<Rightarrow> bool" where
  "any_http svc \<longleftrightarrow> is_managed svc \<or> (\<exists>n \<in> {LBSvcHTTPCookieName, LBSvcHTTPCookieLifetime,
     LBSvcHTTPCertificates, LBSvcRedirectHTTP, LBSvcHTTPStickySessions}. StringFromService n svc \<noteq> None)"

definition any_health :: "service \<Rightarrow> bool" where
  "any_health svc \<longleftrightarrow> (\<exists>n \<in> {LBSvcHealthCheckProtocol, LBSvcHealthCheckPort, LBSvcHealthCheckInterval,
     LBSvcHealthCheckTimeout, LBSvcHealthCheckRetries}. StringFromService n svc \<noteq> None)"

definition spec_http :: "service \<Rightarrow> certificate list \<Rightarrow> http_opts option" where
  "spec_http svc certs = (if any_http svc
     then Some \<lparr>ho_cookie_name = StringFromService LBSvcHTTPCookieName svc,
            ho_cookie_lifetime = opt (DurationFromService LBSvcHTTPCookieLifetime svc),
            ho_certificates = certs,
            ho_redirect_http = opt (BoolFromService LBSvcRedirectHTTP svc),
            ho_sticky_sessions = opt (BoolFromService LBSvcHTTPStickySessions svc)\<rparr>
     else None)"

definition spec_health_http :: "service \<Rightarrow> health_http_opts option" where
  "spec_health_http svc = (if spec_hc_protocol svc = ProtocolTCP then None
     else Some \<lparr>hho_domain = StringFromService LBSvcHealthCheckHTTPDomain svc,
            hho_path = StringFromService LBSvcHealthCheckHTTPPath svc, hho_response = None,
            hho_status_codes = (case opt (StringsFromService LBSvcHealthCheckHTTPStatusCodes svc) of
              Some v \<Rightarrow> v | None \<Rightarrow> []),
            hho_tls = opt (BoolFromService LBSvcHealthCheckHTTPValidateCertificate svc)\<rparr>)"

definition spec_health :: "service \<Rightarrow> service_port \<Rightarrow> health_opts" where
  "spec_health svc p = (if any_health svc
     then \<lparr>heo_protocol = spec_hc_protocol svc,
            heo_port = Some (case opt (IntFromService LBSvcHealthCheckPort svc) of Some v \<Rightarrow> v | None \<Rightarrow> sp_node_port p),
            heo_interval = opt (DurationFromService LBSvcHealthCheckInterval svc),
            heo_timeout = opt (DurationFromService LBSvcHealthCheckTimeout svc),
            heo_retries = opt (IntFromService LBSvcHealthCheckRetries svc),
            heo_http = spec_health_http svc\<rparr>
     else \<lparr>heo_protocol = ProtocolTCP, heo_port = Some (sp_node_port p), heo_interval = None,
            heo_timeout = None, heo_retries = None, heo_http = None\<rparr>)"

definition spec_opts :: "bool \<Rightarrow> service \<Rightarrow> service_port \<Rightarrow> certificate list \<Rightarrow> service_opts" where
  "spec_opts add svc p certs =
     \<lparr>so_listen_port = (if add then Some (sp_port p) else None),
      so_destination_port = Some (sp_node_port p),
      so_protocol = spec_protocol svc,
      so_proxyprotocol = opt (BoolFromService LBSvcProxyProtocol svc),
      so_http = spec_http svc certs,
      so_health_check = Some (spec_health svc p)\<rparr>"

text \<open>The annotations that the extraction reads are well-formed. The two HTTP parts of the health
  check are only read when its protocol is not TCP.\<close>

definition annotations_ok :: "service \<Rightarrow> bool" where
  "annotations_ok svc \<longleftrightarrow> is_ok (BoolFromService LBSvcProxyProtocol svc) \<and>
     is_ok (LBSvcProtocolFromService LBSvcProtocol svc) \<and>
     is_ok (DurationFromService LBSvcHTTPCookieLifetime svc) \<and>
     is_ok (BoolFromService LBSvcRedirectHTTP svc) \<and>
     is_ok (BoolFromService LBSvcHTTPStickySessions svc) \<and>
     is_ok (LBSvcProtocolFromService LBSvcHealthCheckProtocol svc) \<and>
     is_ok (IntFromService LBSvcHealthCheckPort svc) \<and>
     is_ok (DurationFromService LBSvcHealthCheckInterval svc) \<and>
     is_ok (DurationFromService LBSvcHealthCheckTimeout svc) \<and>
     is_ok (IntFromService LBSvcHealthCheckRetries svc) \<and>
     (spec_hc_protocol svc \<noteq> ProtocolTCP \<longrightarrow>
        is_ok (BoolFromService LBSvcHealthCheckHTTPValidateCertificate svc) \<and>
        is_ok (StringsFromService LBSvcHealthCheckHTTPStatusCodes svc))"

section \<open>The fields after a read\<close>

lemma opt_put_frame [simp]:
  "(\<And>x. b_port (put x b) = b_port b) \<Longrightarrow> b_port (opt_put put v b) = b_port b"
  "(\<And>x. b_service (put x b) = b_service b) \<Longrightarrow> b_service (opt_put put v b) = b_service b"
  "(\<And>x. b_listen_port (put x b) = b_listen_port b) \<Longrightarrow> b_listen_port (opt_put put v b) = b_listen_port b"
  "(\<And>x. b_destination_port (put x b) = b_destination_port b) \<Longrightarrow> b_destination_port (opt_put put v b) = b_destination_port b"
  "(\<And>x. b_proxy_protocol (put x b) = b_proxy_protocol b) \<Longrightarrow> b_proxy_protocol (opt_put put v b) = b_proxy_protocol b"
  "(\<And>x. b_protocol (put x b) = b_protocol b) \<Longrightarrow> b_protocol (opt_put put v b) = b_protocol b"
  "(\<And>x. b_cookie_name (put x b) = b_cookie_name b) \<Longrightarrow> b_cookie_name (opt_put put v b) = b_cookie_name b"
  "(\<And>x. b_cookie_lifetime (put x b) = b_cookie_lifetime b) \<Longrightarrow> b_cookie_lifetime (opt_put put v b) = b_cookie_lifetime b"
  "(\<And>x. b_certificates (put x b) = b_certificates b) \<Longrightarrow> b_certificates (opt_put put v b) = b_certificates b"
  "(\<And>x. b_redirect_http (put x b) = b_redirect_http b) \<Longrightarrow> b_redirect_http (opt_put put v b) = b_redirect_http b"
  "(\<And>x. b_sticky_sessions (put x b) = b_sticky_sessions b) \<Longrightarrow> b_sticky_sessions (opt_put put v b) = b_sticky_sessions b"
  "(\<And>x. b_add_http (put x b) = b_add_http b) \<Longrightarrow> b_add_http (opt_put put v b) = b_add_http b"
  "(\<And>x. b_hc_protocol (put x b) = b_hc_protocol b) \<Longrightarrow> b_hc_protocol (opt_put put v b) = b_hc_protocol b"
  "(\<And>x. b_hc_port (put x b) = b_hc_port b) \<Longrightarrow> b_hc_port (opt_put put v b) = b_hc_port b"
  "(\<And>x. b_hc_interval (put x b) = b_hc_interval b) \<Longrightarrow> b_hc_interval (opt_put put v b) = b_hc_interval b"
  "(\<And>x. b_hc_timeout (put x b) = b_hc_timeout b) \<Longrightarrow> b_hc_timeout (opt_put put v b) = b_hc_timeout b"
  "(\<And>x. b_hc_retries (put x b) = b_hc_retries b) \<Longrightarrow> b_hc_retries (opt_put put v b) = b_hc_retries b"
  "(\<And>x. b_hc_domain (put x b) = b_hc_domain b) \<Longrightarrow> b_hc_domain (opt_put put v b) = b_hc_domain b"
  "(\<And>x. b_hc_path (put x b) = b_hc_path b) \<Longrightarrow> b_hc_path (opt_put put v b) = b_hc_path b"
  "(\<And>x. b_hc_response (put x b) = b_hc_response b) \<Longrightarrow> b_hc_response (opt_put put v b) = b_hc_response b"
  "(\<And>x. b_hc_status_codes (put x b) = b_hc_status_codes b) \<Longrightarrow> b_hc_status_codes (opt_put put v b) = b_hc_status_codes b"
  "(\<And>x. b_hc_tls (put x b) = b_hc_tls b) \<Longrightarrow> b_hc_tls (opt_put put v b) = b_hc_tls b"
  "(\<And>x. b_add_health_check (put x b) = b_add_health_check b) \<Longrightarrow> b_add_health_check (opt_put put v b) = b_add_health_check b"
  "(\<And>x. b_err (put x b) = b_err b) \<Longrightarrow> b_err (opt_put put v b) = b_err b"
  by (simp_all add: opt_put_def split: option.split)

text \<open>A field that a read stores.\<close>

lemma opt_put_stored [simp]:
  "(\<And>x. b_proxy_protocol (put1 x b) = Some x) \<Longrightarrow> b_proxy_protocol (opt_put put1 v1 b) = (case v1 of None \<Rightarrow> b_proxy_protocol b | Some x \<Rightarrow> Some x)"
  "(\<And>x. b_cookie_name (put2 x b) = Some x) \<Longrightarrow> b_cookie_name (opt_put put2 v2 b) = (case v2 of None \<Rightarrow> b_cookie_name b | Some x \<Rightarrow> Some x)"
  "(\<And>x. b_cookie_lifetime (put3 x b) = Some x) \<Longrightarrow> b_cookie_lifetime (opt_put put3 v3 b) = (case v3 of None \<Rightarrow> b_cookie_lifetime b | Some x \<Rightarrow> Some x)"
  "(\<And>x. b_redirect_http (put4 x b) = Some x) \<Longrightarrow> b_redirect_http (opt_put put4 v4 b) = (case v4 of None \<Rightarrow> b_redirect_http b | Some x \<Rightarrow> Some x)"
  "(\<And>x. b_sticky_sessions (put5 x b) = Some x) \<Longrightarrow> b_sticky_sessions (opt_put put5 v5 b) = (case v5 of None \<Rightarrow> b_sticky_sessions b | Some x \<Rightarrow> Some x)"
  "(\<And>x. b_hc_port (put6 x b) = Some x) \<Longrightarrow> b_hc_port (opt_put put6 v6 b) = (case v6 of None \<Rightarrow> b_hc_port b | Some x \<Rightarrow> Some x)"
  "(\<And>x. b_hc_interval (put7 x b) = Some x) \<Longrightarrow> b_hc_interval (opt_put put7 v7 b) = (case v7 of None \<Rightarrow> b_hc_interval b | Some x \<Rightarrow> Some x)"
  "(\<And>x. b_hc_timeout (put8 x b) = Some x) \<Longrightarrow> b_hc_timeout (opt_put put8 v8 b) = (case v8 of None \<Rightarrow> b_hc_timeout b | Some x \<Rightarrow> Some x)"
  "(\<And>x. b_hc_retries (put9 x b) = Some x) \<Longrightarrow> b_hc_retries (opt_put put9 v9 b) = (case v9 of None \<Rightarrow> b_hc_retries b | Some x \<Rightarrow> Some x)"
  "(\<And>x. b_hc_domain (put10 x b) = Some x) \<Longrightarrow> b_hc_domain (opt_put put10 v10 b) = (case v10 of None \<Rightarrow> b_hc_domain b | Some x \<Rightarrow> Some x)"
  "(\<And>x. b_hc_path (put11 x b) = Some x) \<Longrightarrow> b_hc_path (opt_put put11 v11 b) = (case v11 of None \<Rightarrow> b_hc_path b | Some x \<Rightarrow> Some x)"
  "(\<And>x. b_hc_tls (put12 x b) = Some x) \<Longrightarrow> b_hc_tls (opt_put put12 v12 b) = (case v12 of None \<Rightarrow> b_hc_tls b | Some x \<Rightarrow> Some x)"
  "(\<And>x. b_protocol (put13 x b) = x) \<Longrightarrow> b_protocol (opt_put put13 v13 b) = (case v13 of None \<Rightarrow> b_protocol b | Some x \<Rightarrow> x)"
  "(\<And>x. b_certificates (put14 x b) = x) \<Longrightarrow> b_certificates (opt_put put14 v14 b) = (case v14 of None \<Rightarrow> b_certificates b | Some x \<Rightarrow> x)"
  "(\<And>x. b_hc_status_codes (put15 x b) = x) \<Longrightarrow> b_hc_status_codes (opt_put put15 v15 b) = (case v15 of None \<Rightarrow> b_hc_status_codes b | Some x \<Rightarrow> x)"
  "(\<And>x. b_add_http (put16 x b)) \<Longrightarrow> b_add_http (opt_put put16 v16 b) \<longleftrightarrow> v16 \<noteq> None \<or> b_add_http b"
  "(\<And>x. b_add_health_check (put17 x b)) \<Longrightarrow> b_add_health_check (opt_put put17 v17 b) \<longleftrightarrow> v17 \<noteq> None \<or> b_add_health_check b"
  by (auto simp: opt_put_def split: option.split)

lemma case_option_same [simp]:
  "(case v of None \<Rightarrow> a | Some x \<Rightarrow> a) = a" "(case v of None \<Rightarrow> None | Some x \<Rightarrow> Some x) = v"
  by (simp_all split: option.split)

lemma case_option_flag [simp]: "(case v of None \<Rightarrow> b | Some x \<Rightarrow> True) \<longleftrightarrow> v \<noteq> None \<or> b"
  by (auto split: option.split)

section \<open>The health check\<close>

definition hc_protocol_read :: "builder \<Rightarrow> builder" where
  "hc_protocol_read b = (case opt (LBSvcProtocolFromService LBSvcHealthCheckProtocol (b_service b)) of
     None \<Rightarrow> b\<lparr>b_hc_protocol := b_protocol b\<rparr> | Some p \<Rightarrow> b\<lparr>b_hc_protocol := p, b_add_health_check := True\<rparr>)"

text \<open>The successful extraction of the health check, as a composition of reads.\<close>

definition hc_protocol_of :: "builder \<Rightarrow> string" where
  "hc_protocol_of b = (case opt (LBSvcProtocolFromService LBSvcHealthCheckProtocol (b_service b)) of
     Some q \<Rightarrow> q | None \<Rightarrow> b_protocol b)"

definition health_general :: "builder \<Rightarrow> builder" where
  "health_general b = (let svc = b_service b;
     b = hc_protocol_read b;
     b = opt_put (\<lambda>v b. b\<lparr>b_hc_port := Some v, b_add_health_check := True\<rparr>) (opt (IntFromService LBSvcHealthCheckPort svc)) b;
     b = opt_put (\<lambda>v b. b\<lparr>b_hc_interval := Some v, b_add_health_check := True\<rparr>) (opt (DurationFromService LBSvcHealthCheckInterval svc)) b;
     b = opt_put (\<lambda>v b. b\<lparr>b_hc_timeout := Some v, b_add_health_check := True\<rparr>) (opt (DurationFromService LBSvcHealthCheckTimeout svc)) b
   in opt_put (\<lambda>v b. b\<lparr>b_hc_retries := Some v, b_add_health_check := True\<rparr>) (opt (IntFromService LBSvcHealthCheckRetries svc)) b)"

definition health_http_reads :: "builder \<Rightarrow> builder" where
  "health_http_reads b = (let svc = b_service b;
     b = opt_put (\<lambda>v b. b\<lparr>b_hc_domain := Some v\<rparr>) (StringFromService LBSvcHealthCheckHTTPDomain svc) b;
     b = opt_put (\<lambda>v b. b\<lparr>b_hc_path := Some v\<rparr>) (StringFromService LBSvcHealthCheckHTTPPath svc) b;
     b = opt_put (\<lambda>v b. b\<lparr>b_hc_tls := Some v\<rparr>) (opt (BoolFromService LBSvcHealthCheckHTTPValidateCertificate svc)) b
   in opt_put (\<lambda>v b. b\<lparr>b_hc_status_codes := v\<rparr>) (opt (StringsFromService LBSvcHealthCheckHTTPStatusCodes svc)) b)"

definition health_reads :: "builder \<Rightarrow> builder" where
  "health_reads b =
     (if hc_protocol_of b = ProtocolTCP then health_general b else health_http_reads (health_general b))"

definition health_ok :: "builder \<Rightarrow> bool" where
  "health_ok b \<longleftrightarrow> is_ok (LBSvcProtocolFromService LBSvcHealthCheckProtocol (b_service b)) \<and>
     is_ok (IntFromService LBSvcHealthCheckPort (b_service b)) \<and>
     is_ok (DurationFromService LBSvcHealthCheckInterval (b_service b)) \<and>
     is_ok (DurationFromService LBSvcHealthCheckTimeout (b_service b)) \<and>
     is_ok (IntFromService LBSvcHealthCheckRetries (b_service b)) \<and>
     (hc_protocol_of b \<noteq> ProtocolTCP \<longrightarrow>
        is_ok (BoolFromService LBSvcHealthCheckHTTPValidateCertificate (b_service b)) \<and>
        is_ok (StringsFromService LBSvcHealthCheckHTTPStatusCodes (b_service b)))"

text \<open>The reads of the general part and of the HTTP part, errors included.\<close>

definition health_part1 :: "builder \<Rightarrow> builder" where
  "health_part1 b = (let op = ''hcops/hclbServiceOptsBuilder.extractHealthCheck'' in
     b_read op (IntFromService LBSvcHealthCheckRetries) (\<lambda>v b. b\<lparr>b_hc_retries := Some v, b_add_health_check := True\<rparr>)
     (b_read op (DurationFromService LBSvcHealthCheckTimeout) (\<lambda>v b. b\<lparr>b_hc_timeout := Some v, b_add_health_check := True\<rparr>)
     (b_read op (DurationFromService LBSvcHealthCheckInterval) (\<lambda>v b. b\<lparr>b_hc_interval := Some v, b_add_health_check := True\<rparr>)
     (b_read op (IntFromService LBSvcHealthCheckPort) (\<lambda>v b. b\<lparr>b_hc_port := Some v, b_add_health_check := True\<rparr>)
     (b_step (\<lambda>b. case LBSvcProtocolFromService LBSvcHealthCheckProtocol (b_service b) of
         Inl e \<Rightarrow> if errors_is e ErrNotSet then Inr (b\<lparr>b_hc_protocol := b_protocol b\<rparr>) else Inl (wrap op e)
       | Inr p \<Rightarrow> Inr (b\<lparr>b_hc_protocol := p, b_add_health_check := True\<rparr>)) b)))))"

definition health_part2 :: "builder \<Rightarrow> builder" where
  "health_part2 b = (let op = ''hcops/hclbServiceOptsBuilder.extractHealthCheck'';
     b = opt_put (\<lambda>v b. b\<lparr>b_hc_domain := Some v\<rparr>) (StringFromService LBSvcHealthCheckHTTPDomain (b_service b)) b;
     b = opt_put (\<lambda>v b. b\<lparr>b_hc_path := Some v\<rparr>) (StringFromService LBSvcHealthCheckHTTPPath (b_service b)) b
   in b_read op (StringsFromService LBSvcHealthCheckHTTPStatusCodes) (\<lambda>v b. b\<lparr>b_hc_status_codes := v\<rparr>)
     (b_read op (BoolFromService LBSvcHealthCheckHTTPValidateCertificate) (\<lambda>v b. b\<lparr>b_hc_tls := Some v\<rparr>) b))"

definition health_extracted :: "builder \<Rightarrow> builder" where
  "health_extracted b =
     (if b_hc_protocol (health_part1 b) = ProtocolTCP then health_part1 b else health_part2 (health_part1 b))"

lemma extractHealthCheck_parts: "extractHealthCheck b = ret (health_extracted b)"
  by (simp add: extractHealthCheck_def health_extracted_def health_part1_def health_part2_def b_do_annot_read b_do_pure Let_def opt_put_def)

lemma health_part1_service [simp]: "b_service (health_part1 b) = b_service b"
  by (auto simp: health_part1_def Let_def b_step_def split: sum.split)

lemma health_part1_step:
  "b_err (b_step (\<lambda>b. case LBSvcProtocolFromService LBSvcHealthCheckProtocol (b_service b) of
         Inl e \<Rightarrow> if errors_is e ErrNotSet then Inr (b\<lparr>b_hc_protocol := b_protocol b\<rparr>) else Inl (wrap op e)
       | Inr p \<Rightarrow> Inr (b\<lparr>b_hc_protocol := p, b_add_health_check := True\<rparr>)) b) = None \<longleftrightarrow>
   b_err b = None \<and> is_ok (LBSvcProtocolFromService LBSvcHealthCheckProtocol (b_service b))"
  "b_service (b_step (\<lambda>b. case LBSvcProtocolFromService LBSvcHealthCheckProtocol (b_service b) of
         Inl e \<Rightarrow> if errors_is e ErrNotSet then Inr (b\<lparr>b_hc_protocol := b_protocol b\<rparr>) else Inl (wrap op e)
       | Inr p \<Rightarrow> Inr (b\<lparr>b_hc_protocol := p, b_add_health_check := True\<rparr>)) b) = b_service b"
  "b_err b = None \<Longrightarrow> is_ok (LBSvcProtocolFromService LBSvcHealthCheckProtocol (b_service b)) \<Longrightarrow>
   b_step (\<lambda>b. case LBSvcProtocolFromService LBSvcHealthCheckProtocol (b_service b) of
         Inl e \<Rightarrow> if errors_is e ErrNotSet then Inr (b\<lparr>b_hc_protocol := b_protocol b\<rparr>) else Inl (wrap op e)
       | Inr p \<Rightarrow> Inr (b\<lparr>b_hc_protocol := p, b_add_health_check := True\<rparr>)) b = hc_protocol_read b"
  by (cases b; auto simp: b_step_def hc_protocol_read_def split: sum.split)+

lemma hc_protocol_read_fields [simp]:
  "b_err (hc_protocol_read b) = b_err b" "b_service (hc_protocol_read b) = b_service b"
  "b_hc_protocol (hc_protocol_read b) = hc_protocol_of b"
  by (simp_all add: hc_protocol_read_def hc_protocol_of_def split: option.split)

lemma health_part1_ok:
  "b_err (health_part1 b) = None \<longleftrightarrow> b_err b = None \<and>
     is_ok (LBSvcProtocolFromService LBSvcHealthCheckProtocol (b_service b)) \<and>
     is_ok (IntFromService LBSvcHealthCheckPort (b_service b)) \<and>
     is_ok (DurationFromService LBSvcHealthCheckInterval (b_service b)) \<and>
     is_ok (DurationFromService LBSvcHealthCheckTimeout (b_service b)) \<and>
     is_ok (IntFromService LBSvcHealthCheckRetries (b_service b))"
  by (auto simp: health_part1_def Let_def health_part1_step)

lemma health_part1_protocol: "b_err (health_part1 b) = None \<Longrightarrow> b_hc_protocol (health_part1 b) = hc_protocol_of b"
  unfolding health_part1_ok by (simp add: health_part1_def Let_def health_part1_step)

lemma health_general_service [simp]: "b_service (health_general b) = b_service b"
  by (simp add: health_general_def Let_def)

lemma health_part1_value: "b_err (health_part1 b) = None \<Longrightarrow> health_part1 b = health_general b"
  unfolding health_part1_ok by (simp add: health_part1_def health_general_def Let_def health_part1_step)

lemma health_part2_ok:
  "b_err (health_part2 b) = None \<longleftrightarrow> b_err b = None \<and>
     is_ok (BoolFromService LBSvcHealthCheckHTTPValidateCertificate (b_service b)) \<and>
     is_ok (StringsFromService LBSvcHealthCheckHTTPStatusCodes (b_service b))"
  by (auto simp: health_part2_def Let_def)

lemma health_part2_value: "b_err (health_part2 b) = None \<Longrightarrow> health_part2 b = health_http_reads b"
  unfolding health_part2_ok by (simp add: health_part2_def health_http_reads_def Let_def)

lemma health_extracted_value:
  "(b_err (health_extracted b) = None \<longleftrightarrow> b_err b = None \<and> health_ok b) \<and>
     (b_err (health_extracted b) = None \<longrightarrow> health_extracted b = health_reads b)"
proof (cases "b_err (health_part1 b) = None")
  case True
  note v1 = health_part1_value [OF True] and p1 = health_part1_protocol [OF True] and oks = True [unfolded health_part1_ok]
  show ?thesis
  proof (cases "hc_protocol_of b = ProtocolTCP")
    case tcp: True
    then show ?thesis
      using True oks v1 p1 by (simp add: health_extracted_def health_reads_def health_ok_def)
  next
    case False
    then have "health_extracted b = health_part2 (health_part1 b)" by (simp add: health_extracted_def p1)
    with False show ?thesis
      using True oks v1 health_part2_value [of "health_part1 b"] health_part2_ok [of "health_part1 b"]
      by (simp add: health_reads_def health_ok_def)
  qed
next
  case False
  then have "b_err (health_extracted b) \<noteq> None"
    by (simp add: health_extracted_def health_part2_ok del: not_None_eq)
  with False show ?thesis unfolding health_part1_ok by (auto simp: health_ok_def)
qed

section \<open>The extraction as a whole\<close>

text \<open>The parts of \<open>extract\<close> before and after the certificates.\<close>

definition general_reads :: "service_port \<Rightarrow> service \<Rightarrow> builder \<Rightarrow> builder" where
  "general_reads p svc b = (let
     b = b\<lparr>b_listen_port := sp_port p, b_destination_port := sp_node_port p\<rparr>;
     b = opt_put (\<lambda>v b. b\<lparr>b_proxy_protocol := Some v\<rparr>) (opt (BoolFromService LBSvcProxyProtocol svc)) b;
     b = b\<lparr>b_protocol := ProtocolTCP\<rparr>;
     b = opt_put (\<lambda>v b. b\<lparr>b_protocol := v\<rparr>) (opt (LBSvcProtocolFromService LBSvcProtocol svc)) b;
     b = opt_put (\<lambda>v b. b\<lparr>b_cookie_name := Some v, b_add_http := True\<rparr>) (StringFromService LBSvcHTTPCookieName svc) b
   in opt_put (\<lambda>v b. b\<lparr>b_cookie_lifetime := Some v, b_add_http := True\<rparr>) (opt (DurationFromService LBSvcHTTPCookieLifetime svc)) b)"

definition http_reads :: "service \<Rightarrow> builder \<Rightarrow> builder" where
  "http_reads svc b = (let
     b = opt_put (\<lambda>v b. b\<lparr>b_redirect_http := Some v, b_add_http := True\<rparr>) (opt (BoolFromService LBSvcRedirectHTTP svc)) b
   in opt_put (\<lambda>v b. b\<lparr>b_sticky_sessions := Some v, b_add_http := True\<rparr>) (opt (BoolFromService LBSvcHTTPStickySessions svc)) b)"

text \<open>What a successful certificate step put into the builder.\<close>

definition put_certs :: "certificate list option \<Rightarrow> builder \<Rightarrow> builder" where
  "put_certs cs b = opt_put (\<lambda>cs b. b\<lparr>b_certificates := cs, b_add_http := True\<rparr>) cs b"

definition certs_resolved :: "api_call list \<Rightarrow> certificate list \<Rightarrow> certificate list \<Rightarrow> bool" where
  "certs_resolved calls = list_all2 (\<lambda>e c. if cert_id e \<noteq> 0 then c = e
     else \<exists>d. CertGet (cert_name e) (Inr (Some d)) \<in> set calls \<and> c = \<lparr>cert_id = cert_id d, cert_name = ''''\<rparr>)"

text \<open>The certificates of a service, given the answers in the log: the one managed certificate with
  the service's label, or the listed ones with names resolved to IDs, or none.\<close>

definition certs_found :: "service \<Rightarrow> api_call list \<Rightarrow> certificate list option \<Rightarrow> bool" where
  "certs_found svc calls cs \<longleftrightarrow>
     (if is_managed svc then
        \<exists>c. CertList (LabelServiceUID @ ''='' @ svc_uid svc) (Inr [c]) \<in> set calls \<and>
            cs = Some [\<lparr>cert_id = cert_id c, cert_name = ''''\<rparr>]
      else case opt (CertificatesFromService LBSvcHTTPCertificates svc) of
             None \<Rightarrow> cs = None
           | Some entries \<Rightarrow> \<exists>ds. cs = Some ds \<and> certs_resolved calls entries ds)"

text \<open>A certificate lookup that did not find exactly one certificate.\<close>

fun cert_failure :: "api_call \<Rightarrow> bool" where
  "cert_failure (CertGet n (Inr (Some c))) = False"
| "cert_failure (CertGet n r) = True"
| "cert_failure (CertList l (Inr [c])) = False"
| "cert_failure (CertList l r) = True"
| "cert_failure c = False"

fun cert_read :: "api_call \<Rightarrow> bool" where
  "cert_read (CertGet n r) = True"
| "cert_read (CertList l r) = True"
| "cert_read c = False"

lemma certs_resolved_mono: "certs_resolved calls es cs \<Longrightarrow> set calls \<subseteq> set calls' \<Longrightarrow> certs_resolved calls' es cs"
  unfolding certs_resolved_def by (erule list_all2_mono) (auto split: if_splits)

lemma certs_resolved_simps [simp]:
  "certs_resolved calls [] []"
  "certs_resolved calls (e # es) (c # cs) \<longleftrightarrow> (if cert_id e \<noteq> 0 then c = e
     else \<exists>d. CertGet (cert_name e) (Inr (Some d)) \<in> set calls \<and> c = \<lparr>cert_id = cert_id d, cert_name = ''''\<rparr>) \<and>
   certs_resolved calls es cs"
  by (simp_all add: certs_resolved_def)

lemma certs_resolved_Cons: "certs_resolved calls es cs \<Longrightarrow> certs_resolved (c # calls) es cs"
  by (rule certs_resolved_mono) auto

lemma certs_resolved_append: "certs_resolved calls es cs \<Longrightarrow> certs_resolved (calls @ calls') es cs"
  by (rule certs_resolved_mono) auto

lemma valid_resolve:
  "valid (resolveCertsByNameOrID A es) (\<lambda>cs r. (\<forall>c \<in> set cs. cert_read c) \<and>
     (case r of Inr ds \<Rightarrow> certs_resolved cs es ds | Inl e \<Rightarrow> \<exists>c \<in> set cs. cert_failure c))"
proof (induction es)
  case Nil
  then show ?case by (auto intro!: valid_return)
next
  case (Cons e es)
  show ?case
    by (cases "cert_id e = 0")
      (auto intro!: valid_rules valid_GetCertificateByNameOrID valid_mono [OF Cons.IH]
          split: sum.splits option.splits, blast, erule certs_resolved_Cons)
qed

lemma valid_uploaded_certs:
  assumes "b_err b = None"
  shows "valid (b_do (extract_uploaded_certs A op) b) (\<lambda>cs b'. (\<forall>c \<in> set cs. cert_read c) \<and>
     (if b_err b' = None then \<exists>ds. b' = put_certs ds b \<and>
        (if is_managed (b_service b) then ds = None
         else case opt (CertificatesFromService LBSvcHTTPCertificates (b_service b)) of
           None \<Rightarrow> ds = None | Some es \<Rightarrow> \<exists>xs. ds = Some xs \<and> certs_resolved cs es xs)
      else \<exists>c \<in> set cs. cert_failure c))"
proof (cases "is_managed (b_service b)")
  case True
  then show ?thesis using assms
    by (auto simp: b_do_def extract_uploaded_certs_def put_certs_def opt_put_def intro!: valid_rules exI [of _ None])
next
  case False
  show ?thesis
  proof (cases "CertificatesFromService LBSvcHTTPCertificates (b_service b)")
    case (Inl e)
    then have "errors_is e ErrNotSet"
      by (auto simp: CertificatesFromService_def applyToValue_def split: option.splits)
    then show ?thesis using assms False Inl
      by (auto simp: b_do_def extract_uploaded_certs_def put_certs_def opt_put_def intro!: valid_rules)
  next
    case (Inr es)
    show ?thesis using assms False Inr
      by (auto simp: b_do_def extract_uploaded_certs_def put_certs_def opt_put_def
          intro!: valid_rules valid_mono [OF valid_resolve] split: sum.splits)
        (rule_tac x = "Some x2" in exI, cases b, simp)
  qed
qed

lemma valid_managed_cert:
  assumes "b_err b = None"
  shows "valid (b_do (extract_managed_cert A) b) (\<lambda>cs b'. (\<forall>c \<in> set cs. cert_read c) \<and>
     (if b_err b' = None then
        if is_managed (b_service b) then
          \<exists>c. CertList (LabelServiceUID @ ''='' @ svc_uid (b_service b)) (Inr [c]) \<in> set cs \<and>
            b' = put_certs (Some [\<lparr>cert_id = cert_id c, cert_name = ''''\<rparr>]) b
        else b' = b
      else \<exists>c \<in> set cs. cert_failure c))"
proof (cases "is_managed (b_service b)")
  case True
  then show ?thesis using assms
    by (auto simp: b_do_def extract_managed_cert_def put_certs_def opt_put_def GetCertificateByLabel_def request_defs Let_def
        intro!: valid_rules split: sum.splits list.splits)
next
  case False
  then show ?thesis using assms
    by (auto simp: b_do_def extract_managed_cert_def intro!: valid_rules)
qed

section \<open>extract\<close>

text \<open>The reads before and after the certificates, errors included.\<close>

definition general_part :: "builder \<Rightarrow> builder" where
  "general_part b = (let op = ''hcops/hclbServiceOptsBuilder.extract'';
     b = b\<lparr>b_listen_port := sp_port (b_port b), b_destination_port := sp_node_port (b_port b)\<rparr>;
     b = b_read op (BoolFromService LBSvcProxyProtocol) (\<lambda>v b. b\<lparr>b_proxy_protocol := Some v\<rparr>) b;
     b = b\<lparr>b_protocol := ProtocolTCP\<rparr>;
     b = b_read op (LBSvcProtocolFromService LBSvcProtocol) (\<lambda>v b. b\<lparr>b_protocol := v\<rparr>) b;
     b = opt_put (\<lambda>v b. b\<lparr>b_cookie_name := Some v, b_add_http := True\<rparr>) (StringFromService LBSvcHTTPCookieName (b_service b)) b
   in b_read op (DurationFromService LBSvcHTTPCookieLifetime) (\<lambda>v b. b\<lparr>b_cookie_lifetime := Some v, b_add_http := True\<rparr>) b)"

definition http_part :: "builder \<Rightarrow> builder" where
  "http_part b = (let op = ''hcops/hclbServiceOptsBuilder.extract'' in
     b_read op (BoolFromService LBSvcHTTPStickySessions) (\<lambda>v b. b\<lparr>b_sticky_sessions := Some v, b_add_http := True\<rparr>)
     (b_read op (BoolFromService LBSvcRedirectHTTP) (\<lambda>v b. b\<lparr>b_redirect_http := Some v, b_add_http := True\<rparr>) b))"

lemma b_extract_parts:
  "b_extract A b = do {
     b \<leftarrow> do { b \<leftarrow> b_do (extract_uploaded_certs A ''hcops/hclbServiceOptsBuilder.extract'') (general_part b);
                b_do (extract_managed_cert A) b };
     ret (health_extracted (http_part b))
   }"
  by (simp add: b_extract_def general_part_def http_part_def b_do_annot_read extractHealthCheck_parts Let_def opt_put_def)

lemma general_part_ok:
  "b_err (general_part b) = None \<longleftrightarrow> b_err b = None \<and> is_ok (BoolFromService LBSvcProxyProtocol (b_service b)) \<and>
     is_ok (LBSvcProtocolFromService LBSvcProtocol (b_service b)) \<and>
     is_ok (DurationFromService LBSvcHTTPCookieLifetime (b_service b))"
  by (auto simp: general_part_def Let_def)

lemma general_part_value:
  "b_err (general_part b) = None \<Longrightarrow> general_part b = general_reads (b_port b) (b_service b) b"
  unfolding general_part_ok by (simp add: general_part_def general_reads_def Let_def)

lemma http_part_ok:
  "b_err (http_part b) = None \<longleftrightarrow> b_err b = None \<and> is_ok (BoolFromService LBSvcRedirectHTTP (b_service b)) \<and>
     is_ok (BoolFromService LBSvcHTTPStickySessions (b_service b))"
  by (auto simp: http_part_def Let_def)

lemma http_part_value:
  "b_err (http_part b) = None \<Longrightarrow> http_part b = http_reads (b_service b) b"
  unfolding http_part_ok by (simp add: http_part_def http_reads_def Let_def)

lemma put_certs_frame [simp]:
  "b_err (put_certs cs b) = b_err b" "b_service (put_certs cs b) = b_service b"
  "b_protocol (put_certs cs b) = b_protocol b"
  by (simp_all add: put_certs_def)

text \<open>The builder that a successful extraction leaves.\<close>

definition extracted :: "service_port \<Rightarrow> service \<Rightarrow> certificate list option \<Rightarrow> builder" where
  "extracted p svc cs = health_reads (http_reads svc (put_certs cs
     (general_reads p svc ((new_builder p svc)\<lparr>b_once := True\<rparr>))))"

lemma general_reads_frame [simp]:
  "b_service (general_reads p svc b) = b_service b" "b_err (general_reads p svc b) = b_err b"
  "b_protocol (general_reads p svc b) = spec_protocol svc"
  by (simp_all add: general_reads_def spec_protocol_def Let_def opt_put_def split: option.split)

lemma http_reads_frame [simp]:
  "b_service (http_reads svc b) = b_service b" "b_err (http_reads svc b) = b_err b"
  "b_protocol (http_reads svc b) = b_protocol b"
  by (simp_all add: http_reads_def Let_def)

lemma new_builder_fields [simp]:
  "b_err (new_builder p svc) = None" "b_service (new_builder p svc) = svc" "b_port (new_builder p svc) = p"
  "\<not> b_once (new_builder p svc)"
  by (simp_all add: new_builder_def)

lemma final_ok:
  "b_err (health_extracted (http_part b)) = None \<longleftrightarrow> b_err b = None \<and>
     is_ok (BoolFromService LBSvcRedirectHTTP (b_service b)) \<and>
     is_ok (BoolFromService LBSvcHTTPStickySessions (b_service b)) \<and> health_ok (http_part b)"
  using health_extracted_value [of "http_part b"] http_part_ok [of b] by auto

lemma final_value:
  "b_err (health_extracted (http_part b)) = None \<Longrightarrow>
   health_extracted (http_part b) = health_reads (http_reads (b_service b) b)"
  using health_extracted_value [of "http_part b"] http_part_value [of b] by auto

lemma health_ok_after:
  "b_protocol b = spec_protocol (b_service b) \<Longrightarrow> b_err (http_part b) = None \<Longrightarrow>
   health_ok (http_part b) \<longleftrightarrow> is_ok (LBSvcProtocolFromService LBSvcHealthCheckProtocol (b_service b)) \<and>
     is_ok (IntFromService LBSvcHealthCheckPort (b_service b)) \<and>
     is_ok (DurationFromService LBSvcHealthCheckInterval (b_service b)) \<and>
     is_ok (DurationFromService LBSvcHealthCheckTimeout (b_service b)) \<and>
     is_ok (IntFromService LBSvcHealthCheckRetries (b_service b)) \<and>
     (spec_hc_protocol (b_service b) \<noteq> ProtocolTCP \<longrightarrow>
        is_ok (BoolFromService LBSvcHealthCheckHTTPValidateCertificate (b_service b)) \<and>
        is_ok (StringsFromService LBSvcHealthCheckHTTPStatusCodes (b_service b)))"
  unfolding health_ok_def hc_protocol_of_def spec_hc_protocol_def
  by (subst (1 2 3 4 5 6 7 8 9) http_part_value) (simp_all cong: option.case_cong)

lemma final_annotations:
  assumes "b_protocol b = spec_protocol svc" and "b_service b = svc" and "b_err b = None"
    and "is_ok (BoolFromService LBSvcProxyProtocol svc)" and "is_ok (LBSvcProtocolFromService LBSvcProtocol svc)"
    and "is_ok (DurationFromService LBSvcHTTPCookieLifetime svc)"
  shows "b_err (health_extracted (http_part b)) = None \<longleftrightarrow> annotations_ok svc"
  using assms health_ok_after [of b] http_part_ok [of b]
  by (auto simp: final_ok annotations_ok_def)

lemma valid_certs:
  assumes "b_err b = None"
  shows "valid (do { b \<leftarrow> b_do (extract_uploaded_certs A op) b; b_do (extract_managed_cert A) b })
    (\<lambda>cs b'. (\<forall>c \<in> set cs. cert_read c) \<and>
       (if b_err b' = None then \<exists>xs. certs_found (b_service b) cs xs \<and> b' = put_certs xs b
        else \<exists>c \<in> set cs. cert_failure c))"
proof (rule valid_bind, rule valid_mono [OF valid_uploaded_certs [OF assms]], goal_cases)
  case (1 cs1 b1)
  show ?case
  proof (cases "b_err b1 = None")
    case False
    with 1 show ?thesis by (auto simp: b_do_sticky intro!: valid_return)
  next
    case True
    with 1 obtain ds where b1: "b1 = put_certs ds b" and reads: "\<forall>c \<in> set cs1. cert_read c"
      and ds: "if is_managed (b_service b) then ds = None
        else case opt (CertificatesFromService LBSvcHTTPCertificates (b_service b)) of
           None \<Rightarrow> ds = None | Some es \<Rightarrow> \<exists>xs. ds = Some xs \<and> certs_resolved cs1 es xs"
      by auto
    show ?thesis
    proof (cases "is_managed (b_service b)")
      case managed: True
      then have "b1 = b" using ds b1 by (simp add: put_certs_def opt_put_def)
      then show ?thesis
        using managed reads by (intro valid_mono [OF valid_managed_cert [OF True]]) (auto simp: certs_found_def split: if_splits)
    next
      case False
      then have "certs_found (b_service b) (cs1 @ cs2) ds" for cs2
        using ds by (auto simp: certs_found_def split: option.splits intro: certs_resolved_append)
      then show ?thesis
        using False reads b1 by (intro valid_mono [OF valid_managed_cert [OF True]]) (auto split: if_splits)
    qed
  qed
qed

lemma valid_extract:
  "valid (b_extract A ((new_builder p svc)\<lparr>b_once := True\<rparr>)) (\<lambda>cs b. (\<forall>c \<in> set cs. cert_read c) \<and>
     (case b_err b of
        None \<Rightarrow> annotations_ok svc \<and> (\<exists>ds. certs_found svc cs ds \<and> b = extracted p svc ds)
      | Some e \<Rightarrow> \<not> annotations_ok svc \<or> (\<exists>c \<in> set cs. cert_failure c)))"
    (is "valid (b_extract A ?b) _")
proof (cases "b_err (general_part ?b) = None")
  case False
  then have "\<not> annotations_ok svc" by (auto simp: general_part_ok annotations_ok_def)
  moreover have "b_err (health_extracted (http_part (general_part ?b))) \<noteq> None"
    using False by (simp add: final_ok)
  ultimately show ?thesis
    using False by (auto simp: b_extract_parts b_do_sticky intro!: valid_return split: option.split)
next
  case True
  let ?g = "general_reads p svc ?b"
  have g: "general_part ?b = ?g" using general_part_value [OF True] by simp
  have oks: "is_ok (BoolFromService LBSvcProxyProtocol svc)" "is_ok (LBSvcProtocolFromService LBSvcProtocol svc)"
    "is_ok (DurationFromService LBSvcHTTPCookieLifetime svc)"
    using True by (simp_all add: general_part_ok)
  show ?thesis
    unfolding b_extract_parts g
  proof (rule valid_bind, rule valid_mono [OF valid_certs], simp, goal_cases)
    case (1 cs b2)
    show ?case
    proof (cases "b_err b2 = None")
      case False
      then have "b_err (health_extracted (http_part b2)) \<noteq> None" by (simp add: final_ok)
      with 1 False show ?thesis by (auto intro!: valid_return split: option.split)
    next
      case True
      with 1 obtain xs where xs: "certs_found svc cs xs" "b2 = put_certs xs ?g" by auto
      have fin: "b_err (health_extracted (http_part b2)) = None \<longleftrightarrow> annotations_ok svc"
        using final_annotations [where svc = svc, OF _ _ _ oks, of b2] xs(2) by simp
      have "health_extracted (http_part b2) = extracted p svc xs" if "annotations_ok svc"
        using final_value [of b2] fin that xs(2) by (simp add: extracted_def)
      with fin xs(1) 1 show ?thesis
        by (auto intro!: valid_return split: option.split)
    qed
  qed
qed

section \<open>The built options\<close>

lemma not_set_opt:
  "is_ok (BoolFromService n svc) \<Longrightarrow> opt (BoolFromService n svc) = None \<longleftrightarrow> StringFromService n svc = None"
  "is_ok (IntFromService n svc) \<Longrightarrow> opt (IntFromService n svc) = None \<longleftrightarrow> StringFromService n svc = None"
  "is_ok (DurationFromService n svc) \<Longrightarrow> opt (DurationFromService n svc) = None \<longleftrightarrow> StringFromService n svc = None"
  "is_ok (LBSvcProtocolFromService n svc) \<Longrightarrow> opt (LBSvcProtocolFromService n svc) = None \<longleftrightarrow> StringFromService n svc = None"
  "opt (CertificatesFromService n svc) = None \<longleftrightarrow> StringFromService n svc = None"
  by (auto simp: BoolFromService_def IntFromService_def DurationFromService_def LBSvcProtocolFromService_def
      CertificatesFromService_def applyToValue_def validateServiceProtocol_def not_set_def num_error_def Let_def
      split: option.splits sum.splits if_splits)

lemma validated_protocol:
  "opt (LBSvcProtocolFromService n svc) = Some q \<Longrightarrow> q \<in> {ProtocolTCP, ProtocolHTTP, ProtocolHTTPS}"
  by (auto simp: LBSvcProtocolFromService_def applyToValue_def validateServiceProtocol_def Let_def
      split: option.splits sum.splits if_splits)

lemma spec_protocol_cases: "spec_protocol svc \<in> {ProtocolTCP, ProtocolHTTP, ProtocolHTTPS}"
  using validated_protocol [of LBSvcProtocol svc] by (auto simp: spec_protocol_def split: option.split)

lemma spec_hc_protocol_cases: "spec_hc_protocol svc \<in> {ProtocolTCP, ProtocolHTTP, ProtocolHTTPS}"
  using validated_protocol [of LBSvcHealthCheckProtocol svc] spec_protocol_cases [of svc]
  by (auto simp: spec_hc_protocol_def split: option.split)

definition cert_list_of :: "certificate list option \<Rightarrow> certificate list" where
  "cert_list_of ds = (case ds of None \<Rightarrow> [] | Some cs \<Rightarrow> cs)"

lemma health_general_frame [simp]:
  "b_listen_port (health_general b) = b_listen_port b" "b_destination_port (health_general b) = b_destination_port b"
  "b_protocol (health_general b) = b_protocol b" "b_proxy_protocol (health_general b) = b_proxy_protocol b"
  "b_add_http (health_general b) = b_add_http b" "b_cookie_name (health_general b) = b_cookie_name b"
  "b_cookie_lifetime (health_general b) = b_cookie_lifetime b" "b_certificates (health_general b) = b_certificates b"
  "b_redirect_http (health_general b) = b_redirect_http b" "b_sticky_sessions (health_general b) = b_sticky_sessions b"
  "b_hc_response (health_general b) = b_hc_response b" "b_err (health_general b) = b_err b"
  "b_hc_domain (health_general b) = b_hc_domain b"
  "b_hc_path (health_general b) = b_hc_path b" "b_hc_tls (health_general b) = b_hc_tls b"
  "b_hc_status_codes (health_general b) = b_hc_status_codes b"
  by (simp_all add: health_general_def hc_protocol_read_def Let_def split: option.split)

lemma health_http_frame [simp]:
  "b_listen_port (health_http_reads b) = b_listen_port b" "b_destination_port (health_http_reads b) = b_destination_port b"
  "b_protocol (health_http_reads b) = b_protocol b" "b_proxy_protocol (health_http_reads b) = b_proxy_protocol b"
  "b_add_http (health_http_reads b) = b_add_http b" "b_cookie_name (health_http_reads b) = b_cookie_name b"
  "b_cookie_lifetime (health_http_reads b) = b_cookie_lifetime b" "b_certificates (health_http_reads b) = b_certificates b"
  "b_redirect_http (health_http_reads b) = b_redirect_http b" "b_sticky_sessions (health_http_reads b) = b_sticky_sessions b"
  "b_hc_response (health_http_reads b) = b_hc_response b" "b_err (health_http_reads b) = b_err b"
  "b_service (health_http_reads b) = b_service b" "b_hc_protocol (health_http_reads b) = b_hc_protocol b"
  "b_hc_port (health_http_reads b) = b_hc_port b" "b_hc_interval (health_http_reads b) = b_hc_interval b"
  "b_hc_timeout (health_http_reads b) = b_hc_timeout b" "b_hc_retries (health_http_reads b) = b_hc_retries b"
  "b_add_health_check (health_http_reads b) = b_add_health_check b"
  by (simp_all add: health_http_reads_def Let_def)

lemma health_general_stored:
  assumes "b_hc_port b = None" and "b_hc_interval b = None" and "b_hc_timeout b = None" and "b_hc_retries b = None"
  shows "b_hc_protocol (health_general b) = hc_protocol_of b"
    "b_hc_port (health_general b) = opt (IntFromService LBSvcHealthCheckPort (b_service b))"
    "b_hc_interval (health_general b) = opt (DurationFromService LBSvcHealthCheckInterval (b_service b))"
    "b_hc_timeout (health_general b) = opt (DurationFromService LBSvcHealthCheckTimeout (b_service b))"
    "b_hc_retries (health_general b) = opt (IntFromService LBSvcHealthCheckRetries (b_service b))"
  using assms by (simp_all add: health_general_def hc_protocol_read_def hc_protocol_of_def Let_def split: option.split)

lemma hc_protocol_read_flag:
  "b_add_health_check (hc_protocol_read b) \<longleftrightarrow>
     opt (LBSvcProtocolFromService LBSvcHealthCheckProtocol (b_service b)) \<noteq> None \<or> b_add_health_check b"
  by (simp add: hc_protocol_read_def split: option.split)

lemma health_general_flag:
  "b_add_health_check (health_general b) \<longleftrightarrow> b_add_health_check b \<or>
     opt (LBSvcProtocolFromService LBSvcHealthCheckProtocol (b_service b)) \<noteq> None \<or>
     opt (IntFromService LBSvcHealthCheckPort (b_service b)) \<noteq> None \<or>
     opt (DurationFromService LBSvcHealthCheckInterval (b_service b)) \<noteq> None \<or>
     opt (DurationFromService LBSvcHealthCheckTimeout (b_service b)) \<noteq> None \<or>
     opt (IntFromService LBSvcHealthCheckRetries (b_service b)) \<noteq> None"
  by (simp add: health_general_def Let_def hc_protocol_read_flag disj_ac)

lemma health_http_stored:
  assumes "b_hc_domain b = None" and "b_hc_path b = None" and "b_hc_tls b = None" and "b_hc_status_codes b = []"
  shows "b_hc_domain (health_http_reads b) = StringFromService LBSvcHealthCheckHTTPDomain (b_service b)"
    "b_hc_path (health_http_reads b) = StringFromService LBSvcHealthCheckHTTPPath (b_service b)"
    "b_hc_tls (health_http_reads b) = opt (BoolFromService LBSvcHealthCheckHTTPValidateCertificate (b_service b))"
    "b_hc_status_codes (health_http_reads b) =
       (case opt (StringsFromService LBSvcHealthCheckHTTPStatusCodes (b_service b)) of Some v \<Rightarrow> v | None \<Rightarrow> [])"
  using assms by (simp_all add: health_http_reads_def Let_def cong: option.case_cong)

text \<open>The builder before the health check.\<close>

definition before_health :: "service_port \<Rightarrow> service \<Rightarrow> certificate list option \<Rightarrow> builder" where
  "before_health p svc ds = http_reads svc (put_certs ds (general_reads p svc ((new_builder p svc)\<lparr>b_once := True\<rparr>)))"

lemma extracted_before: "extracted p svc ds = health_reads (before_health p svc ds)"
  by (simp add: extracted_def before_health_def)

lemma reads_keep_health [simp]:
  "b_hc_port (general_reads p svc b) = b_hc_port b"
  "b_hc_interval (general_reads p svc b) = b_hc_interval b"
  "b_hc_timeout (general_reads p svc b) = b_hc_timeout b"
  "b_hc_retries (general_reads p svc b) = b_hc_retries b"
  "b_hc_domain (general_reads p svc b) = b_hc_domain b"
  "b_hc_path (general_reads p svc b) = b_hc_path b"
  "b_hc_tls (general_reads p svc b) = b_hc_tls b"
  "b_hc_status_codes (general_reads p svc b) = b_hc_status_codes b"
  "b_hc_response (general_reads p svc b) = b_hc_response b"
  "b_add_health_check (general_reads p svc b) = b_add_health_check b"
  "b_hc_port (put_certs ds b) = b_hc_port b"
  "b_hc_interval (put_certs ds b) = b_hc_interval b"
  "b_hc_timeout (put_certs ds b) = b_hc_timeout b"
  "b_hc_retries (put_certs ds b) = b_hc_retries b"
  "b_hc_domain (put_certs ds b) = b_hc_domain b"
  "b_hc_path (put_certs ds b) = b_hc_path b"
  "b_hc_tls (put_certs ds b) = b_hc_tls b"
  "b_hc_status_codes (put_certs ds b) = b_hc_status_codes b"
  "b_hc_response (put_certs ds b) = b_hc_response b"
  "b_add_health_check (put_certs ds b) = b_add_health_check b"
  "b_hc_port (http_reads svc b) = b_hc_port b"
  "b_hc_interval (http_reads svc b) = b_hc_interval b"
  "b_hc_timeout (http_reads svc b) = b_hc_timeout b"
  "b_hc_retries (http_reads svc b) = b_hc_retries b"
  "b_hc_domain (http_reads svc b) = b_hc_domain b"
  "b_hc_path (http_reads svc b) = b_hc_path b"
  "b_hc_tls (http_reads svc b) = b_hc_tls b"
  "b_hc_status_codes (http_reads svc b) = b_hc_status_codes b"
  "b_hc_response (http_reads svc b) = b_hc_response b"
  "b_add_health_check (http_reads svc b) = b_add_health_check b"
  by (simp_all add: general_reads_def put_certs_def http_reads_def Let_def)

lemma reads_general [simp]:
  "b_listen_port (put_certs ds b) = b_listen_port b"
  "b_destination_port (put_certs ds b) = b_destination_port b"
  "b_proxy_protocol (put_certs ds b) = b_proxy_protocol b"
  "b_listen_port (http_reads svc b) = b_listen_port b"
  "b_destination_port (http_reads svc b) = b_destination_port b"
  "b_proxy_protocol (http_reads svc b) = b_proxy_protocol b"
  "b_listen_port (general_reads p svc b) = sp_port p" "b_destination_port (general_reads p svc b) = sp_node_port p"
  "b_proxy_protocol b = None \<Longrightarrow> b_proxy_protocol (general_reads p svc b) = opt (BoolFromService LBSvcProxyProtocol svc)"
  by (simp_all add: general_reads_def put_certs_def http_reads_def Let_def cong: option.case_cong)

lemma before_health_general [simp]:
  "b_service (before_health p svc ds) = svc" "b_listen_port (before_health p svc ds) = sp_port p"
  "b_destination_port (before_health p svc ds) = sp_node_port p"
  "b_protocol (before_health p svc ds) = spec_protocol svc"
  "b_proxy_protocol (before_health p svc ds) = opt (BoolFromService LBSvcProxyProtocol svc)"
  "b_hc_port (before_health p svc ds) = None" "b_hc_interval (before_health p svc ds) = None"
  "b_hc_timeout (before_health p svc ds) = None" "b_hc_retries (before_health p svc ds) = None"
  "b_hc_domain (before_health p svc ds) = None" "b_hc_path (before_health p svc ds) = None"
  "b_hc_tls (before_health p svc ds) = None" "b_hc_status_codes (before_health p svc ds) = []"
  "b_hc_response (before_health p svc ds) = None" "\<not> b_add_health_check (before_health p svc ds)"
  by (simp_all add: before_health_def, simp_all add: new_builder_def)

lemma before_health_http [simp]:
  "b_cookie_name (before_health p svc ds) = StringFromService LBSvcHTTPCookieName svc"
  "b_cookie_lifetime (before_health p svc ds) = opt (DurationFromService LBSvcHTTPCookieLifetime svc)"
  "b_certificates (before_health p svc ds) = cert_list_of ds"
  "b_redirect_http (before_health p svc ds) = opt (BoolFromService LBSvcRedirectHTTP svc)"
  "b_sticky_sessions (before_health p svc ds) = opt (BoolFromService LBSvcHTTPStickySessions svc)"
  "b_add_http (before_health p svc ds) \<longleftrightarrow> opt (BoolFromService LBSvcHTTPStickySessions svc) \<noteq> None \<or>
     opt (BoolFromService LBSvcRedirectHTTP svc) \<noteq> None \<or> ds \<noteq> None \<or>
     opt (DurationFromService LBSvcHTTPCookieLifetime svc) \<noteq> None \<or> StringFromService LBSvcHTTPCookieName svc \<noteq> None"
  by (simp_all add: before_health_def http_reads_def put_certs_def general_reads_def cert_list_of_def new_builder_def Let_def
      cong: option.case_cong)

lemma hc_protocol_of_before [simp]: "hc_protocol_of (before_health p svc ds) = spec_hc_protocol svc"
  by (simp add: hc_protocol_of_def spec_hc_protocol_def cong: option.case_cong)

lemma certs_found_some: "certs_found svc calls ds \<Longrightarrow>
   ds \<noteq> None \<longleftrightarrow> is_managed svc \<or> StringFromService LBSvcHTTPCertificates svc \<noteq> None"
  using not_set_opt(5) [of LBSvcHTTPCertificates svc]
  by (auto simp: certs_found_def split: if_splits option.splits)

lemma extracted_http:
  assumes "annotations_ok svc" and "certs_found svc calls ds"
  shows "built_http (extracted p svc ds) = spec_http svc (cert_list_of ds)"
proof -
  have "b_add_http (before_health p svc ds) \<longleftrightarrow> any_http svc"
    using assms(1) certs_found_some [OF assms(2)] unfolding any_http_def annotations_ok_def
    by (auto simp: not_set_opt)
  then show ?thesis
    by (simp add: extracted_before health_reads_def built_http_def spec_http_def)
qed

lemma extracted_health:
  assumes "annotations_ok svc"
  shows "built_health_check (extracted p svc ds) = spec_health svc p"
proof -
  have flag: "b_add_health_check (health_general (before_health p svc ds)) \<longleftrightarrow> any_health svc"
    using assms unfolding any_health_def annotations_ok_def health_general_flag
    by (simp add: not_set_opt)
  note stored = health_general_stored [of "before_health p svc ds", simplified]
    and http = health_http_stored [of "health_general (before_health p svc ds)", simplified]
  show ?thesis
  proof (cases "spec_hc_protocol svc = ProtocolTCP")
    case True
    then show ?thesis
      by (simp add: extracted_before health_reads_def built_health_check_def spec_health_def flag stored
          spec_health_http_def protocol_defs split: option.split)
  next
    case False
    then have "spec_hc_protocol svc = ProtocolHTTP \<or> spec_hc_protocol svc = ProtocolHTTPS"
      using spec_hc_protocol_cases [of svc] by simp
    with False show ?thesis
      by (simp add: extracted_before health_reads_def built_health_check_def spec_health_def flag stored http
          spec_health_http_def split: option.split)
  qed
qed

lemma extracted_plain:
  "b_listen_port (extracted p svc ds) = sp_port p" "b_destination_port (extracted p svc ds) = sp_node_port p"
  "b_protocol (extracted p svc ds) = spec_protocol svc"
  "b_proxy_protocol (extracted p svc ds) = opt (BoolFromService LBSvcProxyProtocol svc)"
  by (simp_all add: extracted_before health_reads_def)

lemma valid_build:
  "valid (initialize A (new_builder p svc)) (\<lambda>cs b. (\<forall>c \<in> set cs. cert_read c) \<and>
     (case b_err b of
        None \<Rightarrow> annotations_ok svc \<and> (\<exists>ds. certs_found svc cs ds \<and> b = extracted p svc ds)
      | Some e \<Rightarrow> \<not> annotations_ok svc \<or> (\<exists>c \<in> set cs. cert_failure c)))"
  using valid_extract [of A p svc] by (simp add: initialize_def)

text \<open>What both builders return: the specified options, or an error for a stated reason.\<close>

definition built :: "bool \<Rightarrow> service \<Rightarrow> service_port \<Rightarrow> api_call list \<Rightarrow> goerr + service_opts \<Rightarrow> bool" where
  "built add svc p cs r \<longleftrightarrow> (\<forall>c \<in> set cs. cert_read c) \<and>
     (case r of
        Inr opts \<Rightarrow> annotations_ok svc \<and> (\<exists>ds. certs_found svc cs ds \<and> opts = spec_opts add svc p (cert_list_of ds))
      | Inl e \<Rightarrow> \<not> annotations_ok svc \<or> (\<exists>c \<in> set cs. cert_failure c))"

lemma valid_buildAddServiceOpts:
  "valid (buildAddServiceOpts A (new_builder p svc)) (\<lambda>cs (r, b). built True svc p cs r \<and>
     (\<exists>e. r = Inl e) \<or> built True svc p cs r \<and> b_listen_port b = sp_port p)"
  unfolding buildAddServiceOpts_def
  by (rule valid_bind, rule valid_mono [OF valid_build])
    (auto intro!: valid_return exI simp: built_def spec_opts_def extracted_plain extracted_http extracted_health
      split: option.splits)

lemma valid_buildUpdateServiceOpts:
  "valid (buildUpdateServiceOpts A (new_builder p svc)) (\<lambda>cs (r, b). built False svc p cs r \<and>
     (\<exists>e. r = Inl e) \<or> built False svc p cs r \<and> b_listen_port b = sp_port p)"
  unfolding buildUpdateServiceOpts_def
  by (rule valid_bind, rule valid_mono [OF valid_build])
    (auto intro!: valid_return exI simp: built_def spec_opts_def extracted_plain extracted_http extracted_health
      split: option.splits)


definition sample_http_service :: service where
  "sample_http_service = annotated [(LBSvcProtocol, ''http''), (LBSvcHealthCheckPort, ''8080''),
     (LBSvcHTTPCertificates, ''cert-a,12'')]"


end
