(* ===== verification/LBServices.thy ===== *)
theory LBServices
  imports LBTargets ServiceOptsCorrect
begin

text \<open>
  \<open>ReconcileHCLBServices\<close> and \<open>reconcileManagedCertificate\<close> of
  \<open>internal/hcops/load_balancer.go\<close>: the services of a load balancer follow the ports of the
  Kubernetes service, one listen port for each, and its managed certificate is created first.
\<close>

section \<open>The managed certificate\<close>

definition managed_name :: "service \<Rightarrow> string" where
  "managed_name svc =
     (case StringFromService LBSvcHTTPManagedCertificateName svc of
        Some n \<Rightarrow> if n = '''' then ''ccm-managed-certificate-'' @ svc_uid svc else n
      | None \<Rightarrow> ''ccm-managed-certificate-'' @ svc_uid svc)"

definition managed_labels :: "service \<Rightarrow> string \<rightharpoonup> string" where
  "managed_labels svc =
     (case BoolFromService LBSvcHTTPManagedCertificateUseACMEStaging svc of
        Inr True \<Rightarrow> [LabelServiceUID \<mapsto> svc_uid svc, ''HC-Use-Staging-CA'' \<mapsto> ''true'']
      | _ \<Rightarrow> [LabelServiceUID \<mapsto> svc_uid svc])"

definition reconcileManagedCertificate :: "'w lb_ops \<Rightarrow> service \<Rightarrow> ('w, goerr option) go" where
  "reconcileManagedCertificate L svc = (let op = ''hcops/LoadBalancerOps.reconcileManagedCertificate'' in
     if \<not> is_managed svc then ret None
     else if (case StringsFromService LBSvcHTTPManagedCertificateDomains svc of
                Inl e \<Rightarrow> errors_is e ErrNotSet | Inr ds \<Rightarrow> False)
       then ret (Some (Msg (op @ '': no domains for managed certificate'')))
     else do {
       err \<leftarrow> CreateManagedCertificate (l_api L) (managed_name svc)
                (case StringsFromService LBSvcHTTPManagedCertificateDomains svc of Inl e \<Rightarrow> [] | Inr ds \<Rightarrow> ds)
                (managed_labels svc);
       ret (case err of
              None \<Rightarrow> None
            | Some e \<Rightarrow> if errors_is e ErrAlreadyExists then None else Some (flatten op e))
     })"

section \<open>The services\<close>

text \<open>The state of the loops: the listen ports not seen yet (a map to \<open>true\<close>), and the flag.\<close>

record svc_state =
  ss_ports :: "int list"
  ss_changed :: bool

definition services_op :: string where "services_op = ''hcops/LoadBalancerOps.ReconcileHCLBServices''"

definition listen_ports :: "load_balancer \<Rightarrow> int list" where
  "listen_ports lb = foldl (\<lambda>ps s. add_key (hs_listen_port s) ps) [] (lb_services lb)"

definition send_service :: "'w lb_ops \<Rightarrow> lb_request \<Rightarrow> svc_state \<Rightarrow> ('w, (bool \<times> goerr option) + svc_state) go" where
  "send_service L q st = do {
     err \<leftarrow> do_and_watch (l_api L) services_op q;
     ret (case err of Some e \<Rightarrow> Inl (ss_changed st, Some e) | None \<Rightarrow> Inr (st\<lparr>ss_changed := True\<rparr>))
   }"

definition service_body :: "'w lb_ops \<Rightarrow> load_balancer \<Rightarrow> service \<Rightarrow> service_port \<Rightarrow> svc_state \<Rightarrow> ('w, (bool \<times> goerr option) + svc_state) go"
  where
  "service_body L lb svc port st = (let
     portNo = sp_port port;
     portExists = (portNo \<in> set (ss_ports st));
     st = st\<lparr>ss_ports := removeAll portNo (ss_ports st)\<rparr>;
     b = new_builder port svc
   in if portExists then do {
        r \<leftarrow> buildUpdateServiceOpts (l_api L) b;
        case r of
          (Inl e, b) \<Rightarrow> ret (Inl (ss_changed st, Some (wrap services_op e)))
        | (Inr opts, b) \<Rightarrow> send_service L (UpdateService (lb_id lb) (b_listen_port b) opts) st
      } else do {
        r \<leftarrow> buildAddServiceOpts (l_api L) b;
        case r of
          (Inl e, b) \<Rightarrow> ret (Inl (ss_changed st, Some (wrap services_op e)))
        | (Inr opts, b) \<Rightarrow> send_service L (AddService (lb_id lb) opts) st
      })"

definition delete_body :: "'w lb_ops \<Rightarrow> load_balancer \<Rightarrow> int \<Rightarrow> bool \<Rightarrow> ('w, (bool \<times> goerr option) + bool) go" where
  "delete_body L lb p changed = do {
     r \<leftarrow> lb_do (l_api L) (DeleteService (lb_id lb) p);
     case r of
       Inl e \<Rightarrow> ret (Inl (changed, Some (wrap (services_op @ '': port '' @ format_int p) e)))
     | Inr a \<Rightarrow> do {
         err \<leftarrow> WatchAction (l_api L) a;
         ret (case err of
                Some e \<Rightarrow> Inl (changed, Some (wrap (services_op @ '': port: '' @ format_int p) e))
              | None \<Rightarrow> Inr True)
       }
   }"

definition ReconcileHCLBServices :: "'w lb_ops \<Rightarrow> load_balancer \<Rightarrow> service \<Rightarrow> ('w, bool \<times> goerr option) go" where
  "ReconcileHCLBServices L lb svc = do {
     err \<leftarrow> reconcileManagedCertificate L svc;
     case err of
       Some e \<Rightarrow> ret (False, Some (flatten services_op e))
     | None \<Rightarrow> do {
         r \<leftarrow> range_loop (service_body L lb svc) (svc_ports svc) \<lparr>ss_ports = listen_ports lb, ss_changed = False\<rparr>;
         case r of
           Inl res \<Rightarrow> ret res
         | Inr st \<Rightarrow> do {
             r \<leftarrow> range_loop (delete_body L lb) (map_order (l_ord_ports L) (ss_ports st)) (ss_changed st);
             ret (case r of Inl res \<Rightarrow> res | Inr changed \<Rightarrow> (changed, None))
           }
       }
   }"

section \<open>The abstract set of listen ports\<close>

fun apply_service :: "lb_request \<Rightarrow> int set \<Rightarrow> int set" where
  "apply_service (AddService l opts) P = (case so_listen_port opts of Some p \<Rightarrow> insert p P | None \<Rightarrow> P)"
| "apply_service (DeleteService l p) P = P - {p}"
| "apply_service q P = P"

definition apply_services :: "lb_request list \<Rightarrow> int set \<Rightarrow> int set" where
  "apply_services qs P = fold apply_service qs P"

text \<open>A request the API can accept when the load balancer listens on the ports \<open>P\<close>, for one port
  of the service with the options its annotations specify, or for a port the service lacks.\<close>

fun service_request_ok :: "load_balancer \<Rightarrow> service \<Rightarrow> int set \<Rightarrow> lb_request \<Rightarrow> bool" where
  "service_request_ok lb svc P (AddService l opts) \<longleftrightarrow> l = lb_id lb \<and>
     (\<exists>p cs. p \<in> set (svc_ports svc) \<and> opts = spec_opts True svc p cs \<and> sp_port p \<notin> P)"
| "service_request_ok lb svc P (UpdateService l n opts) \<longleftrightarrow> l = lb_id lb \<and>
     (\<exists>p cs. p \<in> set (svc_ports svc) \<and> opts = spec_opts False svc p cs \<and> n = sp_port p \<and> n \<in> P)"
| "service_request_ok lb svc P (DeleteService l n) \<longleftrightarrow> l = lb_id lb \<and> n \<in> P \<and> n \<notin> sp_port ` set (svc_ports svc)"
| "service_request_ok lb svc P q \<longleftrightarrow> False"

fun requests_ok :: "load_balancer \<Rightarrow> service \<Rightarrow> int set \<Rightarrow> lb_request list \<Rightarrow> bool" where
  "requests_ok lb svc P [] = True"
| "requests_ok lb svc P (q # qs) \<longleftrightarrow> service_request_ok lb svc P q \<and> requests_ok lb svc (apply_service q P) qs"

lemma apply_services_simps [simp]:
  "apply_services [] P = P" "apply_services (q # qs) P = apply_services qs (apply_service q P)"
  "apply_services (qs @ rs) P = apply_services rs (apply_services qs P)"
  by (simp_all add: apply_services_def)

lemma requests_ok_append [simp]:
  "requests_ok lb svc P (qs @ rs) \<longleftrightarrow> requests_ok lb svc P qs \<and> requests_ok lb svc (apply_services qs P) rs"
  by (induction qs arbitrary: P) simp_all

section \<open>Correctness of the loops\<close>

lemma listen_ports_set: "set (listen_ports lb) = hs_listen_port ` set (lb_services lb)"
proof -
  have "set (foldl (\<lambda>ps s. add_key (hs_listen_port s) ps) acc ss) = set acc \<union> hs_listen_port ` set ss" for ss :: "hclb_service list" and acc
    by (induction ss arbitrary: acc) (auto simp: add_key_def)
  then show ?thesis by (simp add: listen_ports_def)
qed

lemma listen_ports_distinct: "distinct (listen_ports lb)"
proof -
  have "distinct (foldl (\<lambda>ps s. add_key (hs_listen_port s) ps) acc ss)" if "distinct acc" for ss :: "hclb_service list" and acc
    using that by (induction ss arbitrary: acc) (auto simp: add_key_def)
  then show ?thesis by (simp add: listen_ports_def)
qed

lemma changes_cert_reads: "\<forall>c \<in> set cs. cert_read c \<Longrightarrow> changes cs = []"
proof (induction cs)
  case (Cons c cs)
  then have "accepted c = None" by (cases c rule: cert_read.cases) auto
  with Cons show ?case by simp
qed simp

lemma valid_send_service:
  assumes "\<And>cs. changes cs = [q] \<Longrightarrow> Q cs (Inr (st\<lparr>ss_changed := True\<rparr>))"
    and "\<And>cs e. changes cs = [] \<or> changes cs = [q] \<Longrightarrow> Q cs (Inl (ss_changed st, Some e))"
  shows "valid (send_service L q st) Q"
  unfolding send_service_def
  by (intro valid_rules valid_do_and_watch) (auto intro!: valid_rules assms)

text \<open>The effect of the request for one port.\<close>

definition port_request :: "load_balancer \<Rightarrow> service \<Rightarrow> service_port \<Rightarrow> bool \<Rightarrow> lb_request \<Rightarrow> bool" where
  "port_request lb svc p exists q \<longleftrightarrow>
     (\<exists>cs. q = (if exists then UpdateService (lb_id lb) (sp_port p) (spec_opts False svc p cs)
                else AddService (lb_id lb) (spec_opts True svc p cs)))"

lemma valid_service_body:
  assumes "\<And>cs q. changes cs = [q] \<Longrightarrow> port_request lb svc p (sp_port p \<in> set (ss_ports st)) q \<Longrightarrow>
      Q cs (Inr (st\<lparr>ss_ports := removeAll (sp_port p) (ss_ports st), ss_changed := True\<rparr>))"
    and "\<And>cs e. changes cs = [] \<or> (\<exists>q. changes cs = [q] \<and> port_request lb svc p (sp_port p \<in> set (ss_ports st)) q) \<Longrightarrow>
      Q cs (Inl (ss_changed st, Some e))"
  shows "valid (service_body L lb svc p st) Q"
proof (cases "sp_port p \<in> set (ss_ports st)")
  case True
  show ?thesis
    unfolding service_body_def Let_def using True
    by (auto intro!: valid_bind valid_mono [OF valid_buildUpdateServiceOpts] valid_send_service valid_return
        split: sum.splits simp: built_def changes_cert_reads)
      (auto intro!: assms simp: port_request_def changes_cert_reads)
next
  case False
  show ?thesis
    unfolding service_body_def Let_def using False
    by (auto intro!: valid_bind valid_mono [OF valid_buildAddServiceOpts] valid_send_service valid_return
        split: sum.splits simp: built_def changes_cert_reads simp del: removeAll_id)
      (auto intro!: assms simp: port_request_def changes_cert_reads simp del: removeAll_id)
qed

text \<open>What the first loop has done after the ports \<open>seen\<close>, from the listen ports \<open>P\<close>.\<close>

definition ports_set :: "service_port list \<Rightarrow> int set" where
  "ports_set ps = sp_port ` set ps"

lemma ports_set_snoc [simp]: "ports_set [] = {}" "ports_set (ps @ [p]) = insert (sp_port p) (ports_set ps)"
  by (auto simp: ports_set_def)

definition services_so_far :: "load_balancer \<Rightarrow> service \<Rightarrow> int set \<Rightarrow> service_port list \<Rightarrow> api_call list \<Rightarrow> svc_state \<Rightarrow> bool" where
  "services_so_far lb svc P seen cs st \<longleftrightarrow> requests_ok lb svc P (changes cs) \<and>
     apply_services (changes cs) P = P \<union> ports_set seen \<and>
     set (ss_ports st) = P - ports_set seen \<and> distinct (ss_ports st) \<and> (ss_changed st \<longleftrightarrow> changes cs \<noteq> [])"

lemma spec_opts_listen: "so_listen_port (spec_opts add svc p cs) = (if add then Some (sp_port p) else None)"
  by (simp add: spec_opts_def)

lemma service_request_step:
  assumes "port_request lb svc p (sp_port p \<in> P - S) q" and "p \<in> set (svc_ports svc)" and "sp_port p \<notin> S"
  shows "service_request_ok lb svc (P \<union> S) q" and "apply_service q (P \<union> S) = P \<union> insert (sp_port p) S"
  using assms by (auto simp: port_request_def spec_opts_listen split: if_splits, blast+)

lemma services_loop:
  assumes "distinct (map sp_port (svc_ports svc))"
    and "services_so_far lb svc P [] cs0 st0"
  shows "valid (range_loop (service_body L lb svc) (svc_ports svc) st0)
    (\<lambda>cs r. case r of Inl (ch, err) \<Rightarrow> requests_ok lb svc P (changes (cs0 @ cs)) \<and> err \<noteq> None
      | Inr st \<Rightarrow> services_so_far lb svc P (svc_ports svc) (cs0 @ cs) st)"
proof (rule valid_range_loop [where I = "\<lambda>seen cs st. services_so_far lb svc P seen (cs0 @ cs) st"
      and E = "\<lambda>cs (ch, err). requests_ok lb svc P (changes (cs0 @ cs)) \<and> err \<noteq> None"])
  fix p st cs seen rest
  assume split: "svc_ports svc = seen @ p # rest" and I: "services_so_far lb svc P seen (cs0 @ cs) st"
  have new: "sp_port p \<notin> ports_set seen" using assms(1) split by (auto simp: ports_set_def)
  have ports: "set (ss_ports st) = P - ports_set seen" using I by (simp add: services_so_far_def)
  have step: "service_request_ok lb svc (P \<union> ports_set seen) q"
    "apply_service q (P \<union> ports_set seen) = P \<union> insert (sp_port p) (ports_set seen)"
    if "port_request lb svc p (sp_port p \<in> set (ss_ports st)) q" for q
    using service_request_step [of lb svc p P "ports_set seen" q] that split new unfolding ports by auto
  show "valid (service_body L lb svc p st) (\<lambda>cs' r. case r of
      Inl res \<Rightarrow> (case res of (ch, err) \<Rightarrow> requests_ok lb svc P (changes (cs0 @ cs @ cs')) \<and> err \<noteq> None)
      | Inr st' \<Rightarrow> services_so_far lb svc P (seen @ [p]) (cs0 @ cs @ cs') st')"
    by (rule valid_service_body) (use I step in \<open>auto simp: services_so_far_def distinct_removeAll\<close>)
qed (use assms(2) in simp)

lemma delete_loop:
  assumes "requests_ok lb svc P (changes cs0)" and "apply_services (changes cs0) P = Q"
    and "distinct ks" and "set ks \<subseteq> Q" and "set ks \<inter> ports_set (svc_ports svc) = {}"
    and "ch0 \<longleftrightarrow> changes cs0 \<noteq> []"
  shows "valid (range_loop (delete_body L lb) ks ch0)
    (\<lambda>cs r. case r of Inl (ch, err) \<Rightarrow> requests_ok lb svc P (changes (cs0 @ cs)) \<and> err \<noteq> None
      | Inr ch \<Rightarrow> requests_ok lb svc P (changes (cs0 @ cs)) \<and>
          apply_services (changes (cs0 @ cs)) P = Q - set ks \<and> (ch \<longleftrightarrow> changes (cs0 @ cs) \<noteq> []))"
proof (rule valid_range_loop [where E = "\<lambda>cs (ch, err). requests_ok lb svc P (changes (cs0 @ cs)) \<and> err \<noteq> None"
      and I = "\<lambda>seen cs ch. requests_ok lb svc P (changes (cs0 @ cs)) \<and>
          apply_services (changes (cs0 @ cs)) P = Q - set seen \<and> (ch \<longleftrightarrow> changes (cs0 @ cs) \<noteq> [])"])
  fix k ch cs seen rest
  assume split: "ks = seen @ k # rest" and I: "requests_ok lb svc P (changes (cs0 @ cs)) \<and>
          apply_services (changes (cs0 @ cs)) P = Q - set seen \<and> (ch \<longleftrightarrow> changes (cs0 @ cs) \<noteq> [])"
  have "service_request_ok lb svc (Q - set seen) (DeleteService (lb_id lb) k)"
    using assms(3,4,5) split by (auto simp: ports_set_def)
  with I show "valid (delete_body L lb k ch) (\<lambda>cs' r. case r of
      Inl res \<Rightarrow> (case res of (ch, err) \<Rightarrow> requests_ok lb svc P (changes (cs0 @ cs @ cs')) \<and> err \<noteq> None)
      | Inr ch' \<Rightarrow> requests_ok lb svc P (changes (cs0 @ cs @ cs')) \<and>
          apply_services (changes (cs0 @ cs @ cs')) P = Q - set (seen @ [k]) \<and> (ch' \<longleftrightarrow> changes (cs0 @ cs @ cs') \<noteq> []))"
    unfolding delete_body_def request_defs
    by (auto intro!: valid_rules split: sum.splits option.splits)
qed (use assms in auto)

section \<open>ReconcileHCLBServices\<close>

lemma valid_managed_certificate:
  "valid (reconcileManagedCertificate L svc) (\<lambda>cs err. changes cs = [] \<and>
     (\<forall>c \<in> set cs. \<exists>opts r. c = CertCreate opts r \<and> cco_name opts = managed_name svc \<and> cco_type opts = ''managed''))"
  unfolding reconcileManagedCertificate_def Let_def
  by (auto intro!: valid_rules valid_CreateManagedCertificate)

text \<open>C7: The services of the load balancer follow the ports of the Kubernetes service. On every run
  each accepted change was acceptable at its time: a service is only added for a port that has none
  yet, only updated where one exists, only deleted where one exists that the Kubernetes service does
  not have, always with the options its annotations specify. When no error is reported, the listen
  ports of the load balancer are exactly the service's ports, and the changed flag says whether
  anything was changed.\<close>

theorem services_follow_ports:
  assumes "runs (ReconcileHCLBServices L lb svc) cs (ch, err)"
    and "distinct (map sp_port (svc_ports svc))"
  shows "requests_ok lb svc (set (map hs_listen_port (lb_services lb))) (changes cs) \<and>
    (err = None \<longrightarrow>
       apply_services (changes cs) (set (map hs_listen_port (lb_services lb))) = set (map sp_port (svc_ports svc)) \<and>
       (ch \<longleftrightarrow> changes cs \<noteq> []))"
proof -
  let ?P = "hs_listen_port ` set (lb_services lb)"
  have "valid (ReconcileHCLBServices L lb svc) (\<lambda>cs (ch, err). requests_ok lb svc ?P (changes cs) \<and>
    (err = None \<longrightarrow> apply_services (changes cs) ?P = ports_set (svc_ports svc) \<and> (ch \<longleftrightarrow> changes cs \<noteq> [])))"
    unfolding ReconcileHCLBServices_def
  proof (rule valid_bind, rule valid_mono [OF valid_managed_certificate], goal_cases)
    case (1 cs0 err)
    then have init: "services_so_far lb svc ?P [] cs0 \<lparr>ss_ports = listen_ports lb, ss_changed = False\<rparr>"
      by (simp add: services_so_far_def listen_ports_set listen_ports_distinct)
    show ?case
    proof (cases err)
      case None
      show ?thesis
        unfolding None option.case
      proof (rule valid_bind, rule valid_mono [OF services_loop [OF assms(2) init]], goal_cases)
        case (1 cs1 r)
        show ?case
        proof (cases r)
          case (Inr st)
          with 1 have st: "services_so_far lb svc ?P (svc_ports svc) (cs0 @ cs1) st" by simp
          have "valid (range_loop (delete_body L lb) (map_order (l_ord_ports L) (ss_ports st)) (ss_changed st))
            (\<lambda>cs r. case r of Inl (ch, err) \<Rightarrow> requests_ok lb svc ?P (changes ((cs0 @ cs1) @ cs)) \<and> err \<noteq> None
              | Inr ch \<Rightarrow> requests_ok lb svc ?P (changes ((cs0 @ cs1) @ cs)) \<and>
                  apply_services (changes ((cs0 @ cs1) @ cs)) ?P =
                    (?P \<union> ports_set (svc_ports svc)) - set (map_order (l_ord_ports L) (ss_ports st)) \<and>
                  (ch \<longleftrightarrow> changes ((cs0 @ cs1) @ cs) \<noteq> []))"
            using st by (intro delete_loop) (auto simp: services_so_far_def)
          moreover have "(?P \<union> ports_set (svc_ports svc)) - set (ss_ports st) = ports_set (svc_ports svc)"
            using st by (auto simp: services_so_far_def)
          ultimately show ?thesis
            unfolding Inr sum.case
            by (intro valid_bind) (auto elim!: valid_mono intro!: valid_return split: sum.splits)
        qed (use 1 in \<open>auto intro!: valid_return\<close>)
      qed
    qed (use 1 in \<open>auto intro!: valid_return\<close>)
  qed
  from valid_runs [OF this assms(1)] show ?thesis by (simp add: ports_set_def)
qed

definition sample_ports_service :: service where
  "sample_ports_service = (annotated [])\<lparr>svc_ports := [\<lparr>sp_port = 80, sp_node_port = 30080\<rparr>, \<lparr>sp_port = 443, sp_node_port = 30443\<rparr>]\<rparr>"

definition sample_service_lb :: load_balancer where
  "sample_service_lb = sample_lb\<lparr>lb_services := map (\<lambda>p. \<lparr>hs_protocol = ''tcp'', hs_listen_port = p,
     hs_proxyprotocol = False, hs_cookie_name = '''', hs_cookie_lifetime = 0, hs_certificates = [], hs_redirect_http = False,
     hs_health_check = \<lparr>hc_protocol = ''tcp'', hc_port = 1, hc_interval = 0, hc_timeout = 0, hc_retries = 0, hc_http = None\<rparr>\<rparr>)
     [80, 8080]\<rparr>"

theorem services_follow_ports_witness:
  "\<exists>cs. runs (ReconcileHCLBServices (ops_on quiet_api) sample_service_lb sample_ports_service) cs (True, None) \<and>
     apply_services (changes cs) {80, 8080} = {80, 443}"
proof -
  let ?m = "ReconcileHCLBServices (ops_on quiet_api) sample_service_lb sample_ports_service"
  have run: "runs ?m (snd (outcome ?m sample_globals ())) (True, None)"
    by (rule runs_outcome) code_simp
  have "distinct (map sp_port (svc_ports sample_ports_service))" by (simp add: sample_ports_service_def)
  note services_follow_ports [OF run this]
  then have "apply_services (changes (snd (outcome ?m sample_globals ()))) {80, 8080} = {80, 443}"
    by (simp add: sample_ports_service_def sample_service_lb_def)
  with run show ?thesis by blast
qed

end
