(* ===== verification/LBOpsCorrect.thy ===== *)
theory LBOpsCorrect
  imports LBOps Samples
begin

text \<open>
  Correctness of \<open>ReconcileHCLB\<close>: the settings are reconciled by a plan of change requests that
  is a function of the load balancer and the service; every run sends a prefix of the plan, a
  successful one all of it, and the plan settles the load balancer.
\<close>

section \<open>The plan\<close>

definition rdns_plan :: "annot \<Rightarrow> string \<Rightarrow> ip \<Rightarrow> load_balancer \<Rightarrow> service \<Rightarrow> lb_request list" where
  "rdns_plan n current addr lb svc = (case StringFromService n svc of
     Some v \<Rightarrow> if v = current then [] else [ChangeDNSPtr (lb_id lb) (ip_text addr) v] | None \<Rightarrow> [])"

definition algorithm_plan :: "load_balancer \<Rightarrow> service \<Rightarrow> lb_request list" where
  "algorithm_plan lb svc = (case LBAlgorithmTypeFromService LBAlgorithmType svc of
     Inr a \<Rightarrow> if a = lb_algorithm lb then [] else [ChangeAlgorithm (lb_id lb) a] | Inl e \<Rightarrow> [])"

definition type_plan :: "load_balancer \<Rightarrow> service \<Rightarrow> lb_request list" where
  "type_plan lb svc = (case StringFromService LBType svc of
     Some t \<Rightarrow> if lb_type lb = Some t then [] else [ChangeType (lb_id lb) t] | None \<Rightarrow> [])"

definition detach_plan :: "int \<Rightarrow> load_balancer \<Rightarrow> private_net list \<Rightarrow> lb_request list" where
  "detach_plan nw lb pns =
     map (\<lambda>pn. DetachFromNetwork (lb_id lb) (pn_network pn)) (filter (\<lambda>pn. nw \<noteq> pn_network pn) pns)"

definition attach_plan :: "int \<Rightarrow> load_balancer \<Rightarrow> lb_request list" where
  "attach_plan nw lb = (if nw = 0 \<or> lbAttached lb nw then [] else [AttachToNetwork (lb_id lb) nw])"

definition public_plan :: "load_balancer \<Rightarrow> service \<Rightarrow> lb_request list" where
  "public_plan lb svc = (case BoolFromService LBDisablePublicNetwork svc of
     Inr d \<Rightarrow> if d = (\<not> lb_public_enabled lb) then []
       else [if d then DisablePublicInterface (lb_id lb) else EnablePublicInterface (lb_id lb)]
   | Inl e \<Rightarrow> [])"

definition settings_plan :: "int \<Rightarrow> load_balancer \<Rightarrow> service \<Rightarrow> lb_request list" where
  "settings_plan nw lb svc =
     rdns_plan LBPublicIPv4RDNS (lb_ipv4_ptr lb) (lb_ipv4 lb) lb svc @
     rdns_plan LBPublicIPv6RDNS (lb_ipv6_ptr lb) (lb_ipv6 lb) lb svc @
     algorithm_plan lb svc @ type_plan lb svc @ detach_plan nw lb (lb_private_net lb) @
     attach_plan nw lb @ public_plan lb svc"

section \<open>Following a plan\<close>

text \<open>The network API answers a lookup by ID with the network of that ID.\<close>

definition networks_truthful :: "api_call list \<Rightarrow> bool" where
  "networks_truthful cs \<longleftrightarrow> (\<forall>i nw. NetworkGetByID i (Inr (Some nw)) \<in> set cs \<longrightarrow> nw_id nw = i)"

lemma networks_truthful_simps [simp]:
  "networks_truthful []"
  "networks_truthful (c # cs) \<longleftrightarrow> (case c of NetworkGetByID i (Inr (Some nw)) \<Rightarrow> nw_id nw = i | _ \<Rightarrow> True) \<and> networks_truthful cs"
  "networks_truthful (cs @ ds) \<longleftrightarrow> networks_truthful cs \<and> networks_truthful ds"
  by (auto simp: networks_truthful_def split: api_call.splits sum.splits option.splits)

text \<open>The log of a step with result \<open>(changed, err)\<close> follows a plan.\<close>

definition follows :: "lb_request list \<Rightarrow> api_call list \<Rightarrow> bool \<times> goerr option \<Rightarrow> bool" where
  "follows plan cs res \<longleftrightarrow> (networks_truthful cs \<longrightarrow> prefix (changes cs) plan \<and> only_requests (\<lambda>q. q \<in> set plan) cs \<and>
     (snd res = None \<longrightarrow> changes cs = plan \<and> fst res = (plan \<noteq> [])))"

lemma follows_do_and_watch:
  "valid (do_and_watch A op q) (\<lambda>cs err. follows [q] cs (changed_unless_error err))"
  by (rule valid_do_and_watch) (auto simp: follows_def changed_unless_error_def)

lemma follows_changed:
  "valid (do { err \<leftarrow> do_and_watch A op q; ret (changed_unless_error err) }) (follows [q])"
  by (rule valid_bind, rule valid_mono [OF follows_do_and_watch]) (auto intro: valid_return)

lemma follows_nothing: "follows [] [] (False, err)" "valid (ret (False, err)) (follows [])"
  by (auto simp: follows_def intro!: valid_return)

lemma follows_error: "valid (ret (ch, Some e)) (follows plan)"
  by (auto simp: follows_def intro!: valid_return)

lemma follows_changeRDNS:
  "valid (changeRDNS L op n cur addr lb svc) (follows (rdns_plan n cur addr lb svc))"
  by (auto simp: changeRDNS_def rdns_plan_def intro!: follows_nothing follows_changed split: option.split)

lemma follows_changeAlgorithm: "valid (changeAlgorithm L lb svc) (follows (algorithm_plan lb svc))"
  by (auto simp: changeAlgorithm_def algorithm_plan_def Let_def intro!: follows_nothing follows_changed split: sum.split)

lemma follows_changeType: "valid (changeType L lb svc) (follows (type_plan lb svc))"
  by (auto simp: changeType_def type_plan_def intro!: follows_nothing follows_changed follows_error split: option.split)

lemma follows_togglePublicInterface: "valid (togglePublicInterface L lb svc) (follows (public_plan lb svc))"
  by (auto simp: togglePublicInterface_def public_plan_def Let_def intro!: follows_nothing follows_changed split: sum.split)

lemma follows_attachToNetwork:
  "valid (attachToNetwork L lb) (follows (attach_plan (l_network_id L) lb))"
  unfolding attachToNetwork_def request_defs Let_def
  by (auto intro!: valid_rules simp: follows_def attach_plan_def changed_unless_error_def
      split: sum.splits option.splits)

lemma follows_detachFromNetwork:
  "valid (detachFromNetwork L lb) (follows (detach_plan (l_network_id L) lb (lb_private_net lb)))"
  unfolding detachFromNetwork_def
proof (rule valid_bind, rule valid_mono [OF valid_range_loop [where
      I = "\<lambda>seen cs changed. follows (detach_plan (l_network_id L) lb seen) cs (changed, None)"
      and E = "\<lambda>cs (changed, e). follows (detach_plan (l_network_id L) lb (lb_private_net lb)) cs (changed, Some e)"]])
  fix pn changed cs seen rest
  assume split: "lb_private_net lb = seen @ pn # rest"
    and I: "follows (detach_plan (l_network_id L) lb seen) cs (changed, None)"
  show "valid (detach_body L lb pn changed) (\<lambda>cs' r. case r of
      Inl res \<Rightarrow> (case res of (changed, e) \<Rightarrow> follows (detach_plan (l_network_id L) lb (lb_private_net lb)) (cs @ cs') (changed, Some e))
      | Inr changed' \<Rightarrow> follows (detach_plan (l_network_id L) lb (seen @ [pn])) (cs @ cs') (changed', None))"
  proof (cases "l_network_id L = pn_network pn")
    case True
    then show ?thesis using I by (auto simp: detach_body_def detach_plan_def intro!: valid_return)
  next
    case False
    then have plan: "detach_plan (l_network_id L) lb (seen @ [pn]) =
        detach_plan (l_network_id L) lb seen @ [DetachFromNetwork (lb_id lb) (pn_network pn)]"
      "detach_plan (l_network_id L) lb (lb_private_net lb) = detach_plan (l_network_id L) lb seen @
        DetachFromNetwork (lb_id lb) (pn_network pn) # detach_plan (l_network_id L) lb rest"
      using split by (simp_all add: detach_plan_def)
    show ?thesis
      unfolding detach_body_def plan
      using I False by (auto simp: follows_def intro!: valid_rules valid_do_and_watch elim!: only_requests_mono)
  qed
qed (auto simp: follows_def detach_plan_def intro!: valid_return split: sum.splits)

text \<open>The steps one after the other follow the concatenated plan.\<close>

lemma follows_steps:
  assumes "list_all2 (\<lambda>m p. valid m (follows p)) ms plans"
    and "networks_truthful cs0 \<Longrightarrow> changes cs0 = plan0 \<and> only_requests (\<lambda>q. q \<in> set plan0) cs0 \<and> ch0 = (b \<or> plan0 \<noteq> [])"
  shows "valid (reconcile_steps op ch0 ms) (\<lambda>cs res. networks_truthful (cs0 @ cs) \<longrightarrow>
     prefix (changes (cs0 @ cs)) (plan0 @ concat plans) \<and> only_requests (\<lambda>q. q \<in> set (plan0 @ concat plans)) (cs0 @ cs) \<and>
     (snd res = None \<longrightarrow> changes (cs0 @ cs) = plan0 @ concat plans \<and> fst res = (b \<or> plan0 @ concat plans \<noteq> [])))"
  using assms
proof (induction ms plans arbitrary: cs0 plan0 ch0 rule: list_all2_induct)
  case Nil
  then show ?case by (auto intro!: valid_return)
next
  case (Cons m ms p plans)
  show ?case
    unfolding reconcile_steps.simps
  proof (rule valid_bind, rule valid_mono [OF Cons.hyps(1)], goal_cases)
    case (1 cs1 r)
    obtain c err where r: "r = (c, err)" by (cases r)
    show ?case
    proof (cases err)
      case (Some e)
      then show ?thesis
        using 1 Cons.prems unfolding r
        by (auto simp: follows_def intro!: valid_return elim!: only_requests_mono prefix_prefix)
    next
      case None
      have "networks_truthful (cs0 @ cs1) \<Longrightarrow> changes (cs0 @ cs1) = plan0 @ p \<and>
          only_requests (\<lambda>q. q \<in> set (plan0 @ p)) (cs0 @ cs1) \<and> (ch0 \<or> c) = (b \<or> plan0 @ p \<noteq> [])"
        using 1 Cons.prems None unfolding r by (auto simp: follows_def elim!: only_requests_mono)
      from Cons.IH [OF this] show ?thesis unfolding r None by simp
    qed
  qed
qed

section \<open>ReconcileHCLB\<close>

text \<open>The load balancer after the first step: name and labels may be new, nothing else is.\<close>

definition same_settings :: "load_balancer \<Rightarrow> load_balancer \<Rightarrow> bool" where
  "same_settings lb lb' \<longleftrightarrow> (\<exists>n ls. lb' = lb\<lparr>lb_name := n, lb_labels := ls\<rparr>)"

lemma settings_plan_same:
  assumes "same_settings lb lb'"
  shows "settings_plan nw lb' svc = settings_plan nw lb svc"
proof -
  have eqs: "lb_id lb' = lb_id lb" "lb_ipv4_ptr lb' = lb_ipv4_ptr lb" "lb_ipv6_ptr lb' = lb_ipv6_ptr lb"
    "lb_ipv4 lb' = lb_ipv4 lb" "lb_ipv6 lb' = lb_ipv6 lb" "lb_algorithm lb' = lb_algorithm lb"
    "lb_type lb' = lb_type lb" "lb_private_net lb' = lb_private_net lb" "lb_public_enabled lb' = lb_public_enabled lb"
    using assms by (auto simp: same_settings_def)
  show ?thesis
    unfolding settings_plan_def rdns_plan_def algorithm_plan_def type_plan_def detach_plan_def attach_plan_def
      public_plan_def lbAttached_def eqs ..
qed

lemma same_settings_refl: "same_settings lb lb"
  unfolding same_settings_def by (rule exI [of _ "lb_name lb"], rule exI [of _ "lb_labels lb"]) simp

lemma valid_changeHCLBInfo:
  "valid (changeHCLBInfo L lb svc) (\<lambda>cs (lb', c, err). same_settings lb lb' \<and> networks_truthful cs \<and> changes cs = [] \<and>
     (\<forall>x \<in> set cs. \<exists>opts r. x = LbUpdate (lb_id lb) opts r) \<and>
     (err = None \<longrightarrow> c = (cs \<noteq> []) \<and> (cs \<noteq> [] \<longleftrightarrow> update_labels svc lb \<noteq> None \<or> update_name svc lb \<noteq> None)))"
  unfolding changeHCLBInfo_def request_defs
  by (auto intro!: valid_rules same_settings_refl split: sum.splits) (auto simp: same_settings_def)

section \<open>What the plan achieves\<close>

fun apply_setting :: "lb_request \<Rightarrow> load_balancer \<Rightarrow> load_balancer" where
  "apply_setting (ChangeDNSPtr l x v) lb = lb\<lparr>lb_ipv4_ptr := (if x = ip_text (lb_ipv4 lb) then v else lb_ipv4_ptr lb),
     lb_ipv6_ptr := (if x = ip_text (lb_ipv6 lb) then v else lb_ipv6_ptr lb)\<rparr>"
| "apply_setting (ChangeAlgorithm l a) lb = lb\<lparr>lb_algorithm := a\<rparr>"
| "apply_setting (ChangeType l t) lb = lb\<lparr>lb_type := Some t\<rparr>"
| "apply_setting (AttachToNetwork l n) lb = lb\<lparr>lb_private_net := lb_private_net lb @ [\<lparr>pn_network = n, pn_ip = []\<rparr>]\<rparr>"
| "apply_setting (DetachFromNetwork l n) lb = lb\<lparr>lb_private_net := filter (\<lambda>pn. pn_network pn \<noteq> n) (lb_private_net lb)\<rparr>"
| "apply_setting (EnablePublicInterface l) lb = lb\<lparr>lb_public_enabled := True\<rparr>"
| "apply_setting (DisablePublicInterface l) lb = lb\<lparr>lb_public_enabled := False\<rparr>"
| "apply_setting q lb = lb"

definition apply_settings :: "lb_request list \<Rightarrow> load_balancer \<Rightarrow> load_balancer" where
  "apply_settings qs lb = fold apply_setting qs lb"

lemma apply_settings_simps [simp]:
  "apply_settings [] lb = lb" "apply_settings (q # qs) lb = apply_settings qs (apply_setting q lb)"
  "apply_settings (qs @ rs) lb = apply_settings rs (apply_settings qs lb)"
  by (simp_all add: apply_settings_def)

text \<open>The load balancer has the settings that the service's annotations and the network call for.\<close>

definition settled :: "int \<Rightarrow> load_balancer \<Rightarrow> service \<Rightarrow> bool" where
  "settled nw lb svc \<longleftrightarrow>
     (\<forall>v. StringFromService LBPublicIPv4RDNS svc = Some v \<longrightarrow> lb_ipv4_ptr lb = v) \<and>
     (\<forall>v. StringFromService LBPublicIPv6RDNS svc = Some v \<longrightarrow> lb_ipv6_ptr lb = v) \<and>
     (\<forall>a. LBAlgorithmTypeFromService LBAlgorithmType svc = Inr a \<longrightarrow> lb_algorithm lb = a) \<and>
     (\<forall>t. StringFromService LBType svc = Some t \<longrightarrow> lb_type lb = Some t) \<and>
     (\<forall>pn \<in> set (lb_private_net lb). pn_network pn = nw) \<and> (nw \<noteq> 0 \<longrightarrow> lb_private_net lb \<noteq> []) \<and>
     (\<forall>d. BoolFromService LBDisablePublicNetwork svc = Inr d \<longrightarrow> lb_public_enabled lb = (\<not> d))"

lemma apply_rdns_plan:
  assumes "ip_text (lb_ipv4 lb) \<noteq> ip_text (lb_ipv6 lb)"
  shows "apply_settings (rdns_plan LBPublicIPv4RDNS (lb_ipv4_ptr lb) (lb_ipv4 lb) l svc) lb =
      lb\<lparr>lb_ipv4_ptr := (case StringFromService LBPublicIPv4RDNS svc of Some v \<Rightarrow> v | None \<Rightarrow> lb_ipv4_ptr lb)\<rparr>"
    and "apply_settings (rdns_plan LBPublicIPv6RDNS (lb_ipv6_ptr lb) (lb_ipv6 lb) l svc) (lb\<lparr>lb_ipv4_ptr := x\<rparr>) =
      lb\<lparr>lb_ipv4_ptr := x, lb_ipv6_ptr := (case StringFromService LBPublicIPv6RDNS svc of Some v \<Rightarrow> v | None \<Rightarrow> lb_ipv6_ptr lb)\<rparr>"
  using assms by (auto simp: rdns_plan_def split: option.split)

lemma apply_algorithm_plan:
  "apply_settings (algorithm_plan l svc) lb = lb\<lparr>lb_algorithm := (case LBAlgorithmTypeFromService LBAlgorithmType svc of
     Inr a \<Rightarrow> if a = lb_algorithm l then lb_algorithm lb else a | Inl e \<Rightarrow> lb_algorithm lb)\<rparr>"
  by (auto simp: algorithm_plan_def split: sum.split)

lemma apply_type_plan:
  "apply_settings (type_plan l svc) lb = lb\<lparr>lb_type := (case StringFromService LBType svc of
     Some t \<Rightarrow> if lb_type l = Some t then lb_type lb else Some t | None \<Rightarrow> lb_type lb)\<rparr>"
  by (auto simp: type_plan_def split: option.split)

lemma apply_detach_plan:
  "apply_settings (detach_plan nw l pns) lb = lb\<lparr>lb_private_net := filter (\<lambda>pn. pn_network pn = nw \<or>
     pn_network pn \<notin> pn_network ` set pns) (lb_private_net lb)\<rparr>"
proof (induction pns arbitrary: lb)
  case (Cons p pns)
  have "detach_plan nw l (p # pns) = (if nw \<noteq> pn_network p then [DetachFromNetwork (lb_id l) (pn_network p)] else []) @ detach_plan nw l pns"
    by (simp add: detach_plan_def)
  then show ?case
    by (auto simp: Cons.IH intro!: arg_cong [where f = "\<lambda>x. lb\<lparr>lb_private_net := x\<rparr>"] filter_cong)
qed (simp add: detach_plan_def)

lemma apply_public_plan:
  "apply_settings (public_plan l svc) lb = lb\<lparr>lb_public_enabled := (case BoolFromService LBDisablePublicNetwork svc of
     Inr d \<Rightarrow> if d = (\<not> lb_public_enabled l) then lb_public_enabled lb else \<not> d | Inl e \<Rightarrow> lb_public_enabled lb)\<rparr>"
  by (auto simp: public_plan_def split: sum.split)

text \<open>The plan settles the load balancer, and it is empty exactly when there is nothing to settle.\<close>

lemma plan_settles:
  assumes "ip_text (lb_ipv4 lb) \<noteq> ip_text (lb_ipv6 lb)"
  shows "settled nw (apply_settings (settings_plan nw lb svc) lb) svc"
proof -
  have attach: "apply_settings (attach_plan nw lb) x = x\<lparr>lb_private_net := (if nw = 0 \<or> lbAttached lb nw
      then lb_private_net x else lb_private_net x @ [\<lparr>pn_network = nw, pn_ip = []\<rparr>])\<rparr>" for x
    by (simp add: attach_plan_def)
  have nets: "filter (\<lambda>pn. pn_network pn = nw \<or> pn_network pn \<notin> pn_network ` set (lb_private_net lb)) (lb_private_net lb)
      = filter (\<lambda>pn. pn_network pn = nw) (lb_private_net lb)"
    by (rule filter_cong) auto
  show ?thesis
    unfolding settings_plan_def apply_settings_simps apply_rdns_plan [OF assms] apply_algorithm_plan apply_type_plan
      apply_detach_plan attach apply_public_plan settled_def
    by (auto simp: nets lbAttached_def list_ex_iff filter_empty_conv split: option.splits sum.splits if_splits)
qed

lemma plan_empty_iff: "settings_plan nw lb svc = [] \<longleftrightarrow> settled nw lb svc"
proof -
  have "rdns_plan n cur addr lb svc = [] \<longleftrightarrow> (\<forall>v. StringFromService n svc = Some v \<longrightarrow> cur = v)" for n cur addr
    by (auto simp: rdns_plan_def split: option.split)
  moreover have "algorithm_plan lb svc = [] \<longleftrightarrow> (\<forall>a. LBAlgorithmTypeFromService LBAlgorithmType svc = Inr a \<longrightarrow> lb_algorithm lb = a)"
    by (auto simp: algorithm_plan_def split: sum.split)
  moreover have "type_plan lb svc = [] \<longleftrightarrow> (\<forall>t. StringFromService LBType svc = Some t \<longrightarrow> lb_type lb = Some t)"
    by (auto simp: type_plan_def split: option.split)
  moreover have "detach_plan nw lb (lb_private_net lb) = [] \<longleftrightarrow> (\<forall>pn \<in> set (lb_private_net lb). pn_network pn = nw)"
    by (auto simp: detach_plan_def filter_empty_conv)
  moreover have "(\<forall>pn \<in> set (lb_private_net lb). pn_network pn = nw) \<Longrightarrow>
      attach_plan nw lb = [] \<longleftrightarrow> (nw \<noteq> 0 \<longrightarrow> lb_private_net lb \<noteq> [])"
    by (cases "lb_private_net lb") (auto simp: attach_plan_def lbAttached_def)
  moreover have "public_plan lb svc = [] \<longleftrightarrow> (\<forall>d. BoolFromService LBDisablePublicNetwork svc = Inr d \<longrightarrow> lb_public_enabled lb = (\<not> d))"
    by (auto simp: public_plan_def split: sum.split)
  ultimately show ?thesis unfolding settings_plan_def settled_def append_is_Nil_conv by blast
qed

text \<open>The log of a run of \<open>ReconcileHCLB\<close>: at most one update of name and labels, then the plan.\<close>

lemma valid_ReconcileHCLB:
  "valid (ReconcileHCLB L lb svc) (\<lambda>cs (lb', c, err). networks_truthful cs \<longrightarrow>
     same_settings lb lb' \<and> prefix (changes cs) (settings_plan (l_network_id L) lb svc) \<and>
     (err = None \<longrightarrow> changes cs = settings_plan (l_network_id L) lb svc \<and>
        (c \<longleftrightarrow> \<not> settled (l_network_id L) lb svc \<or> update_labels svc lb \<noteq> None \<or> update_name svc lb \<noteq> None)))"
  unfolding ReconcileHCLB_def Let_def
proof (rule valid_bind, rule valid_mono [OF valid_changeHCLBInfo], goal_cases)
  case (1 cs0 r)
  obtain lb1 c err where r: "r = (lb1, c, err)" by (cases r)
  show ?case
  proof (cases err)
    case (Some e)
    then show ?thesis using 1 unfolding r by (auto intro!: valid_return)
  next
    case None
    let ?upd = "update_labels svc lb \<noteq> None \<or> update_name svc lb \<noteq> None"
    let ?plans = "[rdns_plan LBPublicIPv4RDNS (lb_ipv4_ptr lb1) (lb_ipv4 lb1) lb1 svc,
       rdns_plan LBPublicIPv6RDNS (lb_ipv6_ptr lb1) (lb_ipv6 lb1) lb1 svc, algorithm_plan lb1 svc, type_plan lb1 svc,
       detach_plan (l_network_id L) lb1 (lb_private_net lb1), attach_plan (l_network_id L) lb1, public_plan lb1 svc]"
    have same: "same_settings lb lb1" and "changes cs0 = []" "c = ?upd"
      and "only_requests (\<lambda>q. q \<in> set []) []" using 1 None unfolding r by auto
    have plan: "concat ?plans = settings_plan (l_network_id L) lb svc"
      using settings_plan_same [OF same] by (simp add: settings_plan_def)
    have "valid (reconcile_steps ''hcops/LoadBalancerOps.ReconcileHCLB'' c
        [changeIPv4RDNS L lb1 svc, changeIPv6RDNS L lb1 svc, changeAlgorithm L lb1 svc, changeType L lb1 svc,
         detachFromNetwork L lb1, attachToNetwork L lb1, togglePublicInterface L lb1 svc])
      (\<lambda>cs res. networks_truthful ([] @ cs) \<longrightarrow> prefix (changes ([] @ cs)) ([] @ concat ?plans) \<and>
         only_requests (\<lambda>q. q \<in> set ([] @ concat ?plans)) ([] @ cs) \<and>
         (snd res = None \<longrightarrow> changes ([] @ cs) = [] @ concat ?plans \<and> fst res = (?upd \<or> [] @ concat ?plans \<noteq> [])))"
      by (rule follows_steps) (use \<open>c = ?upd\<close> in \<open>simp_all add: changeIPv4RDNS_def changeIPv6RDNS_def follows_changeRDNS
        follows_changeAlgorithm follows_changeType follows_detachFromNetwork follows_attachToNetwork follows_togglePublicInterface\<close>)
    then show ?thesis
      unfolding r None prod.case option.case append_Nil plan
      by (intro valid_bind) (auto elim!: valid_mono intro!: valid_return simp: \<open>changes cs0 = []\<close> same plan_empty_iff)
  qed
qed

text \<open>C6: The settings of a load balancer are reconciled by a plan of change requests that only depends
  on the load balancer, the network and the annotations. Every run makes a prefix of the planned
  changes in their order. A run without error makes all of them, and then the load balancer has the
  reverse DNS entries, algorithm, type, networks and public interface that the service asks for;
  it reports a change exactly when something was out of place.\<close>

theorem settings_converge:
  assumes "runs (ReconcileHCLB L lb svc) cs (lb', c, err)" and "networks_truthful cs"
    and "ip_text (lb_ipv4 lb) \<noteq> ip_text (lb_ipv6 lb)"
  shows "same_settings lb lb' \<and> prefix (changes cs) (settings_plan (l_network_id L) lb svc) \<and>
    (err = None \<longrightarrow> settled (l_network_id L) (apply_settings (changes cs) lb) svc \<and>
       (c \<longleftrightarrow> \<not> settled (l_network_id L) lb svc \<or> update_labels svc lb \<noteq> None \<or> update_name svc lb \<noteq> None))"
  using valid_runs [OF valid_ReconcileHCLB assms(1)] assms(2) plan_settles [OF assms(3), of "l_network_id L" svc] by auto

definition sample_settings_service :: service where
  "sample_settings_service = annotated [(LBType, ''lb21'')]"

theorem settings_converge_witness:
  "\<exists>cs lb'. runs (ReconcileHCLB ((ops_on quiet_api)\<lparr>l_network_id := 9\<rparr>) sample_lb sample_settings_service) cs (lb', True, None) \<and>
     settled 9 (apply_settings (changes cs) sample_lb) sample_settings_service"
proof -
  let ?L = "(ops_on quiet_api)\<lparr>l_network_id := 9\<rparr>"
  let ?o = "outcome (ReconcileHCLB ?L sample_lb sample_settings_service) sample_globals ()"
  have "case ?o of ((lb', c, err), cs) \<Rightarrow> c \<and> err = None \<and>
      list_all (\<lambda>c. case c of NetworkGetByID i (Inr (Some nw)) \<Rightarrow> nw_id nw = i | _ \<Rightarrow> True) cs"
    by code_simp
  then obtain lb' cs where o: "?o = ((lb', True, None), cs)" and
    nets: "list_all (\<lambda>c. case c of NetworkGetByID i (Inr (Some nw)) \<Rightarrow> nw_id nw = i | _ \<Rightarrow> True) cs"
    by (auto split: prod.splits)
  have run: "runs (ReconcileHCLB ?L sample_lb sample_settings_service) cs (lb', True, None)"
    using runs_outcome [of "ReconcileHCLB ?L sample_lb sample_settings_service" sample_globals "()"] o by simp
  have truthful: "networks_truthful cs"
    unfolding networks_truthful_def using nets by (fastforce simp: list_all_iff)
  have texts: "ip_text (lb_ipv4 sample_lb) \<noteq> ip_text (lb_ipv6 sample_lb)" by code_simp
  have "settled 9 (apply_settings (changes cs) sample_lb) sample_settings_service"
    using settings_converge [OF run truthful texts] by simp
  with run show ?thesis by auto
qed

text \<open>C30: Labels. When the service's UID label is missing, the update adds it and keeps every other label.
  A label with the UID of another service is not corrected, although this is why the update is sent:
  the old labels are copied over the new one, so the request carries the stale UID again, on every
  run.\<close>

theorem uid_label_update:
  assumes "runs (changeHCLBInfo L lb svc) cs r" and "svc_uid svc \<noteq> ''''"
  shows "(lb_labels lb LabelServiceUID = None \<longrightarrow> (\<exists>opts ls resp. cs = [LbUpdate (lb_id lb) opts resp] \<and>
      uo_labels opts = Some ls \<and> ls LabelServiceUID = Some (svc_uid svc) \<and>
      (\<forall>k. k \<noteq> LabelServiceUID \<longrightarrow> ls k = lb_labels lb k))) \<and>
    (\<forall>stale. lb_labels lb LabelServiceUID = Some stale \<and> stale \<noteq> svc_uid svc \<longrightarrow>
      (\<exists>opts ls resp. cs = [LbUpdate (lb_id lb) opts resp] \<and> uo_labels opts = Some ls \<and> ls LabelServiceUID = Some stale))"
proof -
  have "valid (changeHCLBInfo L lb svc) (\<lambda>cs r. update_labels svc lb \<noteq> None \<longrightarrow>
    (\<exists>opts resp. cs = [LbUpdate (lb_id lb) opts resp] \<and> uo_labels opts = update_labels svc lb))"
    unfolding changeHCLBInfo_def request_defs by (auto intro!: valid_rules)
  from valid_runs [OF this assms(1)] assms(2) show ?thesis
    by (auto simp: update_labels_def map_add_def split: option.splits)
qed

theorem uid_label_update_witness:
  "\<exists>cs opts ls resp. cs = [LbUpdate 1 opts resp] \<and> uo_labels opts = Some ls \<and> ls LabelServiceUID = Some ''uid-0'' \<and>
     svc_uid (annotated []) = ''uid-1''"
proof -
  let ?lb = "sample_lb\<lparr>lb_labels := [LabelServiceUID \<mapsto> ''uid-0'']\<rparr>"
  let ?m = "changeHCLBInfo (ops_on quiet_api) ?lb (annotated [])"
  have run: "runs ?m (snd (outcome ?m sample_globals ())) (fst (outcome ?m sample_globals ()))"
    by (rule runs_outcome) simp
  have uid: "svc_uid (annotated []) = ''uid-1''" by (simp add: annotated_def)
  have "lb_labels ?lb LabelServiceUID = Some ''uid-0'' \<and> ''uid-0'' \<noteq> svc_uid (annotated [])" by (simp add: uid)
  with uid_label_update [OF run] uid show ?thesis by fastforce
qed

text \<open>The change requests of a log, refused ones included, with the responses.\<close>

fun attempts :: "api_call list \<Rightarrow> (lb_request \<times> (goerr + action)) list" where
  "attempts [] = []"
| "attempts (LbDo q r # cs) = (q, r) # attempts cs"
| "attempts (c # cs) = attempts cs"

text \<open>Attaching to the network is tried at most twice, and a second time only after the first attempt
  was refused with a conflict or a lock and the retry delay has passed; a load balancer that is
  already attached, or no configured network, makes no call at all.\<close>

theorem attach_retries_once:
  assumes "runs (attachToNetwork L lb) cs (c, err)"
  shows "(l_network_id L = 0 \<or> lbAttached lb (l_network_id L) \<longrightarrow> cs = [] \<and> (c, err) = (False, None)) \<and>
    (attempts cs = [] \<or> (\<exists>q r. attempts cs = [(q, r)]) \<or>
     (\<exists>q e r. attempts cs = [(q, Inl e), (q, r)] \<and>
        (a_is_error (l_api L) e ErrorCodeConflict \<or> a_is_error (l_api L) e ErrorCodeLocked) \<and>
        Sleep (if l_retry_delay L = 0 then Second else l_retry_delay L) \<in> set cs))"
proof -
  have "valid (attachToNetwork L lb) (\<lambda>cs res.
    (l_network_id L = 0 \<or> lbAttached lb (l_network_id L) \<longrightarrow> cs = [] \<and> res = (False, None)) \<and>
    (attempts cs = [] \<or> (\<exists>q r. attempts cs = [(q, r)]) \<or>
     (\<exists>q e r. attempts cs = [(q, Inl e), (q, r)] \<and>
        (a_is_error (l_api L) e ErrorCodeConflict \<or> a_is_error (l_api L) e ErrorCodeLocked) \<and>
        Sleep (if l_retry_delay L = 0 then Second else l_retry_delay L) \<in> set cs)))"
    unfolding attachToNetwork_def request_defs Let_def
    by (auto intro!: valid_rules split: sum.splits option.splits)
  from valid_runs [OF this assms] show ?thesis .
qed

theorem attach_retries_once_witness:
  "\<exists>cs q e r. runs (attachToNetwork ((ops_on (quiet_api\<lparr>a_lb_do := \<lambda>q w. (Inl (Ext ''locked'' ''locked''), w),
       a_is_error := \<lambda>e c. c = ErrorCodeLocked\<rparr>))\<lparr>l_network_id := 9\<rparr>) sample_lb) cs (False, Some e) \<and>
     attempts cs = [(q, Inl (Ext ''locked'' ''locked'')), (q, r)] \<and> Sleep Second \<in> set cs"
proof -
  let ?L = "(ops_on (quiet_api\<lparr>a_lb_do := \<lambda>q w. (Inl (Ext ''locked'' ''locked''), w),
       a_is_error := \<lambda>e c. c = ErrorCodeLocked\<rparr>))\<lparr>l_network_id := 9\<rparr>"
  let ?o = "outcome (attachToNetwork ?L sample_lb) sample_globals ()"
  have "case ?o of ((c, err), cs) \<Rightarrow> \<not> c \<and> err \<noteq> None \<and>
      attempts cs = [(AttachToNetwork 1 9, Inl (Ext ''locked'' ''locked'')), (AttachToNetwork 1 9, Inl (Ext ''locked'' ''locked''))]"
    by code_simp
  then obtain e cs where o: "?o = ((False, Some e), cs)"
    and two: "attempts cs = [(AttachToNetwork 1 9, Inl (Ext ''locked'' ''locked'')), (AttachToNetwork 1 9, Inl (Ext ''locked'' ''locked''))]"
    by (auto split: prod.splits)
  have run: "runs (attachToNetwork ?L sample_lb) cs (False, Some e)"
    using runs_outcome [of "attachToNetwork ?L sample_lb" sample_globals "()"] o by simp
  have "Sleep Second \<in> set cs" using attach_retries_once [OF run] two by (simp add: ops_on_def)
  with run two show ?thesis by blast
qed

text \<open>Looking a load balancer up by the service's UID: the answer is the load balancer when exactly one
  carries the label, a not-found error when none does and a non-unique error when several do. A
  failing API call is never reported as not found, so a caller that creates a load balancer on
  not found cannot be misled by an outage.\<close>

theorem lookup_by_uid_classified:
  assumes "runs (GetByK8SServiceUID L svc) cs r"
  shows "\<exists>resp. cs = [LbList (uid_selector svc) resp] \<and> (\<forall>lb. r = Inr lb \<longleftrightarrow> resp = Inr [lb]) \<and>
    (\<forall>e. r = Inl e \<longrightarrow> (errors_is e ErrNotFound \<longleftrightarrow> resp = Inr []) \<and>
       (errors_is e ErrNonUniqueResult \<longleftrightarrow> (\<exists>lb lb' lbs. resp = Inr (lb # lb' # lbs))))"
proof -
  have "valid (GetByK8SServiceUID L svc) (\<lambda>cs r. \<exists>resp. cs = [LbList (uid_selector svc) resp] \<and> (\<forall>lb. r = Inr lb \<longleftrightarrow> resp = Inr [lb]) \<and>
    (\<forall>e. r = Inl e \<longrightarrow> (errors_is e ErrNotFound \<longleftrightarrow> resp = Inr []) \<and>
       (errors_is e ErrNonUniqueResult \<longleftrightarrow> (\<exists>lb lb' lbs. resp = Inr (lb # lb' # lbs)))))"
    unfolding GetByK8SServiceUID_def request_defs Let_def
    by (auto intro!: valid_rules split: sum.splits list.splits)
  from valid_runs [OF this assms] show ?thesis .
qed

theorem lookup_by_uid_classified_witness:
  "\<exists>cs e. runs (GetByK8SServiceUID (ops_on quiet_api) (annotated [])) cs (Inl e) \<and> errors_is e ErrNotFound"
proof -
  let ?o = "outcome (GetByK8SServiceUID (ops_on quiet_api) (annotated [])) sample_globals ()"
  have "case ?o of (r, cs) \<Rightarrow> isl r \<and> list_ex (\<lambda>c. case c of LbList s (Inr []) \<Rightarrow> True | _ \<Rightarrow> False) cs" by code_simp
  then obtain e cs where o: "?o = (Inl e, cs)" and ex: "list_ex (\<lambda>c. case c of LbList s (Inr []) \<Rightarrow> True | _ \<Rightarrow> False) cs"
    by (auto simp: isl_def split: prod.splits)
  have run: "runs (GetByK8SServiceUID (ops_on quiet_api) (annotated [])) cs (Inl e)"
    using runs_outcome [of "GetByK8SServiceUID (ops_on quiet_api) (annotated [])" sample_globals "()"] o by simp
  from lookup_by_uid_classified [OF run] obtain resp where cs: "cs = [LbList (uid_selector (annotated [])) resp]"
    and e: "errors_is e ErrNotFound \<longleftrightarrow> resp = Inr []" by blast
  have "resp = Inr []" using ex unfolding cs by (cases resp) (auto split: list.splits)
  with run e show ?thesis by blast
qed

end
