(* ===== verification/LBInterface.thy ===== *)
theory LBInterface
  imports LBServices LBTargetsSafety LBOpsCorrect
begin

text \<open>
  The Go interface \<open>LoadBalancerOps\<close> of \<open>hcloud/load_balancers.go\<close> and the struct
  \<open>loadBalancers\<close> that is written against it. The locale \<open>lb_provider\<close> states what the
  clients of the interface rely on; \<open>hcops.LoadBalancerOps\<close> is proved to provide it.
\<close>

section \<open>The interface\<close>

record 'w lb_iface =
  i_GetByName :: "string \<Rightarrow> ('w, goerr + load_balancer) go"
  i_GetByID :: "int \<Rightarrow> ('w, goerr + load_balancer) go"
  i_GetByK8SServiceUID :: "service \<Rightarrow> ('w, goerr + load_balancer) go"
  i_Create :: "string \<Rightarrow> service \<Rightarrow> ('w, goerr + load_balancer) go"
  i_Delete :: "load_balancer \<Rightarrow> ('w, goerr option) go"
  i_ReconcileHCLB :: "load_balancer \<Rightarrow> service \<Rightarrow> ('w, load_balancer \<times> bool \<times> goerr option) go"
  i_ReconcileHCLBTargets :: "load_balancer \<Rightarrow> service \<Rightarrow> node list \<Rightarrow> ('w, bool \<times> goerr option) go"
  i_ReconcileHCLBServices :: "load_balancer \<Rightarrow> service \<Rightarrow> ('w, bool \<times> goerr option) go"

definition hcops_iface :: "'w lb_ops \<Rightarrow> 'w lb_iface" where
  "hcops_iface L = \<lparr>i_GetByName = GetByName L, i_GetByID = GetByID L,
     i_GetByK8SServiceUID = GetByK8SServiceUID L, i_Create = Create L, i_Delete = Delete L,
     i_ReconcileHCLB = ReconcileHCLB L, i_ReconcileHCLBTargets = ReconcileHCLBTargets L,
     i_ReconcileHCLBServices = ReconcileHCLBServices L\<rparr>"

text \<open>
  The struct \<open>loadBalancers\<close>. The Kubernetes client may be nil; \<open>lbs_retry\<close> is client-go's
  \<open>retry.RetryOnConflict\<close> with the default backoff, code outside the repository.
\<close>

record 'w load_balancers =
  lbs_ops :: "'w lb_iface"
  lbs_api :: "'w api"
  lbs_disable_private_ingress :: bool
  lbs_disable_ipv6 :: bool
  lbs_restrict_node_port :: bool
  lbs_has_k8s_client :: bool
  lbs_retry :: "('w, goerr option) go \<Rightarrow> ('w, goerr option) go"

section \<open>Logs\<close>

text \<open>Creations, deletions and changes of one load balancer in a log.\<close>

fun is_create :: "api_call \<Rightarrow> bool" where
  "is_create (LbCreate opts r) = True"
| "is_create c = False"

fun is_delete :: "api_call \<Rightarrow> bool" where
  "is_delete (LbDelete i r) = True"
| "is_delete c = False"

fun request_lb :: "lb_request \<Rightarrow> int" where
  "request_lb (AddService l opts) = l"
| "request_lb (UpdateService l p opts) = l"
| "request_lb (DeleteService l p) = l"
| "request_lb (ChangeAlgorithm l a) = l"
| "request_lb (ChangeType l t) = l"
| "request_lb (ChangeDNSPtr l x v) = l"
| "request_lb (AddServerTarget l i p) = l"
| "request_lb (RemoveServerTarget l i) = l"
| "request_lb (AddIPTarget l x) = l"
| "request_lb (RemoveIPTarget l x) = l"
| "request_lb (AttachToNetwork l n) = l"
| "request_lb (DetachFromNetwork l n) = l"
| "request_lb (EnablePublicInterface l) = l"
| "request_lb (DisablePublicInterface l) = l"

text \<open>A write that a reconciliation of the load balancer with the ID \<open>i\<close> may make.\<close>

fun touches_only :: "int \<Rightarrow> api_call \<Rightarrow> bool" where
  "touches_only i (LbDo q r) = (request_lb q = i)"
| "touches_only i (LbUpdate j opts r) = (j = i)"
| "touches_only i (CertCreate opts r) = True"
| "touches_only i c = (\<not> is_write c)"

definition reconciles_only :: "int \<Rightarrow> api_call list \<Rightarrow> bool" where
  "reconciles_only i cs \<longleftrightarrow> (\<forall>c \<in> set cs. touches_only i c)"

lemma touches_only_no_create: "touches_only i c \<Longrightarrow> \<not> is_create c \<and> \<not> is_delete c"
  by (cases c) auto

lemma touches_only_read: "\<not> is_write c \<Longrightarrow> touches_only i c"
  by (cases c) auto

lemma touches_only_request: "is_write c \<longrightarrow> (\<exists>q r. c = LbDo q r \<and> P q) \<Longrightarrow> (\<And>q. P q \<Longrightarrow> request_lb q = i) \<Longrightarrow> touches_only i c"
  by (cases "is_write c") (auto intro: touches_only_read)

text \<open>A write that creating the load balancer \<open>n\<close> for the service may make.\<close>

definition labelled_create :: "string \<Rightarrow> service \<Rightarrow> api_call \<Rightarrow> bool" where
  "labelled_create n svc c \<longleftrightarrow> (is_write c \<longrightarrow> (\<exists>opts resp. c = LbCreate opts resp \<and> co_name opts = n \<and>
     co_labels opts LabelServiceUID = Some (svc_uid svc)))"

lemma labelled_create_read: "\<not> is_write c \<Longrightarrow> labelled_create n svc c"
  by (simp add: labelled_create_def)

lemma create_request_labelled:
  "co_name opts = n \<Longrightarrow> co_labels opts LabelServiceUID = Some (svc_uid svc) \<Longrightarrow> labelled_create n svc (LbCreate opts r)"
  by (auto simp: labelled_create_def)

section \<open>What the clients rely on\<close>

locale lb_provider =
  fixes I :: "'w lb_iface"
  assumes by_uid_reads: "all_calls (\<lambda>c. \<not> is_write c) (i_GetByK8SServiceUID I svc)"
    and by_name_reads: "all_calls (\<lambda>c. \<not> is_write c) (i_GetByName I n)"
    and by_id_reads: "all_calls (\<lambda>c. \<not> is_write c) (i_GetByID I i)"
    and create_labelled: "all_calls (labelled_create n svc) (i_Create I n svc)"
    and delete_one: "all_calls (\<lambda>c. \<exists>resp. c = LbDelete (lb_id lb) resp) (i_Delete I lb)"
    and settings_local: "all_calls (touches_only (lb_id lb)) (i_ReconcileHCLB I lb svc)"
    and settings_same_id: "valid (i_ReconcileHCLB I lb svc) (\<lambda>cs r. lb_id (fst r) = lb_id lb)"
    and targets_local: "all_calls (touches_only (lb_id lb)) (i_ReconcileHCLBTargets I lb svc nodes)"
    and services_local: "all_calls (touches_only (lb_id lb)) (i_ReconcileHCLBServices I lb svc)"

section \<open>hcops provides the interface\<close>

lemma justified_lb: "justified E q \<Longrightarrow> request_lb q = lb_id (te_lb E)"
  by (cases q) auto

lemma targets_touch: "all_calls (touches_only (lb_id lb)) (ReconcileHCLBTargets L lb svc nodes)"
  unfolding all_calls_def
proof (rule ReconcileHCLBTargets_cases)
  fix E :: target_env and ev
  assume ev: "reads_only ev" "te_lb E = lb"
  show "valid (sync_targets L svc E) (\<lambda>cs r. \<forall>c \<in> set (ev @ cs). touches_only (lb_id lb) c)"
    by (rule valid_mono [OF accounted_sync])
      (use ev in \<open>auto simp: accounted_result_def reads_only_def only_requests_def
        intro: touches_only_read touches_only_request [where P = "justified E"] dest: justified_lb\<close>)
qed (auto simp: reads_only_def intro: touches_only_read)

lemma cert_read_no_write: "cert_read c \<Longrightarrow> \<not> is_write c"
  by (cases c rule: cert_read.cases) auto

lemma build_reads:
  "all_calls (\<lambda>c. \<not> is_write c) (buildAddServiceOpts A (new_builder p svc))"
  "all_calls (\<lambda>c. \<not> is_write c) (buildUpdateServiceOpts A (new_builder p svc))"
  unfolding all_calls_def
  by (rule valid_mono [OF valid_buildAddServiceOpts] valid_mono [OF valid_buildUpdateServiceOpts],
      auto simp: built_def dest: cert_read_no_write)+

lemma do_and_watch_touches: "request_lb q = i \<Longrightarrow> all_calls (touches_only i) (do_and_watch A op q)"
  unfolding do_and_watch_def request_defs by (intro calls_rules) auto

lemma build_touches:
  "all_calls (touches_only i) (buildAddServiceOpts A (new_builder p svc))"
  "all_calls (touches_only i) (buildUpdateServiceOpts A (new_builder p svc))"
  by (rule all_calls_mono [OF build_reads(1)] all_calls_mono [OF build_reads(2)], erule touches_only_read)+

lemma service_body_touches: "all_calls (touches_only (lb_id lb)) (service_body L lb svc p st)"
  unfolding service_body_def Let_def send_service_def
  by (intro calls_rules build_touches do_and_watch_touches) auto

lemma delete_body_touches: "all_calls (touches_only (lb_id lb)) (delete_body L lb p ch)"
  unfolding delete_body_def request_defs by (intro calls_rules) auto

lemma certificate_touches: "all_calls (touches_only i) (reconcileManagedCertificate L svc)"
  unfolding reconcileManagedCertificate_def CreateManagedCertificate_def request_defs Let_def
  by (intro calls_rules) auto

lemma services_touch: "all_calls (touches_only (lb_id lb)) (ReconcileHCLBServices L lb svc)"
  unfolding ReconcileHCLBServices_def
  by (intro calls_rules certificate_touches service_body_touches delete_body_touches)

lemma info_touches: "all_calls (touches_only (lb_id lb)) (changeHCLBInfo L lb svc)"
  unfolding changeHCLBInfo_def request_defs by (intro calls_rules) auto

lemma steps_touch: "(\<And>m. m \<in> set ms \<Longrightarrow> all_calls P m) \<Longrightarrow> all_calls P (reconcile_steps op ch ms)"
  by (induction ms arbitrary: ch) (auto intro!: calls_rules split: option.split)

lemma setting_steps_touch:
  assumes "lb_id lb = i"
  shows "all_calls (touches_only i) (changeRDNS L op n cur addr lb svc)"
    "all_calls (touches_only i) (changeAlgorithm L lb svc)" "all_calls (touches_only i) (changeType L lb svc)"
    "all_calls (touches_only i) (detachFromNetwork L lb)" "all_calls (touches_only i) (attachToNetwork L lb)"
    "all_calls (touches_only i) (togglePublicInterface L lb svc)"
proof -
  note intros = calls_rules do_and_watch_touches
  show "all_calls (touches_only i) (changeRDNS L op n cur addr lb svc)"
    unfolding changeRDNS_def by (intro intros) (simp add: assms)
  show "all_calls (touches_only i) (changeAlgorithm L lb svc)"
    unfolding changeAlgorithm_def Let_def by (intro intros) (simp add: assms)
  show "all_calls (touches_only i) (changeType L lb svc)"
    unfolding changeType_def by (intro intros) (simp add: assms)
  show "all_calls (touches_only i) (detachFromNetwork L lb)"
    unfolding detachFromNetwork_def detach_body_def by (intro intros) (simp add: assms)
  show "all_calls (touches_only i) (attachToNetwork L lb)"
    unfolding attachToNetwork_def request_defs Let_def by (intro intros) (simp_all add: assms)
  show "all_calls (touches_only i) (togglePublicInterface L lb svc)"
    unfolding togglePublicInterface_def Let_def by (intro intros) (simp add: assms)
qed

lemma same_settings_id: "same_settings lb lb' \<Longrightarrow> lb_id lb' = lb_id lb"
  by (auto simp: same_settings_def)

lemma all_calls_seq:
  "valid m (\<lambda>cs a. (\<forall>c \<in> set cs. P c) \<and> all_calls P (f a)) \<Longrightarrow> all_calls P (State_Monad.bind m f)"
  unfolding all_calls_def
  by (rule valid_bind, erule valid_mono, elim conjE, erule valid_mono) auto

lemma settings_tail_touches:
  assumes "lb_id lb' = i"
  shows "all_calls (touches_only i) (reconcile_steps op c
    [changeIPv4RDNS L lb' svc, changeIPv6RDNS L lb' svc, changeAlgorithm L lb' svc, changeType L lb' svc,
     detachFromNetwork L lb', attachToNetwork L lb', togglePublicInterface L lb' svc])"
  by (rule steps_touch)
    (auto simp: changeIPv4RDNS_def changeIPv6RDNS_def setting_steps_touch [OF assms])

lemma info_summary:
  "valid (changeHCLBInfo L lb svc) (\<lambda>cs r. (\<forall>c \<in> set cs. touches_only (lb_id lb) c) \<and> lb_id (fst r) = lb_id lb)"
  by (rule valid_mono [OF valid_conj [OF info_touches [unfolded all_calls_def] valid_changeHCLBInfo]])
    (auto dest: same_settings_id)

lemma settings_touch: "all_calls (touches_only (lb_id lb)) (ReconcileHCLB L lb svc)"
  unfolding ReconcileHCLB_def Let_def
proof (rule all_calls_seq, rule valid_mono [OF info_summary], elim conjE, intro conjI, assumption, goal_cases)
  case (1 cs r)
  then show ?case
    by (intro all_calls_cases all_calls_return all_calls_bind settings_tail_touches) simp
qed

lemma settings_id: "valid (ReconcileHCLB L lb svc) (\<lambda>cs r. lb_id (fst r) = lb_id lb)"
  unfolding ReconcileHCLB_def Let_def
proof (rule valid_bind, rule valid_mono [OF info_summary], goal_cases)
  case (1 cs r)
  obtain lb1 c err where r: "r = (lb1, c, err)" by (cases r)
  with 1 have id: "lb_id lb1 = lb_id lb" by simp
  show ?case
  proof (cases err)
    case None
    note tail = settings_tail_touches [OF refl, of lb1, unfolded all_calls_def]
    show ?thesis
      unfolding r None prod.case option.case
      by (rule valid_bind, rule valid_mono [OF tail], rule valid_return) (simp add: id)
  qed (simp add: r id valid_return)
qed

lemma create_opts_labels:
  "create_opts L n svc = Inr opts \<Longrightarrow> co_name opts = n \<and> co_labels opts = [LabelServiceUID \<mapsto> svc_uid svc]"
  by (auto simp: create_opts_def Let_def split: if_splits sum.splits)

lemma create_network_labels:
  "valid (create_network L opts) (\<lambda>cs r. reads_only cs \<and>
     (\<forall>opts'. r = Inr opts' \<longrightarrow> co_name opts' = co_name opts \<and> co_labels opts' = co_labels opts))"
  unfolding create_network_def request_defs Let_def
  by (auto intro!: valid_rules simp: reads_only_def split: sum.splits option.splits)

lemma create_public_labels:
  "create_public svc opts = Inr opts' \<Longrightarrow> co_name opts' = co_name opts \<and> co_labels opts' = co_labels opts"
  by (auto simp: create_public_def split: sum.splits if_splits)

lemma Create_calls: "all_calls (labelled_create n svc) (Create L n svc)"
proof (cases "create_opts L n svc")
  case (Inr opts)
  note o = create_opts_labels [OF Inr]
  show ?thesis
    unfolding Create_def Let_def Inr sum.case
  proof (rule all_calls_seq, rule valid_mono [OF create_network_labels], intro conjI, goal_cases)
    case (1 cs r)
    then show ?case by (auto simp: reads_only_def intro: labelled_create_read)
  next
    case (2 cs r)
    show ?case
    proof (intro all_calls_cases all_calls_return all_calls_bind, goal_cases)
      case (1 opts1 opts2)
      with 2 o have "co_name opts2 = n" "co_labels opts2 LabelServiceUID = Some (svc_uid svc)"
        by (auto dest!: create_public_labels)
      then show ?case
        unfolding request_defs by (intro all_calls_request create_request_labelled)
    next
      case (2 opts1 opts2 x a i)
      then show ?case
        unfolding request_defs by (intro all_calls_request labelled_create_read) simp
    next
      case (3 opts1 opts2 x a i err)
      then show ?case
        unfolding GetByID_def request_defs
        by (intro calls_rules labelled_create_read) simp
    qed
  qed
qed (simp add: Create_def calls_rules)

lemma Delete_calls: "all_calls (\<lambda>c. \<exists>resp. c = LbDelete (lb_id lb) resp) (Delete L lb)"
  unfolding Delete_def request_defs by (intro calls_rules) simp

lemma lookups_read:
  "all_calls (\<lambda>c. \<not> is_write c) (GetByK8SServiceUID L svc)" "all_calls (\<lambda>c. \<not> is_write c) (GetByName L n)"
  "all_calls (\<lambda>c. \<not> is_write c) (GetByID L i)"
  unfolding GetByK8SServiceUID_def GetByName_def GetByID_def request_defs Let_def by (intro calls_rules; simp)+

lemmas hcops_laws = lookups_read Create_calls Delete_calls settings_touch settings_id targets_touch services_touch

interpretation hcops: lb_provider "hcops_iface L" for L
  unfolding hcops_iface_def by unfold_locales (simp_all only: lb_iface.simps hcops_laws)

end
