(* ===== verification/NodePortSource.thy ===== *)
theory NodePortSource
  imports LBInterface
begin

text \<open>
  \<open>hcloud/node_port_source.go\<close>: keeping the addresses of the load balancer in the source ranges
  of a service, next to the ranges that its users set. The entries the controller added are
  recorded in an annotation; a patch is guarded by the version of the service it was computed from.
\<close>

section \<open>The switch\<close>

definition restrictNodePortSourceEnabled :: "'w load_balancers \<Rightarrow> service \<Rightarrow> goerr + bool" where
  "restrictNodePortSourceEnabled M svc =
     (if map_option trim_space (StringFromService LBRestrictNodePortSource svc) = Some ''''
      then Inr (lbs_restrict_node_port M)
      else case BoolFromService LBRestrictNodePortSource svc of
             Inr enabled \<Rightarrow> Inr enabled
           | Inl e \<Rightarrow> if errors_is e ErrNotSet then Inr (lbs_restrict_node_port M) else Inl e)"

definition sourceRangesDenyList :: "service \<Rightarrow> bool" where
  "sourceRangesDenyList svc =
     equal_fold (trim_space (case svc_annotations svc ''service.cilium.io/src-ranges-policy'' of Some v \<Rightarrow> v | None \<Rightarrow> '''')) ''deny''"

definition usable_ipv4 :: "ip \<Rightarrow> string list" where
  "usable_ipv4 x = (let y = To4 x in if y \<noteq> [] \<and> \<not> IsUnspecified y then [ip_text y @ ''/32''] else [])"

definition lbSourceCIDRs :: "load_balancer \<Rightarrow> string list" where
  "lbSourceCIDRs lb =
     (if lb_public_enabled lb then usable_ipv4 (lb_ipv4 lb) else []) @
     concat (map (\<lambda>nw. usable_ipv4 (pn_ip nw)) (lb_private_net lb))"

section \<open>Comparing ranges\<close>

definition sameCIDR :: "string \<Rightarrow> string \<Rightarrow> bool" where
  "sameCIDR a b =
     (case (ParsePrefix_Masked (trim_space a), ParsePrefix_Masked (trim_space b)) of
        (Some pa, Some pb) \<Rightarrow> pa = pb
      | _ \<Rightarrow> trim_space a = trim_space b)"

definition containsCIDR :: "string list \<Rightarrow> string \<Rightarrow> bool" where
  "containsCIDR xs cidr = list_ex (\<lambda>c. sameCIDR c cidr) xs"

text \<open>Two ranges are the same when they have the same key, so comparing is an equivalence.\<close>

definition cidr_key :: "string \<Rightarrow> (ip \<times> nat) + string" where
  "cidr_key s = (case ParsePrefix_Masked (trim_space s) of Some p \<Rightarrow> Inl p | None \<Rightarrow> Inr (trim_space s))"

lemma sameCIDR_key: "sameCIDR a b \<longleftrightarrow> cidr_key a = cidr_key b"
  by (auto simp: sameCIDR_def cidr_key_def split: option.split)

definition keys :: "string list \<Rightarrow> ((ip \<times> nat) + string) set" where
  "keys xs = cidr_key ` set xs"

lemma keys_simps [simp]:
  "keys [] = {}" "keys (x # xs) = insert (cidr_key x) (keys xs)" "keys (xs @ ys) = keys xs \<union> keys ys"
  "keys (filter (\<lambda>c. cidr_key c \<in> A \<longrightarrow> cidr_key c \<in> B) xs) = {k \<in> keys xs. k \<in> A \<longrightarrow> k \<in> B}"
  by (auto simp: keys_def)

lemma keys_intro [intro]: "x \<in> set xs \<Longrightarrow> cidr_key x \<in> keys xs"
  by (simp add: keys_def)

lemma containsCIDR_key [simp]: "containsCIDR xs c \<longleftrightarrow> cidr_key c \<in> keys xs"
  by (auto simp: containsCIDR_def sameCIDR_key list_ex_iff keys_def intro: rev_image_eqI)

section \<open>The ranges the controller wants\<close>

definition add_missing :: "string list \<Rightarrow> string list \<Rightarrow> string list" where
  "add_missing xs wanted = foldl (\<lambda>res w. if containsCIDR res w then res else res @ [w]) xs wanted"

definition desiredSourceRanges :: "string list \<Rightarrow> string list \<Rightarrow> string list \<Rightarrow> string list \<times> bool" where
  "desiredSourceRanges current previouslyManaged wanted =
     (let result = add_missing (filter (\<lambda>c. \<not> (containsCIDR previouslyManaged c \<and> \<not> containsCIDR wanted c)) current) wanted
      in (result, current \<noteq> result))"

definition ownedEntries :: "string list \<Rightarrow> string list \<Rightarrow> string list \<Rightarrow> string list" where
  "ownedEntries current previouslyManaged wanted =
     filter (\<lambda>w. \<not> (containsCIDR current w \<and> \<not> containsCIDR previouslyManaged w)) wanted"

definition managedSourceRanges :: "service \<Rightarrow> string list" where
  "managedSourceRanges svc =
     (case StringFromService LBNodePortSourceRanges svc of
        None \<Rightarrow> []
      | Some v \<Rightarrow> if v = '''' then [] else filter (\<lambda>r. r \<noteq> '''') (map trim_space (split_on CHR '','' v)))"

section \<open>Reading and patching the service\<close>

definition nodePortSourcePatch :: "string \<Rightarrow> string list \<Rightarrow> string \<Rightarrow> source_patch" where
  "nodePortSourcePatch rv ranges managed = \<lparr>pt_resource_version = rv,
     pt_ranges = (if ranges = [] then None else Some ranges),
     pt_managed = (if managed = '''' then None else Some managed)\<rparr>"

text \<open>The patch for the latest version of the service, \<open>None\<close> when nothing is to change.\<close>

definition source_ranges_patch :: "service \<Rightarrow> string list \<Rightarrow> source_patch option" where
  "source_ranges_patch latest wanted = (let
     previouslyManaged = managedSourceRanges latest;
     (ranges, changed) = desiredSourceRanges (svc_source_ranges latest) previouslyManaged wanted;
     managed = join '','' (ownedEntries (svc_source_ranges latest) previouslyManaged wanted);
     annotation = StringFromService LBNodePortSourceRanges latest;
     current = (case annotation of Some v \<Rightarrow> v | None \<Rightarrow> '''');
     annotationChanged = (current \<noteq> managed \<or> managed = '''' \<and> annotation \<noteq> None)
   in if \<not> changed \<and> \<not> annotationChanged then None
      else Some (nodePortSourcePatch (svc_resource_version latest) ranges managed))"

definition update_source_ranges :: "'w load_balancers \<Rightarrow> service \<Rightarrow> string list \<Rightarrow> ('w, goerr option) go" where
  "update_source_ranges M svc wanted = do {
     r \<leftarrow> kube_get (lbs_api M) (svc_namespace svc) (svc_name svc);
     case r of
       Inl e \<Rightarrow> ret (if a_is_kube_not_found (lbs_api M) e then None else Some e)
     | Inr latest \<Rightarrow>
         if svc_deleting latest then ret None
         else case source_ranges_patch latest wanted of
                None \<Rightarrow> ret None
              | Some p \<Rightarrow> kube_patch (lbs_api M) (svc_namespace svc) (svc_name svc) p
   }"

definition setManagedSourceRanges :: "'w load_balancers \<Rightarrow> service \<Rightarrow> string list \<Rightarrow> ('w, goerr option) go" where
  "setManagedSourceRanges M svc wanted =
     (if wanted = [] \<and> managedSourceRanges svc = [] then ret None
      else if \<not> lbs_has_k8s_client M then ret None
      else lbs_retry M (update_source_ranges M svc wanted))"

definition reconcileNodePortSource :: "'w load_balancers \<Rightarrow> service \<Rightarrow> load_balancer \<Rightarrow> ('w, goerr option) go" where
  "reconcileNodePortSource M svc lb = (let op = ''hcloud/loadBalancers.reconcileNodePortSource'' in
     case restrictNodePortSourceEnabled M svc of
       Inl e \<Rightarrow> ret (Some (wrap op e))
     | Inr enabled \<Rightarrow>
         if enabled \<and> \<not> sourceRangesDenyList svc \<and> lbSourceCIDRs lb = [] then ret None
         else do {
           err \<leftarrow> setManagedSourceRanges M svc (if enabled \<and> \<not> sourceRangesDenyList svc then lbSourceCIDRs lb else []);
           ret (map_option (wrap op) err)
         })"

definition removeNodePortSource :: "'w load_balancers \<Rightarrow> service \<Rightarrow> ('w, goerr option) go" where
  "removeNodePortSource M svc = do {
     err \<leftarrow> setManagedSourceRanges M svc [];
     ret (map_option (wrap ''hcloud/loadBalancers.removeNodePortSource'') err)
   }"

section \<open>Desired and owned entries\<close>

text \<open>The entries that \<open>add_missing\<close> appends.\<close>

fun missing :: "string list \<Rightarrow> string list \<Rightarrow> string list" where
  "missing xs [] = []"
| "missing xs (w # ws) = (if containsCIDR xs w then missing xs ws else w # missing (xs @ [w]) ws)"

lemma add_missing_append: "add_missing xs ws = xs @ missing xs ws"
  unfolding add_missing_def by (induction ws arbitrary: xs) auto

lemma missing_subset: "w \<in> set (missing xs ws) \<Longrightarrow> w \<in> set ws \<and> cidr_key w \<notin> keys xs"
  by (induction xs ws rule: missing.induct) (auto split: if_splits)

lemma missing_keys: "keys xs \<union> keys (missing xs ws) = keys xs \<union> keys ws"
  by (induction xs ws rule: missing.induct) auto

lemma missing_none: "keys ws \<subseteq> keys xs \<Longrightarrow> missing xs ws = []"
  by (induction ws) auto

lemma ownedEntries_filter:
  "ownedEntries cur prev ws = filter (\<lambda>w. cidr_key w \<in> keys cur \<longrightarrow> cidr_key w \<in> keys prev) ws"
  unfolding ownedEntries_def by (rule filter_cong) auto

lemma owned_keys [simp]: "keys (ownedEntries cur prev ws) = {k \<in> keys ws. k \<in> keys cur \<longrightarrow> k \<in> keys prev}"
  by (simp add: ownedEntries_filter)

definition ranges_after :: "string list \<Rightarrow> string list \<Rightarrow> string list \<Rightarrow> string list" where
  "ranges_after cur prev ws = fst (desiredSourceRanges cur prev ws)"

abbreviation kept_entries :: "string list \<Rightarrow> string list \<Rightarrow> string list \<Rightarrow> string list" where
  "kept_entries cur prev ws \<equiv> filter (\<lambda>c. cidr_key c \<in> keys prev \<longrightarrow> cidr_key c \<in> keys ws) cur"

lemma ranges_after_eq: "ranges_after cur prev ws = kept_entries cur prev ws @ missing (kept_entries cur prev ws) ws"
  unfolding ranges_after_def desiredSourceRanges_def Let_def
  by (simp add: add_missing_append)

lemma ranges_after_keys: "keys (ranges_after cur prev ws) = keys ws \<union> (keys cur - keys prev)"
  unfolding ranges_after_eq keys_simps(3) missing_keys by auto

text \<open>The entries that are not the controller's stay, in their order, and only they.\<close>

lemma foreign_entries_kept:
  "filter (\<lambda>c. cidr_key c \<notin> keys (ownedEntries cur prev ws)) (ranges_after cur prev ws) =
   filter (\<lambda>c. cidr_key c \<notin> keys prev) cur"
proof -
  have new: "filter (\<lambda>c. cidr_key c \<notin> keys (ownedEntries cur prev ws)) (missing (kept_entries cur prev ws) ws) = []"
  proof (rule filter_False, rule ballI)
    fix w assume "w \<in> set (missing (kept_entries cur prev ws) ws)"
    from missing_subset [OF this] show "\<not> cidr_key w \<notin> keys (ownedEntries cur prev ws)" by auto
  qed
  have "filter (\<lambda>c. cidr_key c \<notin> keys (ownedEntries cur prev ws)) (kept_entries cur prev ws) =
      filter (\<lambda>c. cidr_key c \<notin> keys prev) cur"
    unfolding filter_filter by (rule filter_cong [OF refl]) auto
  with new show ?thesis unfolding ranges_after_eq by simp
qed

lemma ranges_after_again: "ranges_after (ranges_after cur prev ws) (ownedEntries cur prev ws) ws = ranges_after cur prev ws"
  by (subst ranges_after_eq) (simp add: filter_eq_self missing_none ranges_after_keys)

lemma owned_again: "ownedEntries (ranges_after cur prev ws) (ownedEntries cur prev ws) ws = ownedEntries cur prev ws"
  by (subst (1 3) ownedEntries_filter) (auto simp: ranges_after_keys intro!: filter_cong)

section \<open>The bookkeeping annotation\<close>

definition plain_entry :: "string \<Rightarrow> bool" where
  "plain_entry r \<longleftrightarrow> r \<noteq> '''' \<and> CHR '','' \<notin> set r \<and> trim_space r = r"

lemma managed_join:
  assumes "list_all plain_entry rs"
    and "StringFromService LBNodePortSourceRanges svc = (if rs = [] then None else Some (join '','' rs))"
  shows "managedSourceRanges svc = rs"
proof (cases "rs = []")
  case False
  have "join '','' rs \<noteq> ''''"
    using assms(1) False by (cases "('','', rs)" rule: join.cases) (auto simp: plain_entry_def)
  moreover have "split_on CHR '','' (join '','' rs) = rs"
    using assms(1) False by (intro split_on_join) (auto simp: plain_entry_def list_all_iff)
  moreover have "map trim_space rs = rs" "filter (\<lambda>r. r \<noteq> '''') rs = rs"
    using assms(1) by (auto simp: plain_entry_def list_all_iff intro!: map_idI filter_eq_self)
  ultimately show ?thesis
    using assms(2) False by (simp add: managedSourceRanges_def)
qed (simp add: assms(2) managedSourceRanges_def)

lemma join_empty: "list_all plain_entry rs \<Longrightarrow> join '','' rs = '''' \<longleftrightarrow> rs = []"
  by (cases "('','', rs)" rule: join.cases) (auto simp: plain_entry_def)

lemma is_digit_plain: "is_digit c \<Longrightarrow> c \<noteq> CHR '','' \<and> \<not> is_space c"
  by (auto simp: is_digit_def is_space_def)

lemma join_chars: "c \<in> set (join sep xs) \<Longrightarrow> c \<in> set sep \<or> (\<exists>x \<in> set xs. c \<in> set x)"
  by (induction sep xs rule: join.induct) auto

lemma ip4_text_chars: "c \<in> set (ip4_text x) \<Longrightarrow> c = CHR ''.'' \<or> is_digit c"
  using show_nat_digits by (auto simp: ip4_text_def byte_text_def list_all_iff dest!: join_chars)

lemma no_space_trim: "(\<And>c. c \<in> set s \<Longrightarrow> \<not> is_space c) \<Longrightarrow> trim_space s = s"
  unfolding trim_space_def by (rule trim_id) (auto dest: hd_in_set last_in_set)

lemma usable_ipv4_plain: "list_all plain_entry (usable_ipv4 x)"
proof (cases "usable_ipv4 x")
  case (Cons r rs)
  then have len: "length (To4 x) = 4" and r: "r = ip_text (To4 x) @ ''/32''" "rs = []"
    using length_To4 [of x] by (auto simp: usable_ipv4_def Let_def split: if_splits)
  then have "ip_text (To4 x) = ip4_text (To4 x)" by (auto simp: ip_text_def To4_def)
  then have chars: "c = CHR ''.'' \<or> c = CHR ''/'' \<or> is_digit c" if "c \<in> set r" for c
    using that r by (auto dest: ip4_text_chars simp: is_digit_def)
  have "\<not> is_space c" if "c \<in> set r" for c
    using chars [OF that] is_digit_plain [of c] by (auto simp: is_space_def)
  then have "trim_space r = r" by (rule no_space_trim)
  then show ?thesis using Cons r(2) chars is_digit_plain by (auto simp: plain_entry_def r(1))
qed simp

lemma lbSourceCIDRs_plain: "list_all plain_entry (lbSourceCIDRs lb)"
  using usable_ipv4_plain by (auto simp: lbSourceCIDRs_def list_all_iff)

section \<open>What a patch does to the service\<close>

text \<open>The merge patch as the API server applies it, and the service after a patch for \<open>ws\<close>.\<close>

definition apply_patch :: "source_patch \<Rightarrow> service \<Rightarrow> service" where
  "apply_patch p s = s\<lparr>svc_source_ranges := (case pt_ranges p of None \<Rightarrow> [] | Some r \<Rightarrow> r),
     svc_annotations := (svc_annotations s)(name_str LBNodePortSourceRanges := pt_managed p)\<rparr>"

definition patched :: "string list \<Rightarrow> service \<Rightarrow> service" where
  "patched ws s = (case source_ranges_patch s ws of None \<Rightarrow> s | Some p \<Rightarrow> apply_patch p s)"

text \<open>The entries of the service that are not the controller's.\<close>

definition user_entries :: "service \<Rightarrow> string list" where
  "user_entries s = filter (\<lambda>c. \<not> containsCIDR (managedSourceRanges s) c) (svc_source_ranges s)"

lemma patched_annotation:
  assumes "list_all plain_entry ws"
  shows "svc_source_ranges (patched ws s) = ranges_after (svc_source_ranges s) (managedSourceRanges s) ws"
    and "managedSourceRanges (patched ws s) = ownedEntries (svc_source_ranges s) (managedSourceRanges s) ws"
proof -
  let ?own = "ownedEntries (svc_source_ranges s) (managedSourceRanges s) ws"
  have plain: "list_all plain_entry ?own"
    using assms by (auto simp: list_all_iff ownedEntries_def)
  have "StringFromService LBNodePortSourceRanges (patched ws s) = (if ?own = [] then None else Some (join '','' ?own))"
    using join_empty [OF plain]
    by (cases "StringFromService LBNodePortSourceRanges s")
      (auto simp: patched_def source_ranges_patch_def Let_def nodePortSourcePatch_def apply_patch_def
        StringFromService_def desiredSourceRanges_def)
  from managed_join [OF plain this] show "managedSourceRanges (patched ws s) = ?own" .
  show "svc_source_ranges (patched ws s) = ranges_after (svc_source_ranges s) (managedSourceRanges s) ws"
    by (auto simp: patched_def source_ranges_patch_def Let_def nodePortSourcePatch_def apply_patch_def
        ranges_after_def split: prod.split if_splits) (auto simp: desiredSourceRanges_def Let_def)
qed

lemma wanted_plain: "list_all plain_entry (if restrict then lbSourceCIDRs lb else [])"
  by (simp add: lbSourceCIDRs_plain)

text \<open>What a patch achieves; these facts carry every property below.\<close>

lemma user_entries_patched: "list_all plain_entry ws \<Longrightarrow> user_entries (patched ws s) = user_entries s"
  unfolding user_entries_def by (simp add: patched_annotation foreign_entries_kept del: owned_keys)

lemma ranges_patched:
  "list_all plain_entry ws \<Longrightarrow> keys (svc_source_ranges (patched ws s)) = keys ws \<union> keys (user_entries s)"
proof -
  assume "list_all plain_entry ws"
  moreover have "keys (user_entries s) = keys (svc_source_ranges s) - keys (managedSourceRanges s)"
    by (auto simp: user_entries_def keys_def)
  ultimately show ?thesis by (simp add: patched_annotation ranges_after_keys)
qed

lemma patched_off: "svc_source_ranges (patched [] s) = user_entries s"
  by (simp add: patched_annotation ranges_after_eq user_entries_def)

lemma source_ranges_patch_None:
  "source_ranges_patch s ws = None \<longleftrightarrow> svc_source_ranges s = ranges_after (svc_source_ranges s) (managedSourceRanges s) ws \<and>
     (let managed = join '','' (ownedEntries (svc_source_ranges s) (managedSourceRanges s) ws);
          annotation = StringFromService LBNodePortSourceRanges s
      in annotation = (if managed = '''' then None else Some managed))"
  by (cases "StringFromService LBNodePortSourceRanges s")
    (auto simp: source_ranges_patch_def Let_def ranges_after_def desiredSourceRanges_def split: prod.split)

lemma patched_settled:
  assumes "list_all plain_entry ws"
  shows "source_ranges_patch (patched ws s) ws = None"
proof (cases "source_ranges_patch s ws")
  case (Some p)
  let ?own = "join '','' (ownedEntries (svc_source_ranges s) (managedSourceRanges s) ws)"
  have "StringFromService LBNodePortSourceRanges (patched ws s) = (if ?own = '''' then None else Some ?own)"
    using Some by (auto simp: patched_def source_ranges_patch_def Let_def nodePortSourcePatch_def apply_patch_def
        StringFromService_def split: prod.splits if_splits)
  then show ?thesis
    unfolding source_ranges_patch_None
    by (simp add: patched_annotation [OF assms] ranges_after_again owned_again)
qed (simp add: patched_def)

text \<open>C22: One update of the source ranges. For any service and any load balancer, whether the feature is on
  or off: the entries of others stay exactly as they are, in their order; afterwards the ranges
  are those entries and the addresses of the load balancer, nothing else; the bookkeeping
  annotation names only addresses of the load balancer; with the feature off exactly the
  entries of others are left; and a second update has nothing to do.\<close>

theorem source_ranges_update:
  "(let ws = (if restrict then lbSourceCIDRs lb else []); s' = patched ws s
    in user_entries s' = user_entries s \<and>
       keys (svc_source_ranges s') = keys ws \<union> keys (user_entries s) \<and>
       keys (managedSourceRanges s') \<subseteq> keys ws \<and>
       (restrict \<or> svc_source_ranges s' = user_entries s) \<and>
       source_ranges_patch s' ws = None)"
proof -
  note plain = wanted_plain [of restrict lb]
  have "keys (managedSourceRanges (patched (if restrict then lbSourceCIDRs lb else []) s)) \<subseteq>
      keys (if restrict then lbSourceCIDRs lb else [])"
    unfolding patched_annotation [OF plain] by auto
  then show ?thesis
    by (simp add: Let_def user_entries_patched [OF plain] ranges_patched [OF plain] patched_settled [OF plain] patched_off)
qed

end
