(* ===== verification/NodePortRuns.thy ===== *)
theory NodePortRuns
  imports NodePortSource Samples
begin

text \<open>
  The runs of \<open>setManagedSourceRanges\<close> and of its two callers: what reaches the Kubernetes API. client-go's
  \<open>RetryOnConflict\<close> is a parameter; \<open>retry_law\<close> states its documented behaviour.
\<close>

section \<open>Retrying\<close>

definition logs :: "('w, 'a) go \<Rightarrow> bool" where
  "logs m \<longleftrightarrow> valid m (\<lambda>cs a. True)"

text \<open>
  \<open>RetryOnConflict\<close> runs the function until it does not fail with a conflict, or the backoff is
  used up, and returns the last result.
\<close>

definition retry_law :: "(goerr \<Rightarrow> bool) \<Rightarrow> (('w, goerr option) go \<Rightarrow> ('w, goerr option) go) \<Rightarrow> bool" where
  "retry_law conflict R \<longleftrightarrow> (\<forall>m. logs m \<longrightarrow> logs (R m) \<and> (\<forall>cs err. runs (R m) cs err \<longrightarrow>
     (\<exists>rs. rs \<noteq> [] \<and> cs = concat (map fst rs) \<and> err = snd (last rs) \<and>
       (\<forall>r \<in> set rs. runs m (fst r) (snd r)) \<and> (\<forall>r \<in> set (butlast rs). \<exists>e. snd r = Some e \<and> conflict e))))"

fun retry_upto :: "(goerr \<Rightarrow> bool) \<Rightarrow> nat \<Rightarrow> ('w, goerr option) go \<Rightarrow> ('w, goerr option) go" where
  "retry_upto conflict 0 m = m"
| "retry_upto conflict (Suc n) m = do {
     err \<leftarrow> m;
     case err of
       Some e \<Rightarrow> if conflict e then retry_upto conflict n m else ret (Some e)
     | None \<Rightarrow> ret None
   }"

lemma runs_bind:
  assumes "runs (State_Monad.bind m f) cs b" and "valid m (\<lambda>cs a. True)" and "\<And>a. valid (f a) (\<lambda>cs a. True)"
  obtains c1 a c2 where "cs = c1 @ c2" "runs m c1 a" "runs (f a) c2 b"
proof -
  from assms(1) obtain s s' where run: "run_state (State_Monad.bind m f) s = (b, s')" "trace s' = trace s @ cs"
    by (auto simp: runs_def)
  obtain a s1 where m: "run_state m s = (a, s1)" by (cases "run_state m s")
  with run have f: "run_state (f a) s1 = (b, s')" by simp
  from validD [OF assms(2) m] obtain c1 where c1: "trace s1 = trace s @ c1" by blast
  from validD [OF assms(3) f] obtain c2 where c2: "trace s' = trace s1 @ c2" by blast
  show thesis
  proof (rule that)
    show "cs = c1 @ c2" using run(2) c1 c2 by simp
    show "runs m c1 a" "runs (f a) c2 b" unfolding runs_def using m c1 f c2 by blast+
  qed
qed

lemma runs_return: "runs (ret a) cs b \<Longrightarrow> cs = [] \<and> b = a"
  by (auto simp: runs_def)

lemma runs_bind_ret:
  assumes "runs (do { a \<leftarrow> m; ret (g a) }) cs b" and "logs m"
  shows "\<exists>a. runs m cs a \<and> b = g a"
  using assms(1)
proof (rule runs_bind)
  show "valid m (\<lambda>cs a. True)" using assms(2) by (simp only: logs_def)
  show "valid (ret (g a)) (\<lambda>cs a. True)" for a by (rule valid_return) simp
next
  fix c1 a c2 assume "cs = c1 @ c2" "runs m c1 a" "runs (ret (g a)) c2 b"
  with runs_return [OF this(3)] show ?thesis by auto
qed

lemma logs_retry: "logs m \<Longrightarrow> logs (retry_upto conflict n m)"
proof (induction n)
  case (Suc n)
  then show ?case
    unfolding logs_def retry_upto.simps
    by (intro valid_bind, elim valid_mono) (auto split: option.split)
qed simp

lemma retry_upto_attempts:
  assumes "logs m" and "runs (retry_upto conflict n m) cs err"
  shows "\<exists>rs. rs \<noteq> [] \<and> cs = concat (map fst rs) \<and> err = snd (last rs) \<and>
    (\<forall>r \<in> set rs. runs m (fst r) (snd r)) \<and> (\<forall>r \<in> set (butlast rs). \<exists>e. snd r = Some e \<and> conflict e)"
  using assms(2)
proof (induction n arbitrary: cs)
  case 0
  then show ?case by (intro exI [of _ "[(cs, err)]"]) simp
next
  case (Suc n)
  let ?f = "\<lambda>x. case x of Some e \<Rightarrow> if conflict e then retry_upto conflict n m else ret (Some e) | None \<Rightarrow> ret None"
  have "runs (State_Monad.bind m ?f) cs err" using Suc.prems by simp
  then obtain c1 a c2 where r: "cs = c1 @ c2" "runs m c1 a" "runs (?f a) c2 err"
  proof (rule runs_bind)
    show "valid (?f a) (\<lambda>cs a. True)" for a
      using logs_retry [OF assms(1)] by (auto simp: logs_def split: option.split)
  qed (use assms(1) in \<open>simp_all add: logs_def\<close>)
  show ?case
  proof (cases "\<exists>e. a = Some e \<and> conflict e")
    case True
    with r(3) have "runs (retry_upto conflict n m) c2 err" by auto
    from Suc.IH [OF this] obtain rs where rs: "rs \<noteq> []" "c2 = concat (map fst rs)" "err = snd (last rs)"
      "\<forall>r \<in> set rs. runs m (fst r) (snd r)" "\<forall>r \<in> set (butlast rs). \<exists>e. snd r = Some e \<and> conflict e"
      by blast
    with r True show ?thesis by (intro exI [of _ "(c1, a) # rs"]) auto
  next
    case False
    with r(3) have "c2 = [] \<and> err = a" by (auto split: option.splits dest: runs_return)
    with r show ?thesis by (intro exI [of _ "[(c1, a)]"]) simp
  qed
qed

lemma retry_upto_law: "retry_law conflict (retry_upto conflict n)"
  unfolding retry_law_def
  by (intro allI impI conjI, erule logs_retry, erule (1) retry_upto_attempts)

section \<open>One attempt\<close>

definition attempt :: "'w load_balancers \<Rightarrow> service \<Rightarrow> string list \<Rightarrow> api_call list \<Rightarrow> goerr option \<Rightarrow> bool" where
  "attempt M svc ws cs err \<longleftrightarrow>
     (\<exists>e. cs = [KubeGet (svc_namespace svc) (svc_name svc) (Inl e)] \<and>
        err = (if a_is_kube_not_found (lbs_api M) e then None else Some e)) \<or>
     (\<exists>s. cs = [KubeGet (svc_namespace svc) (svc_name svc) (Inr s)] \<and> err = None \<and>
        (svc_deleting s \<or> source_ranges_patch s ws = None)) \<or>
     (\<exists>s p. cs = [KubeGet (svc_namespace svc) (svc_name svc) (Inr s), KubePatch (svc_namespace svc) (svc_name svc) p err] \<and>
        \<not> svc_deleting s \<and> source_ranges_patch s ws = Some p)"

lemma valid_update: "valid (update_source_ranges M svc ws) (attempt M svc ws)"
  unfolding update_source_ranges_def request_defs
proof (intro valid_bind valid_request, goal_cases)
  case (1 r)
  show ?case
    by (cases r) (auto simp: attempt_def intro!: valid_rules split: option.split)
qed

lemma patch_version: "source_ranges_patch s ws = Some p \<Longrightarrow> pt_resource_version p = svc_resource_version s"
  by (auto simp: source_ranges_patch_def Let_def nodePortSourcePatch_def split: prod.splits if_splits)

section \<open>All attempts\<close>

definition all_attempts :: "'w load_balancers \<Rightarrow> service \<Rightarrow> string list \<Rightarrow> api_call list \<Rightarrow> goerr option \<Rightarrow> bool" where
  "all_attempts M svc ws cs err \<longleftrightarrow>
     (\<exists>rs. rs \<noteq> [] \<and> cs = concat (map fst rs) \<and> err = snd (last rs) \<and>
       (\<forall>r \<in> set rs. attempt M svc ws (fst r) (snd r)) \<and>
       (\<forall>r \<in> set (butlast rs). \<exists>e. snd r = Some e \<and> a_is_kube_conflict (lbs_api M) e))"

definition nothing_to_set :: "'w load_balancers \<Rightarrow> service \<Rightarrow> string list \<Rightarrow> bool" where
  "nothing_to_set M svc ws \<longleftrightarrow> ws = [] \<and> managedSourceRanges svc = [] \<or> \<not> lbs_has_k8s_client M"

abbreviation retries_conflicts :: "'w load_balancers \<Rightarrow> bool" where
  "retries_conflicts M \<equiv> retry_law (a_is_kube_conflict (lbs_api M)) (lbs_retry M)"

lemma logs_update: "logs (update_source_ranges M svc ws)"
  unfolding logs_def by (rule valid_mono [OF valid_update]) simp

lemma logs_set:
  assumes "retries_conflicts M"
  shows "logs (setManagedSourceRanges M svc ws)"
proof -
  have "logs (lbs_retry M (update_source_ranges M svc ws))"
    using assms logs_update unfolding retry_law_def by blast
  then show ?thesis unfolding setManagedSourceRanges_def by (simp add: logs_def)
qed

lemma set_runs:
  assumes "retries_conflicts M" and "runs (setManagedSourceRanges M svc ws) cs err"
  shows "cs = [] \<and> err = None \<and> nothing_to_set M svc ws \<or> all_attempts M svc ws cs err"
proof (cases "nothing_to_set M svc ws")
  case True
  with assms(2) show ?thesis
    unfolding setManagedSourceRanges_def nothing_to_set_def by (auto split: if_splits dest: runs_return)
next
  case False
  then have "runs (lbs_retry M (update_source_ranges M svc ws)) cs err"
    using assms(2) unfolding setManagedSourceRanges_def nothing_to_set_def by (simp split: if_splits)
  with assms(1) logs_update have "\<exists>rs. rs \<noteq> [] \<and> cs = concat (map fst rs) \<and> err = snd (last rs) \<and>
     (\<forall>r \<in> set rs. runs (update_source_ranges M svc ws) (fst r) (snd r)) \<and>
     (\<forall>r \<in> set (butlast rs). \<exists>e. snd r = Some e \<and> a_is_kube_conflict (lbs_api M) e)"
    unfolding retry_law_def by blast
  then show ?thesis using valid_runs [OF valid_update] unfolding all_attempts_def by blast
qed

lemma attempts_calls:
  assumes "all_attempts M svc ws cs err" and "c \<in> set cs"
  shows "(\<exists>r. c = KubeGet (svc_namespace svc) (svc_name svc) r) \<or>
    (\<exists>s p r. c = KubePatch (svc_namespace svc) (svc_name svc) p r \<and>
      KubeGet (svc_namespace svc) (svc_name svc) (Inr s) \<in> set cs \<and> \<not> svc_deleting s \<and> source_ranges_patch s ws = Some p)"
proof -
  from assms(1) obtain rs where rs: "cs = concat (map fst rs)" "\<forall>r \<in> set rs. attempt M svc ws (fst r) (snd r)"
    unfolding all_attempts_def by blast
  with assms(2) obtain r where r: "r \<in> set rs" "c \<in> set (fst r)" by auto
  with rs have "set (fst r) \<subseteq> set cs" "attempt M svc ws (fst r) (snd r)" by auto
  with r(2) show ?thesis unfolding attempt_def by auto
qed

text \<open>What the controller restricts the service to: nothing when it is switched off.\<close>

definition restricting :: "'w load_balancers \<Rightarrow> service \<Rightarrow> bool" where
  "restricting M svc \<longleftrightarrow> restrictNodePortSourceEnabled M svc = Inr True \<and> \<not> sourceRangesDenyList svc"

abbreviation wanted_ranges :: "'w load_balancers \<Rightarrow> service \<Rightarrow> load_balancer \<Rightarrow> string list" where
  "wanted_ranges M svc lb \<equiv> (if restricting M svc then lbSourceCIDRs lb else [])"

lemma reconcile_runs:
  assumes "retries_conflicts M" and "runs (reconcileNodePortSource M svc lb) cs err"
  shows "cs = [] \<or> (\<exists>err'. all_attempts M svc (wanted_ranges M svc lb) cs err' \<and>
      err = map_option (wrap ''hcloud/loadBalancers.reconcileNodePortSource'') err' \<and>
      (restricting M svc \<longrightarrow> lbSourceCIDRs lb \<noteq> []))"
proof (cases "restrictNodePortSourceEnabled M svc")
  case (Inr enabled)
  then have w: "enabled \<and> \<not> sourceRangesDenyList svc \<longleftrightarrow> restricting M svc" by (auto simp: restricting_def)
  show ?thesis
  proof (cases "restricting M svc \<and> lbSourceCIDRs lb = []")
    case False
    have "runs (do { err' \<leftarrow> setManagedSourceRanges M svc (wanted_ranges M svc lb);
        ret (map_option (wrap ''hcloud/loadBalancers.reconcileNodePortSource'') err') }) cs err"
      using assms(2) False w unfolding reconcileNodePortSource_def Let_def Inr by (auto split: if_splits)
    from runs_bind_ret [OF this logs_set [OF assms(1)]]
    obtain err' where "runs (setManagedSourceRanges M svc (wanted_ranges M svc lb)) cs err'"
      "err = map_option (wrap ''hcloud/loadBalancers.reconcileNodePortSource'') err'" by blast
    with False set_runs [OF assms(1)] show ?thesis by blast
  next
    case True
    then show ?thesis using assms(2) w unfolding reconcileNodePortSource_def Let_def Inr by (auto dest: runs_return)
  qed
next
  case (Inl e)
  then show ?thesis using assms(2) unfolding reconcileNodePortSource_def Let_def by (auto dest: runs_return)
qed

text \<open>C14: Whatever the API answers and however often the update is repeated, a patch that reconciling the
  source ranges sends is computed from a version of the service that was read before in the same
  run, carries that version as its guard, never goes to a service that is being deleted, and turns
  that version into the service with the addresses of the load balancer (or with no address when
  the feature is off or the ranges are a deny list). With the feature on, the addresses are not
  empty: the node port is never opened because the load balancer has no usable address.\<close>

theorem node_port_patch_guarded:
  assumes "retry_law (a_is_kube_conflict (lbs_api M)) (lbs_retry M)"
    and "runs (reconcileNodePortSource M svc lb) cs err"
    and "KubePatch ns n p r \<in> set cs"
  shows "\<exists>s. KubeGet ns n (Inr s) \<in> set cs \<and> ns = svc_namespace svc \<and> n = svc_name svc \<and> \<not> svc_deleting s \<and>
    pt_resource_version p = svc_resource_version s \<and> apply_patch p s = patched (wanted_ranges M svc lb) s \<and>
    (lbSourceCIDRs lb \<noteq> [] \<or> \<not> restricting M svc)"
proof -
  from reconcile_runs [OF assms(1,2)] assms(3) obtain err' where
    a: "all_attempts M svc (wanted_ranges M svc lb) cs err'" "restricting M svc \<longrightarrow> lbSourceCIDRs lb \<noteq> []" by auto
  from attempts_calls [OF a(1) assms(3)] obtain s where "KubeGet ns n (Inr s) \<in> set cs" "ns = svc_namespace svc" "n = svc_name svc"
    "\<not> svc_deleting s" "source_ranges_patch s (wanted_ranges M svc lb) = Some p" by blast
  with a(2) patch_version show ?thesis by (intro exI [of _ s]) (auto simp: patched_def)
qed

text \<open>When \<open>setManagedSourceRanges\<close> reports no error, either there was nothing to set, or its last attempt
  ended well: the service is gone or being deleted, already had the ranges, or was patched from
  the version just read; every earlier attempt failed with a conflict. The only calls are reads and
  patches of this service.\<close>

theorem set_ranges_outcome:
  assumes "retry_law (a_is_kube_conflict (lbs_api M)) (lbs_retry M)"
    and "runs (setManagedSourceRanges M svc ws) cs None"
  shows "cs = [] \<and> nothing_to_set M svc ws \<or>
    (\<exists>earlier final. cs = concat (map fst earlier) @ final \<and> attempt M svc ws final None \<and>
       list_all (\<lambda>(c, x). attempt M svc ws c x \<and> (\<exists>e. x = Some e \<and> a_is_kube_conflict (lbs_api M) e)) earlier)"
proof -
  consider "cs = []" "nothing_to_set M svc ws" | "all_attempts M svc ws cs None"
    using set_runs [OF assms] by auto
  then show ?thesis
  proof cases
    case 2
    then obtain rs where rs: "rs \<noteq> []" "cs = concat (map fst rs)" "None = snd (last rs)"
      "\<forall>r \<in> set rs. attempt M svc ws (fst r) (snd r)"
      "\<forall>r \<in> set (butlast rs). \<exists>e. snd r = Some e \<and> a_is_kube_conflict (lbs_api M) e"
      unfolding all_attempts_def by blast
    have "concat (map fst rs) = concat (map fst (butlast rs)) @ fst (last rs)"
      using rs(1) by (subst append_butlast_last_id [symmetric, of rs]) (auto simp del: append_butlast_last_id)
    moreover have "attempt M svc ws (fst (last rs)) None" using rs(1,3,4) by (metis last_in_set)
    moreover have "list_all (\<lambda>(c, x). attempt M svc ws c x \<and> (\<exists>e. x = Some e \<and> a_is_kube_conflict (lbs_api M) e)) (butlast rs)"
      using rs(4,5) in_set_butlastD unfolding list_all_iff by fastforce
    ultimately show ?thesis using rs(2) by blast
  qed simp
qed

section \<open>A concrete client\<close>

text \<open>
  An API server that holds one service: reading gives it, a patch with the right version is applied
  and raises the version, any other patch is a conflict.
\<close>

definition conflict_error :: goerr where "conflict_error = Ext ''409'' ''conflict''"

definition one_service_api :: "service api" where
  "one_service_api = still_api\<lparr>
     a_kube_get := \<lambda>ns n w. (Inr w, w),
     a_kube_patch := \<lambda>ns n p w. if pt_resource_version p = svc_resource_version w
       then (None, (apply_patch p w)\<lparr>svc_resource_version := svc_resource_version w @ ''1''\<rparr>) else (Some conflict_error, w),
     a_is_kube_conflict := \<lambda>e. e = conflict_error\<rparr>"

definition sample_balancers :: "service load_balancers" where
  "sample_balancers = \<lparr>lbs_ops = hcops_iface (ops_on one_service_api), lbs_api = one_service_api,
     lbs_disable_private_ingress = False, lbs_disable_ipv6 = False, lbs_restrict_node_port = True,
     lbs_has_k8s_client = True, lbs_retry = retry_upto (\<lambda>e. e = conflict_error) 5\<rparr>"

definition ranged_service :: service where
  "ranged_service = (annotated [])\<lparr>svc_source_ranges := [''10.0.0.0/8''], svc_resource_version := ''1''\<rparr>"

lemma sample_balancers_retry: "retry_law (a_is_kube_conflict (lbs_api sample_balancers)) (lbs_retry sample_balancers)"
  by (simp add: sample_balancers_def one_service_api_def retry_upto_law)

definition ranged_run :: "goerr option \<times> api_call list" where
  "ranged_run = outcome (reconcileNodePortSource sample_balancers ranged_service sample_lb) sample_globals ranged_service"

fun patches_web :: "api_call \<Rightarrow> bool" where
  "patches_web (KubePatch ns n p r) = (ns = ''default'' \<and> n = ''web'')"
| "patches_web c = False"

lemma patches_web_iff: "patches_web c \<longleftrightarrow> (\<exists>p r. c = KubePatch ''default'' ''web'' p r)"
  by (cases c) auto

theorem node_port_patch_guarded_witness:
  "\<exists>cs p r s. runs (reconcileNodePortSource sample_balancers ranged_service sample_lb) cs None \<and>
     KubePatch ''default'' ''web'' p r \<in> set cs \<and> KubeGet ''default'' ''web'' (Inr s) \<in> set cs \<and>
     apply_patch p s = patched (wanted_ranges sample_balancers ranged_service sample_lb) s"
proof -
  have "list_ex patches_web (snd ranged_run)" by code_simp
  then obtain p r where p: "KubePatch ''default'' ''web'' p r \<in> set (snd ranged_run)"
    by (auto simp: list_ex_iff patches_web_iff)
  have "fst ranged_run = None" by code_simp
  from runs_outcome [OF this [unfolded ranged_run_def], folded ranged_run_def]
  have run: "runs (reconcileNodePortSource sample_balancers ranged_service sample_lb) (snd ranged_run) None" .
  from node_port_patch_guarded [OF sample_balancers_retry run p] p run show ?thesis by blast
qed

definition set_run :: "goerr option \<times> api_call list" where
  "set_run = outcome (setManagedSourceRanges sample_balancers ranged_service [''1.2.3.4/32'']) sample_globals ranged_service"

theorem set_ranges_outcome_witness:
  "\<exists>cs (earlier :: (api_call list \<times> goerr option) list) final. runs (setManagedSourceRanges sample_balancers ranged_service [''1.2.3.4/32'']) cs None \<and>
     cs = concat (map fst earlier) @ final \<and> attempt sample_balancers ranged_service [''1.2.3.4/32''] final None"
proof -
  have "fst set_run = None" by code_simp
  from runs_outcome [OF this [unfolded set_run_def], folded set_run_def]
  have run: "runs (setManagedSourceRanges sample_balancers ranged_service [''1.2.3.4/32'']) (snd set_run) None" .
  have "\<not> nothing_to_set sample_balancers ranged_service [''1.2.3.4/32'']"
    by (simp add: nothing_to_set_def sample_balancers_def)
  with set_ranges_outcome [OF sample_balancers_retry run] obtain earlier :: "(api_call list \<times> goerr option) list" and final where
    "snd set_run = concat (map fst earlier) @ final" "attempt sample_balancers ranged_service [''1.2.3.4/32''] final None"
    by auto
  with run show ?thesis by metis
qed

end
