(* ===== verification/NodePortHistory.thy ===== *)
theory NodePortHistory
  imports NodePortRuns
begin

text \<open>
  The service object under interleaving writers. The controller reads the service and later sends the
  patch computed from what it read; between the two, users edit the ranges. The API server accepts
  a patch only at the version it names. The entries of the users are never lost.
\<close>

section \<open>The transition system\<close>

text \<open>
  The stored service, the versions given out so far, the read the controller's next patch is based on,
  and, as a ghost, the entries that the users set last.
\<close>

record shared =
  sh_stored :: service
  sh_versions :: "string list"
  sh_read :: "service option"
  sh_users :: "string list"

definition renewed :: "string \<Rightarrow> service \<Rightarrow> shared \<Rightarrow> shared" where
  "renewed v s k = k\<lparr>sh_stored := s\<lparr>svc_resource_version := v\<rparr>, sh_versions := v # sh_versions k\<rparr>"

inductive writes :: "shared \<Rightarrow> shared \<Rightarrow> bool" where
  Read: "writes k (k\<lparr>sh_read := Some (sh_stored k)\<rparr>)"
| Patch: "sh_read k = Some s \<Longrightarrow> ws = (if restrict then lbSourceCIDRs lb else []) \<Longrightarrow>
    source_ranges_patch s ws = Some p \<Longrightarrow> pt_resource_version p = svc_resource_version (sh_stored k) \<Longrightarrow>
    v \<notin> set (sh_versions k) \<Longrightarrow> writes k ((renewed v (apply_patch p (sh_stored k)) k)\<lparr>sh_read := None\<rparr>)"
| Conflict: "sh_read k = Some s \<Longrightarrow> svc_resource_version s \<noteq> svc_resource_version (sh_stored k) \<Longrightarrow>
    writes k (k\<lparr>sh_read := None\<rparr>)"
| Edit: "StringFromService LBNodePortSourceRanges s = StringFromService LBNodePortSourceRanges (sh_stored k) \<Longrightarrow>
    v \<notin> set (sh_versions k) \<Longrightarrow> writes k ((renewed v s k)\<lparr>sh_users := user_entries s\<rparr>)"

definition initial :: "service \<Rightarrow> shared" where
  "initial s = \<lparr>sh_stored = s, sh_versions = [svc_resource_version s], sh_read = None, sh_users = user_entries s\<rparr>"

section \<open>The invariant\<close>

definition current_read :: "shared \<Rightarrow> bool" where
  "current_read k \<longleftrightarrow> (case sh_read k of None \<Rightarrow> True
     | Some s \<Rightarrow> svc_resource_version s \<in> set (sh_versions k) \<and>
         (svc_resource_version s = svc_resource_version (sh_stored k) \<longrightarrow> s = sh_stored k))"

definition shared_inv :: "shared \<Rightarrow> bool" where
  "shared_inv k \<longleftrightarrow> svc_resource_version (sh_stored k) \<in> set (sh_versions k) \<and> current_read k \<and>
     user_entries (sh_stored k) = sh_users k"

lemma entries_version [simp]:
  "user_entries (s\<lparr>svc_resource_version := v\<rparr>) = user_entries s"
  "managedSourceRanges (s\<lparr>svc_resource_version := v\<rparr>) = managedSourceRanges s"
  by (simp_all add: user_entries_def managedSourceRanges_def StringFromService_def)

lemma shared_inv_step:
  assumes "writes k k'" and "shared_inv k"
  shows "shared_inv k'"
  using assms(1)
proof cases
  case (Patch s ws restrict lb p v)
  with assms(2) have s: "s = sh_stored k"
    by (auto simp: shared_inv_def current_read_def dest: patch_version)
  with Patch have "apply_patch p (sh_stored k) = patched ws (sh_stored k)" by (simp add: patched_def)
  with Patch(3) have "user_entries (apply_patch p (sh_stored k)) = user_entries (sh_stored k)"
    using user_entries_patched [OF wanted_plain [of restrict lb]] by simp
  with assms(2) Patch show ?thesis by (simp add: shared_inv_def current_read_def renewed_def)
next
  case (Edit s v)
  with assms(2) show ?thesis
    by (auto simp: shared_inv_def current_read_def renewed_def split: option.splits)
qed (use assms(2) in \<open>auto simp: shared_inv_def current_read_def\<close>)

lemma shared_inv_reachable: "writes\<^sup>*\<^sup>* (initial s) k \<Longrightarrow> shared_inv k"
proof (induction rule: rtranclp_induct)
  case base
  then show ?case by (simp add: initial_def shared_inv_def current_read_def)
qed (rule shared_inv_step)

text \<open>C4: In every interleaving of reads and patches of the controller, for any load balancer addresses
  and with the feature switched on and off at will, with edits of users: the entries that are not
  the controller's are exactly those the users set last. When the controller is switched off and
  has nothing left to patch, the ranges are exactly the users' entries.\<close>

theorem user_entries_survive:
  assumes "writes\<^sup>*\<^sup>* (initial s) k"
  shows "user_entries (sh_stored k) = sh_users k \<and>
    (source_ranges_patch (sh_stored k) [] = None \<longrightarrow> svc_source_ranges (sh_stored k) = sh_users k)"
proof -
  from shared_inv_reachable [OF assms] have inv: "user_entries (sh_stored k) = sh_users k"
    by (simp add: shared_inv_def)
  have "svc_source_ranges (sh_stored k) = user_entries (sh_stored k)" if "source_ranges_patch (sh_stored k) [] = None"
    using that patched_off [of "sh_stored k"] by (simp add: patched_def)
  with inv show ?thesis by simp
qed

text \<open>An example: the controller adds an address, a user adds a range, the controller retreats.\<close>

definition after_add :: shared where
  "after_add = (renewed ''2'' (patched (lbSourceCIDRs sample_lb) ranged_service) (initial ranged_service))\<lparr>sh_read := None\<rparr>"

lemma after_add_reachable: "writes\<^sup>*\<^sup>* (initial ranged_service) after_add"
proof -
  have some: "source_ranges_patch ranged_service (lbSourceCIDRs sample_lb) \<noteq> None" by code_simp
  then obtain p where p: "source_ranges_patch ranged_service (lbSourceCIDRs sample_lb) = Some p" by blast
  let ?k = "(initial ranged_service)\<lparr>sh_read := Some ranged_service\<rparr>"
  have "writes (initial ranged_service) ?k"
    using Read [of "initial ranged_service"] by (simp add: initial_def)
  moreover have "writes ?k after_add"
    using Patch [of ?k ranged_service "lbSourceCIDRs sample_lb" True sample_lb p "''2''"] p
    by (simp add: initial_def after_add_def patch_version [OF p] patched_def renewed_def ranged_service_def)
  ultimately show ?thesis by (meson converse_rtranclp_into_rtranclp rtranclp.rtrancl_refl)
qed

theorem user_entries_survive_witness: "user_entries (sh_stored after_add) = [''10.0.0.0/8'']"
proof -
  have "sh_users after_add = [''10.0.0.0/8'']"
    by (simp add: after_add_def renewed_def initial_def) code_simp
  with user_entries_survive [OF after_add_reachable] show ?thesis by simp
qed

end
