(* ===== verification/LoadBalancers.thy ===== *)
theory LoadBalancers
  imports NodePortRuns
begin

text \<open>
  \<open>hcloud/load_balancers.go\<close>, the load balancer part of the cloud provider, and \<open>LBToService\<close> of
  \<open>internal/annotation/load_balancer.go\<close>. The handlers are written against the interface
  \<open>LoadBalancerOps\<close>; a handler that changes the service it is given returns the changed service.
\<close>

section \<open>Writing the load balancer into the annotations\<close>

definition isHTTP :: "hclb_service \<Rightarrow> bool" where
  "isHTTP s \<longleftrightarrow> hs_protocol s = ProtocolHTTP"

definition isHTTPS :: "hclb_service \<Rightarrow> bool" where
  "isHTTPS s \<longleftrightarrow> hs_protocol s = ProtocolHTTPS"

definition isHTTPHealthCheck :: "hclb_service \<Rightarrow> bool" where
  "isHTTPHealthCheck s \<longleftrightarrow> hc_http (hs_health_check s) \<noteq> None \<and> hc_protocol (hs_health_check s) = ProtocolHTTP"

definition isHTTPSHealthCheck :: "hclb_service \<Rightarrow> bool" where
  "isHTTPSHealthCheck s \<longleftrightarrow> hc_http (hs_health_check s) \<noteq> None \<and> hc_protocol (hs_health_check s) = ProtocolHTTPS"

definition annotate_all :: "(annot \<times> annot_value) list \<Rightarrow> annotator \<Rightarrow> annotator" where
  "annotate_all xs sa = foldl (\<lambda>sa (n, v). Annotate n v sa) sa xs"

text \<open>The annotations of the load balancer itself; \<open>t\<close> is the name of its type.\<close>

definition lb_annotations :: "load_balancer \<Rightarrow> string \<Rightarrow> (annot \<times> annot_value) list" where
  "lb_annotations lb t =
     [(LBID, VInt64 (lb_id lb)), (LBName, VString (lb_name lb)), (LBType, VString t),
      (LBAlgorithmType, VAlgorithmType (lb_algorithm lb)), (LBLocation, VString (lb_location lb)),
      (LBNetworkZone, VNetworkZone (lb_network_zone lb)), (LBPublicIPv4, VIP (lb_ipv4 lb)), (LBPublicIPv6, VIP (lb_ipv6 lb))]"

text \<open>The annotations of the one service of the load balancer that belongs to the Kubernetes service.\<close>

definition http_check_annotations :: "hclb_service \<Rightarrow> (annot \<times> annot_value) list" where
  "http_check_annotations s =
     (case hc_http (hs_health_check s) of
        None \<Rightarrow> []
      | Some h \<Rightarrow>
          (if isHTTPHealthCheck s \<or> isHTTPSHealthCheck s
           then [(LBSvcHealthCheckHTTPDomain, VString (hh_domain h)), (LBSvcHealthCheckHTTPPath, VString (hh_path h)),
             (LBSvcHealthCheckHTTPStatusCodes, VStrings (hh_status_codes h))] else []) @
          (if isHTTPSHealthCheck s then [(LBSvcHealthCheckHTTPValidateCertificate, VBool (hh_tls h))] else []))"

definition hclb_service_annotations :: "hclb_service \<Rightarrow> (annot \<times> annot_value) list" where
  "hclb_service_annotations s =
     [(LBSvcProtocol, VServiceProtocol (hs_protocol s)), (LBSvcProxyProtocol, VBool (hs_proxyprotocol s))] @
     (if isHTTP s \<or> isHTTPS s
      then [(LBSvcHTTPCookieName, VString (hs_cookie_name s)), (LBSvcHTTPCookieLifetime, VDuration (hs_cookie_lifetime s))] else []) @
     (if isHTTPS s
      then [(LBSvcRedirectHTTP, VBool (hs_redirect_http s)), (LBSvcHTTPCertificates, VCertificates (hs_certificates s))] else []) @
     [(LBSvcHealthCheckProtocol, VServiceProtocol (hc_protocol (hs_health_check s))),
      (LBSvcHealthCheckPort, VInt (hc_port (hs_health_check s))),
      (LBSvcHealthCheckInterval, VDuration (hc_interval (hs_health_check s))),
      (LBSvcHealthCheckTimeout, VDuration (hc_timeout (hs_health_check s))),
      (LBSvcHealthCheckRetries, VInt (hc_retries (hs_health_check s)))] @
     http_check_annotations s"

definition matching_service :: "service \<Rightarrow> load_balancer \<Rightarrow> hclb_service option" where
  "matching_service svc lb =
     find (\<lambda>s. list_ex (\<lambda>p. hs_listen_port s = sp_port p) (svc_ports svc)) (lb_services lb)"

definition LBToService :: "service \<Rightarrow> load_balancer \<Rightarrow> service \<times> goerr option" where
  "LBToService svc lb =
     (case lb_type lb of
        None \<Rightarrow> (svc, Some nil_deref)
      | Some t \<Rightarrow>
          (case annotate_all (lb_annotations lb t @
                  (case matching_service svc lb of None \<Rightarrow> [] | Some s \<Rightarrow> hclb_service_annotations s)) (svc, None) of
             (svc', err) \<Rightarrow> (svc', map_option (wrap ''annotation/LBToService'') err)))"

section \<open>Small helpers of the handlers\<close>

definition matchNodeSelector :: "'w load_balancers \<Rightarrow> service \<Rightarrow> node list \<Rightarrow> goerr + node list" where
  "matchNodeSelector M svc nodes =
     (case (case StringFromService LBNodeSelector svc of
              None \<Rightarrow> Inr (\<lambda>_. True)
            | Some v \<Rightarrow> a_labels_parse (lbs_api M) v) of
        Inl e \<Rightarrow> Inl (wrap ''unable to parse the node-selector annotation'' e)
      | Inr selector \<Rightarrow> Inr (filter (\<lambda>n. selector (nd_labels n)) nodes))"

definition GetLoadBalancerName :: "'w load_balancers \<Rightarrow> service \<Rightarrow> string" where
  "GetLoadBalancerName M svc =
     (case StringFromService LBName svc of Some v \<Rightarrow> v | None \<Rightarrow> a_default_lb_name (lbs_api M) svc)"

definition bool_or :: "annot \<Rightarrow> bool \<Rightarrow> service \<Rightarrow> goerr + bool" where
  "bool_or n dflt svc =
     (case BoolFromService n svc of
        Inr b \<Rightarrow> Inr b
      | Inl e \<Rightarrow> if errors_is e ErrNotSet then Inr dflt else Inl e)"

definition getDisablePrivateIngress :: "'w load_balancers \<Rightarrow> service \<Rightarrow> goerr + bool" where
  "getDisablePrivateIngress M svc = bool_or LBDisablePrivateIngress (lbs_disable_private_ingress M) svc"

definition getProxyProtocolEnabled :: "service \<Rightarrow> goerr + bool" where
  "getProxyProtocolEnabled svc = bool_or LBSvcProxyProtocol False svc"

definition getDisableIPv6 :: "'w load_balancers \<Rightarrow> service \<Rightarrow> goerr + bool" where
  "getDisableIPv6 M svc = bool_or LBIPv6Disabled (lbs_disable_ipv6 M) svc"

section \<open>The status of a service\<close>

datatype ip_mode = VIPMode | ProxyMode

record ingress =
  ig_ip :: string
  ig_hostname :: string
  ig_mode :: "ip_mode option"

definition address_ingress :: "ip_mode \<Rightarrow> ip \<Rightarrow> ingress" where
  "address_ingress m x = \<lparr>ig_ip = ip_text x, ig_hostname = '''', ig_mode = Some m\<rparr>"

definition public_ingress :: "'w load_balancers \<Rightarrow> load_balancer \<Rightarrow> service \<Rightarrow> ip_mode \<Rightarrow> goerr + ingress list" where
  "public_ingress M lb svc m =
     (case BoolFromService LBDisablePublicNetwork svc of
        Inl e \<Rightarrow> if errors_is e ErrNotSet
          then map_sum id (\<lambda>noV6. address_ingress m (lb_ipv4 lb) # (if noV6 then [] else [address_ingress m (lb_ipv6 lb)]))
                 (getDisableIPv6 M svc)
          else Inl e
      | Inr disable \<Rightarrow>
          if disable then Inr []
          else map_sum id (\<lambda>noV6. address_ingress m (lb_ipv4 lb) # (if noV6 then [] else [address_ingress m (lb_ipv6 lb)]))
                 (getDisableIPv6 M svc))"

definition getLBStatus :: "'w load_balancers \<Rightarrow> load_balancer \<Rightarrow> service \<Rightarrow> string \<Rightarrow> goerr + ingress list" where
  "getLBStatus M lb svc op =
     (case getProxyProtocolEnabled svc of
        Inl e \<Rightarrow> Inl (wrap op e)
      | Inr proxy \<Rightarrow> (let m = (if proxy then ProxyMode else VIPMode) in
          case StringFromService LBHostname svc of
            Some v \<Rightarrow> Inr [\<lparr>ig_ip = '''', ig_hostname = v, ig_mode = None\<rparr>]
          | None \<Rightarrow>
              (case public_ingress M lb svc m of
                 Inl e \<Rightarrow> Inl (wrap op e)
               | Inr public \<Rightarrow>
                   (case getDisablePrivateIngress M svc of
                      Inl e \<Rightarrow> Inl (wrap op e)
                    | Inr disable \<Rightarrow> Inr (public @ (if disable then [] else map (\<lambda>nw. address_ingress m (pn_ip nw)) (lb_private_net lb)))))))"

section \<open>The handlers\<close>

definition GetLoadBalancer :: "'w load_balancers \<Rightarrow> service \<Rightarrow> ('w, goerr + ingress list option) go" where
  "GetLoadBalancer M svc = (let op = ''hcloud/loadBalancers.GetLoadBalancer'' in do {
     r \<leftarrow> i_GetByK8SServiceUID (lbs_ops M) svc;
     ret (case r of
            Inl e \<Rightarrow> if errors_is e ErrNotFound then Inr None else Inl (flatten op e)
          | Inr lb \<Rightarrow>
              (case getLBStatus M lb svc op of
                 Inl e \<Rightarrow> Inl (wrap ''getLBStatus failed'' e)
               | Inr status \<Rightarrow> Inr (Some status)))
   })"

text \<open>The load balancer of a service: by its UID, then by its name, else a new one.\<close>

definition find_or_create :: "'w load_balancers \<Rightarrow> string \<Rightarrow> service \<Rightarrow> ('w, goerr + load_balancer) go" where
  "find_or_create M op svc = do {
     r \<leftarrow> i_GetByK8SServiceUID (lbs_ops M) svc;
     case r of
       Inr lb \<Rightarrow> ret (Inr lb)
     | Inl e \<Rightarrow>
         if \<not> errors_is e ErrNotFound then ret (Inl (flatten op e))
         else do {
           r \<leftarrow> i_GetByName (lbs_ops M) (GetLoadBalancerName M svc);
           case r of
             Inr lb \<Rightarrow> ret (Inr lb)
           | Inl e \<Rightarrow>
               if \<not> errors_is e ErrNotFound then ret (Inl (flatten op e))
               else do {
                 r \<leftarrow> i_Create (lbs_ops M) (GetLoadBalancerName M svc) svc;
                 ret (case r of Inl e \<Rightarrow> Inl (wrap op e) | Inr lb \<Rightarrow> Inr lb)
               }
         }
   }"

text \<open>The three reconciliations in the order of \<open>EnsureLoadBalancer\<close>: settings, services, targets.\<close>

definition ensure_reconciled :: "'w load_balancers \<Rightarrow> string \<Rightarrow> load_balancer \<Rightarrow> service \<Rightarrow> node list \<Rightarrow> ('w, goerr + load_balancer \<times> bool) go" where
  "ensure_reconciled M op lb svc nodes = do {
     r \<leftarrow> i_ReconcileHCLB (lbs_ops M) lb svc;
     case r of
       (lb, lbChanged, Some e) \<Rightarrow> ret (Inl (wrap op e))
     | (lb, lbChanged, None) \<Rightarrow> do {
         r \<leftarrow> i_ReconcileHCLBServices (lbs_ops M) lb svc;
         case r of
           (servicesChanged, Some e) \<Rightarrow> ret (Inl (wrap op e))
         | (servicesChanged, None) \<Rightarrow> do {
             r \<leftarrow> i_ReconcileHCLBTargets (lbs_ops M) lb svc nodes;
             ret (case r of
                    (targetsChanged, Some e) \<Rightarrow> Inl (wrap op e)
                  | (targetsChanged, None) \<Rightarrow> Inr (lb, lbChanged \<or> servicesChanged \<or> targetsChanged))
           }
       }
   }"

definition reload_changed :: "'w load_balancers \<Rightarrow> string \<Rightarrow> load_balancer \<Rightarrow> bool \<Rightarrow> ('w, goerr + load_balancer) go" where
  "reload_changed M op lb reload =
     (if reload then do {
        r \<leftarrow> i_GetByID (lbs_ops M) (lb_id lb);
        ret (case r of Inl e \<Rightarrow> Inl (wrap op e) | Inr lb \<Rightarrow> Inr lb)
      } else ret (Inr lb))"

text \<open>The end of \<open>EnsureLoadBalancer\<close>: annotations, source ranges, status.\<close>

definition publish :: "'w load_balancers \<Rightarrow> string \<Rightarrow> load_balancer \<Rightarrow> service \<Rightarrow> ('w, service \<times> (goerr + ingress list)) go" where
  "publish M op lb svc =
     (case LBToService svc lb of
        (svc, Some e) \<Rightarrow> ret (svc, Inl (wrap op e))
      | (svc, None) \<Rightarrow> do {
          err \<leftarrow> reconcileNodePortSource M svc lb;
          ret (svc, case err of Some e \<Rightarrow> Inl (wrap op e) | None \<Rightarrow> getLBStatus M lb svc op)
        })"

definition EnsureLoadBalancer :: "'w load_balancers \<Rightarrow> service \<Rightarrow> node list \<Rightarrow> ('w, service \<times> (goerr + ingress list)) go" where
  "EnsureLoadBalancer M svc nodes = (let op = ''hcloud/loadBalancers.EnsureLoadBalancer'' in
     case matchNodeSelector M svc nodes of
       Inl e \<Rightarrow> ret (svc, Inl (wrap op e))
     | Inr selected \<Rightarrow> do {
         r \<leftarrow> find_or_create M op svc;
         case r of
           Inl e \<Rightarrow> ret (svc, Inl e)
         | Inr lb \<Rightarrow> do {
             r \<leftarrow> ensure_reconciled M op lb svc selected;
             case r of
               Inl e \<Rightarrow> ret (svc, Inl e)
             | Inr (lb, reload) \<Rightarrow> do {
                 r \<leftarrow> reload_changed M op lb reload;
                 case r of
                   Inl e \<Rightarrow> ret (svc, Inl e)
                 | Inr lb \<Rightarrow> publish M op lb svc
               }
           }
       })"

text \<open>\<open>UpdateLoadBalancer\<close>: the load balancer of a service, \<open>None\<close> when there is none.\<close>

definition find_existing :: "'w load_balancers \<Rightarrow> string \<Rightarrow> service \<Rightarrow> ('w, goerr + load_balancer option) go" where
  "find_existing M op svc = do {
     r \<leftarrow> i_GetByK8SServiceUID (lbs_ops M) svc;
     case r of
       Inr lb \<Rightarrow> ret (Inr (Some lb))
     | Inl e \<Rightarrow>
         if \<not> errors_is e ErrNotFound then ret (Inl (wrap op e))
         else do {
           r \<leftarrow> i_GetByName (lbs_ops M) (GetLoadBalancerName M svc);
           ret (case r of
                  Inr lb \<Rightarrow> Inr (Some lb)
                | Inl e \<Rightarrow> if errors_is e ErrNotFound then Inr None else Inl (wrap op e))
         }
   }"

text \<open>The three reconciliations in the order of \<open>UpdateLoadBalancer\<close>: settings, targets, services.\<close>

definition update_reconciled :: "'w load_balancers \<Rightarrow> string \<Rightarrow> load_balancer \<Rightarrow> service \<Rightarrow> node list \<Rightarrow> ('w, goerr option) go" where
  "update_reconciled M op lb svc nodes = do {
     r \<leftarrow> i_ReconcileHCLB (lbs_ops M) lb svc;
     case r of
       (lb, changed, Some e) \<Rightarrow> ret (Some (wrap op e))
     | (lb, changed, None) \<Rightarrow> do {
         r \<leftarrow> i_ReconcileHCLBTargets (lbs_ops M) lb svc nodes;
         case r of
           (changed, Some e) \<Rightarrow> ret (Some (wrap op e))
         | (changed, None) \<Rightarrow> do {
             r \<leftarrow> i_ReconcileHCLBServices (lbs_ops M) lb svc;
             ret (map_option (wrap op) (snd r))
           }
       }
   }"

definition UpdateLoadBalancer :: "'w load_balancers \<Rightarrow> service \<Rightarrow> node list \<Rightarrow> ('w, goerr option) go" where
  "UpdateLoadBalancer M svc nodes = (let op = ''hcloud/loadBalancers.UpdateLoadBalancer'' in
     case matchNodeSelector M svc nodes of
       Inl e \<Rightarrow> ret (Some (wrap op e))
     | Inr selected \<Rightarrow> do {
         r \<leftarrow> find_existing M op svc;
         case r of
           Inl e \<Rightarrow> ret (Some e)
         | Inr None \<Rightarrow> ret None
         | Inr (Some lb) \<Rightarrow> update_reconciled M op lb svc selected
       })"

definition deleteLoadBalancer :: "'w load_balancers \<Rightarrow> service \<Rightarrow> ('w, goerr option) go" where
  "deleteLoadBalancer M svc = do {
     r \<leftarrow> i_GetByK8SServiceUID (lbs_ops M) svc;
     case r of
       Inl e \<Rightarrow> ret (if errors_is e ErrNotFound then None else Some e)
     | Inr lb \<Rightarrow>
         if lb_protected lb then ret None
         else do {
           err \<leftarrow> i_Delete (lbs_ops M) lb;
           ret (case err of Some e \<Rightarrow> if errors_is e ErrNotFound then None else Some e | None \<Rightarrow> None)
         }
   }"

definition EnsureLoadBalancerDeleted :: "'w load_balancers \<Rightarrow> service \<Rightarrow> ('w, goerr option) go" where
  "EnsureLoadBalancerDeleted M svc = do {
     err \<leftarrow> deleteLoadBalancer M svc;
     case err of
       Some e \<Rightarrow> ret (Some (wrap ''hcloud/loadBalancers.EnsureLoadBalancerDeleted'' e))
     | None \<Rightarrow> do {
         _ \<leftarrow> removeNodePortSource M svc;
         ret None
       }
   }"

end
