(* ===== verification/LoadBalancersSafety.thy ===== *)
theory LoadBalancersSafety
  imports LoadBalancers
begin

text \<open>
  What the handlers of \<open>hcloud/load_balancers.go\<close> do to the cloud, proved once for every provider of the
  interface inside the locale \<open>lb_lookup\<close> and then for \<open>hcops.LoadBalancerOps\<close>.
\<close>

section \<open>The calls of the Kubernetes side\<close>

fun kube_call :: "api_call \<Rightarrow> bool" where
  "kube_call (KubeGet ns n r) = True"
| "kube_call (KubePatch ns n p r) = True"
| "kube_call c = False"

lemma set_kube_calls:
  assumes "retries_conflicts M"
  shows "all_calls kube_call (setManagedSourceRanges M svc ws)"
  unfolding all_calls_def
proof (rule validI_runs)
  show "\<exists>cs. trace (snd (run_state (setManagedSourceRanges M svc ws) s)) = trace s @ cs" for s
    using logs_set [OF assms] unfolding logs_def valid_def by blast
  fix cs a assume "runs (setManagedSourceRanges M svc ws) cs a"
  from set_runs [OF assms this] show "\<forall>c \<in> set cs. kube_call c"
    using attempts_calls by fastforce
qed

lemma reconcile_kube_calls: "retries_conflicts M \<Longrightarrow> all_calls kube_call (reconcileNodePortSource M svc lb)"
  unfolding reconcileNodePortSource_def Let_def by (intro calls_rules set_kube_calls)

lemma remove_kube_calls: "retries_conflicts M \<Longrightarrow> all_calls kube_call (removeNodePortSource M svc)"
  unfolding removeNodePortSource_def by (intro calls_rules set_kube_calls)

lemma publish_kube_calls: "retries_conflicts M \<Longrightarrow> all_calls kube_call (publish M op lb svc)"
  unfolding publish_def by (intro calls_rules reconcile_kube_calls)

section \<open>Lookups that find nothing\<close>

text \<open>The log shows that no load balancer has the UID, or the name.\<close>

definition absent_uid :: "service \<Rightarrow> api_call list \<Rightarrow> bool" where
  "absent_uid svc cs \<longleftrightarrow> LbList (uid_selector svc) (Inr []) \<in> set cs"

definition no_answer :: "(goerr \<Rightarrow> bool) \<Rightarrow> goerr + load_balancer option \<Rightarrow> bool" where
  "no_answer gone x \<longleftrightarrow> (case x of Inl e \<Rightarrow> gone e | Inr lb \<Rightarrow> lb = None)"

definition absent_name :: "(goerr \<Rightarrow> bool) \<Rightarrow> string \<Rightarrow> api_call list \<Rightarrow> bool" where
  "absent_name gone n cs \<longleftrightarrow> (\<exists>x. no_answer gone x \<and> LbGetByName n x \<in> set cs)"

lemma absent_append [simp]:
  "absent_uid svc (cs @ ds) \<longleftrightarrow> absent_uid svc cs \<or> absent_uid svc ds"
  "absent_name m n (cs @ ds) \<longleftrightarrow> absent_name m n cs \<or> absent_name m n ds"
  by (auto simp: absent_uid_def absent_name_def)

text \<open>The answer to a deletion after which the load balancer is gone.\<close>

definition delete_done :: "(goerr \<Rightarrow> bool) \<Rightarrow> goerr option \<Rightarrow> bool" where
  "delete_done gone r \<longleftrightarrow> (case r of None \<Rightarrow> True | Some e \<Rightarrow> gone e)"

definition not_found :: "goerr + 'a \<Rightarrow> bool" where
  "not_found r \<longleftrightarrow> (case r of Inl e \<Rightarrow> errors_is e ErrNotFound | Inr x \<Rightarrow> False)"

lemma not_found_simps [simp]: "not_found (Inl e) = errors_is e ErrNotFound" "\<not> not_found (Inr x)"
  by (simp_all add: not_found_def)

locale lb_lookup = lb_provider I for I :: "'w lb_iface" +
  fixes gone :: "goerr \<Rightarrow> bool"
  assumes uid_absent: "valid (i_GetByK8SServiceUID I svc) (\<lambda>cs r. not_found r \<longrightarrow> absent_uid svc cs)"
    and name_absent: "valid (i_GetByName I n) (\<lambda>cs r. not_found r \<longrightarrow> absent_name gone n cs)"
    and uid_found: "valid (i_GetByK8SServiceUID I svc) (\<lambda>cs r. \<forall>lb. r = Inr lb \<longrightarrow> LbList (uid_selector svc) (Inr [lb]) \<in> set cs)"
    and name_found: "valid (i_GetByName I n) (\<lambda>cs r. \<forall>lb. r = Inr lb \<longrightarrow> LbGetByName n (Inr (Some lb)) \<in> set cs)"
    and deleted: "valid (i_Delete I lb) (\<lambda>cs err. \<exists>r. cs = [LbDelete (lb_id lb) r] \<and>
      (case err of None \<Rightarrow> delete_done gone r | Some e \<Rightarrow> errors_is e ErrNotFound \<longrightarrow> delete_done gone r))"
    and create_once: "valid (i_Create I n svc) (\<lambda>cs r. length (filter is_create cs) \<le> 1)"
begin

lemma uid_lookup: "valid (i_GetByK8SServiceUID I svc) (\<lambda>cs r. reads_only cs \<and> (not_found r \<longrightarrow> absent_uid svc cs) \<and>
    (\<forall>lb. r = Inr lb \<longrightarrow> LbList (uid_selector svc) (Inr [lb]) \<in> set cs))"
  by (rule valid_mono [OF valid_conj [OF valid_conj [OF by_uid_reads [unfolded all_calls_def] uid_absent] uid_found]])
    (auto simp: reads_only_def)

lemma name_lookup: "valid (i_GetByName I n) (\<lambda>cs r. reads_only cs \<and> (not_found r \<longrightarrow> absent_name gone n cs) \<and>
    (\<forall>lb. r = Inr lb \<longrightarrow> LbGetByName n (Inr (Some lb)) \<in> set cs))"
  by (rule valid_mono [OF valid_conj [OF valid_conj [OF by_name_reads [unfolded all_calls_def] name_absent] name_found]])
    (auto simp: reads_only_def)

lemma creation: "valid (i_Create I n svc) (\<lambda>cs r. (\<forall>c \<in> set cs. labelled_create n svc c) \<and> length (filter is_create cs) \<le> 1)"
  by (rule valid_conj [OF create_labelled [unfolded all_calls_def] create_once])

end

lemma hcops_uid_absent: "valid (GetByK8SServiceUID L svc) (\<lambda>cs r. not_found r \<longrightarrow> absent_uid svc cs)"
  unfolding GetByK8SServiceUID_def request_defs Let_def
  by (auto intro!: valid_rules simp: absent_uid_def not_found_def split: sum.splits list.splits)

abbreviation hcops_gone :: "'w lb_ops \<Rightarrow> goerr \<Rightarrow> bool" where
  "hcops_gone L e \<equiv> a_is_error (l_api L) e ErrorCodeNotFound \<or> errors_is e ErrNotFound"

lemma not_found_answer: "not_found (found_or_error (l_api L) op what x) \<Longrightarrow> no_answer (hcops_gone L) x"
  by (auto simp: no_answer_def not_found_def found_or_error_def split: sum.splits option.splits if_splits)

lemma hcops_name_absent: "valid (GetByName L n) (\<lambda>cs r. not_found r \<longrightarrow> absent_name (hcops_gone L) n cs)"
  unfolding GetByName_def request_defs
  by (intro valid_rules) (auto simp: absent_name_def dest: not_found_answer)

lemma hcops_uid_found:
  "valid (GetByK8SServiceUID L svc) (\<lambda>cs r. \<forall>lb. r = Inr lb \<longrightarrow> LbList (uid_selector svc) (Inr [lb]) \<in> set cs)"
  unfolding GetByK8SServiceUID_def request_defs Let_def
  by (auto intro!: valid_rules split: sum.splits list.splits)

lemma found_answer: "found_or_error A op what x = Inr lb \<Longrightarrow> x = Inr (Some lb)"
  by (auto simp: found_or_error_def split: sum.splits option.splits if_splits)

lemma hcops_name_found: "valid (GetByName L n) (\<lambda>cs r. \<forall>lb. r = Inr lb \<longrightarrow> LbGetByName n (Inr (Some lb)) \<in> set cs)"
  unfolding GetByName_def request_defs by (intro valid_rules) (auto dest: found_answer)

lemma flatten_not_found: "\<not> errors_is (flatten p e) ErrNotFound"
  by simp

lemma hcops_deleted: "valid (Delete L lb) (\<lambda>cs err. \<exists>r. cs = [LbDelete (lb_id lb) r] \<and>
    (case err of None \<Rightarrow> delete_done (hcops_gone L) r | Some e \<Rightarrow> errors_is e ErrNotFound \<longrightarrow> delete_done (hcops_gone L) r))"
  unfolding Delete_def request_defs
  by (intro valid_rules) (auto simp: delete_done_def flatten_not_found split: option.split)

lemma reads_no_create: "reads_only cs \<Longrightarrow> filter is_create cs = []"
proof (rule filter_False, rule ballI)
  fix c assume "reads_only cs" "c \<in> set cs"
  then have "\<not> is_write c" by (simp add: reads_only_def)
  then show "\<not> is_create c" by (cases c) auto
qed

lemma hcops_create_once: "valid (Create L n svc) (\<lambda>cs r. length (filter is_create cs) \<le> 1)"
proof (cases "create_opts L n svc")
  case (Inr opts)
  show ?thesis
    unfolding Create_def Let_def Inr sum.case
  proof (rule valid_bind, rule valid_mono [OF create_network_labels], goal_cases)
    case (1 cs r)
    then have "filter is_create cs = []" by (simp add: reads_no_create)
    then show ?case
      unfolding GetByID_def request_defs
      by (auto intro!: valid_rules split: sum.split option.split prod.split)
  qed
qed (simp add: Create_def valid_return)

interpretation hcops_lookup: lb_lookup "hcops_iface L" "hcops_gone L" for L
  unfolding hcops_iface_def
  by unfold_locales
    (simp_all only: lb_iface.simps hcops_laws hcops_uid_absent hcops_name_absent
      hcops_uid_found hcops_name_found hcops_deleted hcops_create_once)

section \<open>The handlers against the interface\<close>

text \<open>A call that the part of \<open>EnsureLoadBalancer\<close> after the lookup may make.\<close>

definition ensure_call :: "int \<Rightarrow> api_call \<Rightarrow> bool" where
  "ensure_call i c \<longleftrightarrow> touches_only i c \<or> kube_call c"

lemma ensure_call_intros:
  "touches_only i c \<Longrightarrow> ensure_call i c" "kube_call c \<Longrightarrow> ensure_call i c" "\<not> is_write c \<Longrightarrow> ensure_call i c"
  by (auto simp: ensure_call_def touches_only_read)

lemma ensure_call_no_create: "ensure_call i c \<Longrightarrow> \<not> is_create c \<and> \<not> is_delete c"
  by (cases c) (auto simp: ensure_call_def)

text \<open>The log of a lookup that may create: the load balancer is only created when it is absent.\<close>

definition created_if_absent :: "(goerr \<Rightarrow> bool) \<Rightarrow> string \<Rightarrow> service \<Rightarrow> api_call list \<Rightarrow> bool" where
  "created_if_absent gone n svc cs \<longleftrightarrow> (\<forall>c \<in> set cs. labelled_create n svc c) \<and> length (filter is_create cs) \<le> 1 \<and>
     (filter is_create cs \<noteq> [] \<longrightarrow> absent_uid svc cs \<and> absent_name gone n cs)"

lemma created_if_absent_reads: "reads_only cs \<Longrightarrow> created_if_absent gone n svc cs"
  by (simp add: created_if_absent_def reads_no_create) (simp add: reads_only_def labelled_create_read)

lemma created_if_absent_create:
  "reads_only cs \<Longrightarrow> absent_uid svc cs \<Longrightarrow> absent_name gone n cs \<Longrightarrow>
   \<forall>c \<in> set ds. labelled_create n svc c \<Longrightarrow> length (filter is_create ds) \<le> 1 \<Longrightarrow> created_if_absent gone n svc (cs @ ds)"
  using created_if_absent_reads [of cs gone n svc] by (simp add: created_if_absent_def reads_no_create) blast

context lb_lookup
begin

lemma find_or_create_safe:
  assumes "lbs_ops M = I"
  shows "valid (find_or_create M op svc) (\<lambda>cs r. created_if_absent gone (GetLoadBalancerName M svc) svc cs)"
  unfolding find_or_create_def assms
proof (rule valid_bind, rule valid_mono [OF uid_lookup], goal_cases)
  case (1 cs r)
  show ?case
  proof (cases "not_found r")
    case True
    then obtain e where r: "r = Inl e" "errors_is e ErrNotFound" by (cases r) auto
    show ?thesis
      unfolding r sum.case
    proof (simp only: r(2) not_True_eq_False if_False, rule valid_bind, rule valid_mono [OF name_lookup], goal_cases)
      case (1 cs1 r1)
      note reads = 1 \<open>reads_only cs \<and> _\<close>
      then have ro: "reads_only (cs @ cs1)" by (auto simp: reads_only_def)
      show ?case
      proof (cases "not_found r1")
        case nf: True
        then obtain e1 where r1: "r1 = Inl e1" "errors_is e1 ErrNotFound" by (cases r1) auto
        have absent: "absent_uid svc (cs @ cs1)" "absent_name gone (GetLoadBalancerName M svc) (cs @ cs1)"
          using reads True nf by auto
        show ?thesis
          unfolding r1 sum.case
          by (simp only: r1(2) not_True_eq_False if_False, rule valid_bind, rule valid_mono [OF creation], rule valid_return)
            (use created_if_absent_create [OF ro absent] in \<open>simp add: append_assoc [symmetric] del: append_assoc\<close>)
      next
        case False
        then show ?thesis
          using created_if_absent_reads [OF ro] by (cases r1) (auto intro!: valid_return)
      qed
    qed
  next
    case False
    with 1 show ?thesis by (cases r) (auto intro!: valid_return created_if_absent_reads)
  qed
qed

lemma reconciled_touches:
  assumes "lbs_ops M = I"
  shows "all_calls (touches_only (lb_id lb)) (ensure_reconciled M op lb svc nodes)"
    and "all_calls (touches_only (lb_id lb)) (update_reconciled M op lb svc nodes)"
proof -
  have settings: "valid (i_ReconcileHCLB I lb svc) (\<lambda>cs r. (\<forall>c \<in> set cs. touches_only (lb_id lb) c) \<and> lb_id (fst r) = lb_id lb)"
    by (rule valid_conj [OF settings_local [unfolded all_calls_def] settings_same_id])
  show "all_calls (touches_only (lb_id lb)) (ensure_reconciled M op lb svc nodes)"
    unfolding ensure_reconciled_def assms
  proof (rule all_calls_seq, rule valid_mono [OF settings], elim conjE, intro conjI, assumption, goal_cases)
    case (1 cs r)
    then have "lb_id lb = lb_id (fst r)" by simp
    then show ?case by (cases r) (simp only: fst_conv prod.case, intro calls_rules services_local targets_local)
  qed
  show "all_calls (touches_only (lb_id lb)) (update_reconciled M op lb svc nodes)"
    unfolding update_reconciled_def assms
  proof (rule all_calls_seq, rule valid_mono [OF settings], elim conjE, intro conjI, assumption, goal_cases)
    case (1 cs r)
    then have "lb_id lb = lb_id (fst r)" by simp
    then show ?case by (cases r) (simp only: fst_conv prod.case, intro calls_rules services_local targets_local)
  qed
qed

lemma reload_calls:
  assumes "lbs_ops M = I"
  shows "all_calls (ensure_call i) (reload_changed M op lb reload)"
  unfolding reload_changed_def assms
  by (intro calls_rules all_calls_mono [OF by_id_reads ensure_call_intros(3)])

lemma after_lookup_calls:
  assumes "lbs_ops M = I" and "retries_conflicts M"
  shows "all_calls (ensure_call (lb_id lb)) (do {
    r \<leftarrow> ensure_reconciled M op lb svc nodes;
    case r of
      Inl e \<Rightarrow> ret (svc, Inl e)
    | Inr (lb, reload) \<Rightarrow> do {
        r \<leftarrow> reload_changed M op lb reload;
        case r of Inl e \<Rightarrow> ret (svc, Inl e) | Inr lb \<Rightarrow> publish M op lb svc
      }
  })"
  by (intro calls_rules all_calls_mono [OF reconciled_touches(1) [OF assms(1)] ensure_call_intros(1)]
      reload_calls [OF assms(1)] all_calls_mono [OF publish_kube_calls [OF assms(2)] ensure_call_intros(2)])

lemma ensure_safe:
  assumes "lbs_ops M = I" and "retries_conflicts M"
  shows "valid (EnsureLoadBalancer M svc nodes) (\<lambda>cs r. \<exists>pre post i. cs = pre @ post \<and>
    created_if_absent gone (GetLoadBalancerName M svc) svc pre \<and> (\<forall>c \<in> set post. ensure_call i c))"
proof (cases "matchNodeSelector M svc nodes")
  case (Inr selected)
  show ?thesis
    unfolding EnsureLoadBalancer_def Let_def Inr sum.case
  proof (rule valid_bind, rule valid_mono [OF find_or_create_safe [OF assms(1)]], goal_cases)
    case (1 cs r)
    show ?case
    proof (cases r)
      case (Inr lb)
      show ?thesis
        unfolding Inr sum.case
        by (rule valid_mono [OF after_lookup_calls [OF assms, unfolded all_calls_def]]) (use 1 in blast)
    next
      case (Inl e)
      show ?thesis
        unfolding Inl sum.case by (rule valid_return, rule exI [of _ cs], rule exI [of _ "[]"]) (use 1 in simp)
    qed
  qed
qed (auto simp: EnsureLoadBalancer_def created_if_absent_def intro!: valid_return)

lemma update_safe:
  assumes "lbs_ops M = I"
  shows "valid (UpdateLoadBalancer M svc nodes) (\<lambda>cs err. reads_only cs \<or>
    (\<exists>lb. (\<forall>c \<in> set cs. touches_only (lb_id lb) c) \<and>
      (LbList (uid_selector svc) (Inr [lb]) \<in> set cs \<or>
       absent_uid svc cs \<and> LbGetByName (GetLoadBalancerName M svc) (Inr (Some lb)) \<in> set cs)))"
proof (cases "matchNodeSelector M svc nodes")
  case (Inr selected)
  have lookup: "valid (find_existing M op svc) (\<lambda>cs r. reads_only cs \<and> (\<forall>lb. r = Inr (Some lb) \<longrightarrow>
      LbList (uid_selector svc) (Inr [lb]) \<in> set cs \<or>
      absent_uid svc cs \<and> LbGetByName (GetLoadBalancerName M svc) (Inr (Some lb)) \<in> set cs))" for op
    unfolding find_existing_def assms
  proof (rule valid_bind, rule valid_mono [OF uid_lookup], goal_cases)
    case (1 cs r)
    show ?case
    proof (cases "not_found r")
      case True
      then obtain e where r: "r = Inl e" "errors_is e ErrNotFound" by (cases r) auto
      show ?thesis
        unfolding r sum.case
      proof (simp only: r(2) not_True_eq_False if_False, rule valid_bind, rule valid_mono [OF name_lookup], goal_cases)
        case (1 cs1 r1)
        then show ?case
          using \<open>reads_only cs \<and> _\<close> True by (intro valid_return) (auto simp: reads_only_def split: sum.splits)
      qed
    next
      case False
      with 1 show ?thesis by (cases r) (auto intro!: valid_return)
    qed
  qed
  show ?thesis
    unfolding UpdateLoadBalancer_def Let_def Inr sum.case
  proof (rule valid_bind, rule valid_mono [OF lookup], goal_cases)
    case (1 cs r)
    consider e where "r = Inl e" | "r = Inr None" | lb where "r = Inr (Some lb)" by (metis not_None_eq sum.exhaust_sel)
    then show ?case
    proof cases
      case (3 lb)
      show ?thesis
        unfolding 3 sum.case option.case
      proof (rule valid_mono [OF reconciled_touches(2) [OF assms, unfolded all_calls_def]], rule disjI2, rule exI [of _ lb])
        fix cs1 a assume "\<forall>c \<in> set cs1. touches_only (lb_id lb) c"
        with 1 3 show "(\<forall>c \<in> set (cs @ cs1). touches_only (lb_id lb) c) \<and>
          (LbList (uid_selector svc) (Inr [lb]) \<in> set (cs @ cs1) \<or>
           absent_uid svc (cs @ cs1) \<and> LbGetByName (GetLoadBalancerName M svc) (Inr (Some lb)) \<in> set (cs @ cs1))"
          by (auto simp: reads_only_def intro: touches_only_read)
      qed
    qed (use 1 in \<open>auto intro!: valid_return\<close>)
  qed
qed (auto simp: UpdateLoadBalancer_def reads_only_def intro!: valid_return)

lemma delete_safe:
  assumes "lbs_ops M = I"
  shows "valid (deleteLoadBalancer M svc) (\<lambda>cs err.
    (\<forall>c \<in> set cs. is_write c \<longrightarrow> (\<exists>lb r. c = LbDelete (lb_id lb) r \<and> \<not> lb_protected lb \<and>
       LbList (uid_selector svc) (Inr [lb]) \<in> set cs)) \<and>
    (err = None \<longrightarrow> absent_uid svc cs \<or> (\<exists>lb. LbList (uid_selector svc) (Inr [lb]) \<in> set cs \<and>
       (lb_protected lb \<or> (\<exists>r. LbDelete (lb_id lb) r \<in> set cs \<and> delete_done gone r)))))"
  unfolding deleteLoadBalancer_def assms
proof (rule valid_bind, rule valid_mono [OF uid_lookup], goal_cases)
  case (1 cs r)
  show ?case
  proof (cases r)
    case (Inl e)
    with 1 show ?thesis by (auto intro!: valid_return simp: reads_only_def)
  next
    case (Inr lb)
    show ?thesis
    proof (cases "lb_protected lb")
      case False
      show ?thesis
        unfolding Inr sum.case
      proof (simp only: False if_False, rule valid_bind, rule valid_mono [OF deleted], elim exE conjE, goal_cases)
        case (1 cs1 err r)
        have "delete_done gone r"
          if "(case err of Some e \<Rightarrow> if errors_is e ErrNotFound then None else Some e | None \<Rightarrow> None) = None"
          using that 1 by (auto split: option.splits if_splits)
        moreover have cs: "reads_only cs" "LbList (uid_selector svc) (Inr [lb]) \<in> set cs"
          using \<open>reads_only cs \<and> _\<close> Inr by auto
        ultimately have "\<exists>lb. LbList (uid_selector svc) (Inr [lb]) \<in> set (cs @ cs1 @ []) \<and>
            (lb_protected lb \<or> (\<exists>r. LbDelete (lb_id lb) r \<in> set (cs @ cs1 @ []) \<and> delete_done gone r))"
          if "(case err of Some e \<Rightarrow> if errors_is e ErrNotFound then None else Some e | None \<Rightarrow> None) = None"
          using that 1(1) by (intro exI [of _ lb]) auto
        moreover have "\<forall>c \<in> set (cs @ cs1 @ []). is_write c \<longrightarrow> (\<exists>lb r. c = LbDelete (lb_id lb) r \<and> \<not> lb_protected lb \<and>
            LbList (uid_selector svc) (Inr [lb]) \<in> set (cs @ cs1 @ []))"
          using cs 1(1) False by (auto simp: reads_only_def)
        ultimately show ?case by (intro valid_return conjI impI disjI2) blast+
      qed
    qed (use 1 Inr in \<open>auto intro!: valid_return simp: reads_only_def\<close>)
  qed
qed

lemma ensure_deleted_safe:
  assumes "lbs_ops M = I" and "retries_conflicts M"
  shows "valid (EnsureLoadBalancerDeleted M svc) (\<lambda>cs err.
    (\<forall>c \<in> set cs. is_write c \<longrightarrow> kube_call c \<or> (\<exists>lb r. c = LbDelete (lb_id lb) r \<and> \<not> lb_protected lb \<and>
       LbList (uid_selector svc) (Inr [lb]) \<in> set cs)) \<and>
    (err = None \<longrightarrow> absent_uid svc cs \<or> (\<exists>lb. LbList (uid_selector svc) (Inr [lb]) \<in> set cs \<and>
       (lb_protected lb \<or> (\<exists>r. LbDelete (lb_id lb) r \<in> set cs \<and> delete_done gone r)))))"
  unfolding EnsureLoadBalancerDeleted_def
proof (rule valid_bind, rule valid_mono [OF delete_safe [OF assms(1)]], goal_cases)
  case (1 cs err)
  show ?case
  proof (cases err)
    case None
    note kube = remove_kube_calls [OF assms(2), of svc, unfolded all_calls_def]
    show ?thesis
      unfolding None option.case
    proof (rule valid_bind, rule valid_mono [OF kube], rule valid_return, goal_cases)
      case (1 cs1 e)
      have "is_write c \<longrightarrow> kube_call c \<or> (\<exists>lb r. c = LbDelete (lb_id lb) r \<and> \<not> lb_protected lb \<and>
          LbList (uid_selector svc) (Inr [lb]) \<in> set (cs @ cs1 @ []))" if "c \<in> set (cs @ cs1 @ [])" for c
        using that 1 \<open>(\<forall>c \<in> set cs. _) \<and> _\<close> by (cases "c \<in> set cs") (simp_all, blast)
      moreover have "absent_uid svc (cs @ cs1 @ []) \<or> (\<exists>lb. LbList (uid_selector svc) (Inr [lb]) \<in> set (cs @ cs1 @ []) \<and>
          (lb_protected lb \<or> (\<exists>r. LbDelete (lb_id lb) r \<in> set (cs @ cs1 @ []) \<and> delete_done gone r)))"
        using \<open>(\<forall>c \<in> set cs. _) \<and> _\<close> None by (simp add: absent_uid_def) blast
      ultimately show ?case by blast
    qed
  next
    case (Some e)
    then show ?thesis using 1 by (auto intro!: valid_return)
  qed
qed

end

section \<open>The handlers on the model's own operations\<close>

lemma labelled_create_kind: "labelled_create n svc c \<Longrightarrow> (is_create c \<or> \<not> is_write c) \<and> \<not> is_delete c"
  by (cases c) (auto simp: labelled_create_def)

text \<open>C5: \<open>EnsureLoadBalancer\<close> never deletes a load balancer. It creates at most one, and only after the lookup by
  the service's UID gave no load balancer and the lookup by name gave none; the new one has the
  service's name for it and the service's UID as label. Everything else it writes, failed runs
  included, concerns a single load balancer, or is a certificate or a patch of the service.\<close>

theorem ensure_creates_only_missing:
  assumes "lbs_ops M = hcops_iface L" and "retry_law (a_is_kube_conflict (lbs_api M)) (lbs_retry M)"
    and "runs (EnsureLoadBalancer M svc nodes) cs res"
  shows "filter is_delete cs = [] \<and> length (filter is_create cs) \<le> 1 \<and>
    (\<forall>opts r. LbCreate opts r \<in> set cs \<longrightarrow>
      co_name opts = GetLoadBalancerName M svc \<and> co_labels opts LabelServiceUID = Some (svc_uid svc) \<and>
      LbList (uid_selector svc) (Inr []) \<in> set cs \<and>
      (\<exists>x. no_answer (hcops_gone L) x \<and> LbGetByName (GetLoadBalancerName M svc) x \<in> set cs)) \<and>
    (\<exists>i. \<forall>c \<in> set cs. is_create c \<or> touches_only i c \<or> kube_call c)"
proof -
  from valid_runs [OF hcops_lookup.ensure_safe [OF assms(1,2)] assms(3)] obtain pre post i where
    cs: "cs = pre @ post" "created_if_absent (hcops_gone L) (GetLoadBalancerName M svc) svc pre" "\<forall>c \<in> set post. ensure_call i c"
    by blast
  have post: "filter is_create post = []" "filter is_delete post = []"
    using cs(3) ensure_call_no_create by (auto simp: filter_empty_conv)
  have pre: "is_create c \<or> \<not> is_write c" "\<not> is_delete c" if "c \<in> set pre" for c
    using cs(2) that labelled_create_kind by (auto simp: created_if_absent_def)
  have no_delete: "filter is_delete cs = []"
    using pre(2) post(2) by (auto simp: cs(1) filter_empty_conv)
  have once: "length (filter is_create cs) \<le> 1"
    using cs(2) post(1) by (simp add: cs(1) created_if_absent_def)
  have create: "co_name opts = GetLoadBalancerName M svc \<and> co_labels opts LabelServiceUID = Some (svc_uid svc) \<and>
      absent_uid svc cs \<and> absent_name (hcops_gone L) (GetLoadBalancerName M svc) cs" if "LbCreate opts r \<in> set cs" for opts r
  proof -
    have "LbCreate opts r \<in> set pre" using that post(1) by (auto simp: cs(1) filter_empty_conv)
    moreover from this have "filter is_create pre \<noteq> []"
      by (auto simp: filter_empty_conv intro: bexI [of _ "LbCreate opts r"])
    ultimately show ?thesis using cs(2) by (auto simp: cs(1) created_if_absent_def labelled_create_def)
  qed
  have one: "\<forall>c \<in> set cs. is_create c \<or> touches_only i c \<or> kube_call c"
    using pre(1) cs(3) touches_only_read by (auto simp: cs(1) ensure_call_def)
  show ?thesis
  proof (intro conjI no_delete once allI impI)
    show "\<exists>i. \<forall>c \<in> set cs. is_create c \<or> touches_only i c \<or> kube_call c" using one by (rule exI [of _ i])
  qed (use create [unfolded absent_uid_def absent_name_def] in blast)+
qed


text \<open>C15: \<open>UpdateLoadBalancer\<close> never creates or deletes a load balancer. Unless it writes nothing at all, it
  has found the load balancer, by the service's UID or, when none has it, by name, and every
  write concerns that load balancer or is a certificate.\<close>

theorem update_touches_found:
  assumes "lbs_ops M = hcops_iface L" and "runs (UpdateLoadBalancer M svc nodes) cs err"
  shows "reads_only cs \<or> (\<exists>lb. (\<forall>c \<in> set cs. touches_only (lb_id lb) c) \<and>
    (LbList (uid_selector svc) (Inr [lb]) \<in> set cs \<or>
     LbList (uid_selector svc) (Inr []) \<in> set cs \<and> LbGetByName (GetLoadBalancerName M svc) (Inr (Some lb)) \<in> set cs))"
  using valid_runs [OF hcops_lookup.update_safe [OF assms(1)] assms(2)] unfolding absent_uid_def .

text \<open>C13: \<open>EnsureLoadBalancerDeleted\<close> deletes nothing but the unprotected load balancer that the lookup by the
  service's UID gave; its only other writes patch the service. When it reports success, no load
  balancer has the service's UID, or it is protected against deletion, or it was deleted (or
  was already gone when the deletion arrived).\<close>

theorem delete_only_unprotected:
  assumes "lbs_ops M = hcops_iface L" and "retry_law (a_is_kube_conflict (lbs_api M)) (lbs_retry M)"
    and "runs (EnsureLoadBalancerDeleted M svc) cs err"
  shows "(\<forall>c \<in> set cs. is_write c \<longrightarrow> kube_call c \<or> (\<exists>lb r. c = LbDelete (lb_id lb) r \<and> \<not> lb_protected lb \<and>
      LbList (uid_selector svc) (Inr [lb]) \<in> set cs)) \<and>
    (err = None \<longrightarrow> LbList (uid_selector svc) (Inr []) \<in> set cs \<or> (\<exists>lb. LbList (uid_selector svc) (Inr [lb]) \<in> set cs \<and>
       (lb_protected lb \<or> (\<exists>r. LbDelete (lb_id lb) r \<in> set cs \<and> delete_done (hcops_gone L) r))))"
  using valid_runs [OF hcops_lookup.ensure_deleted_safe [OF assms(1,2)] assms(3)] unfolding absent_uid_def .

section \<open>Concrete runs\<close>

text \<open>A cloud without load balancers that refuses to create one.\<close>

definition full_api :: "service api" where
  "full_api = one_service_api\<lparr>a_lb_create := \<lambda>opts w. (Inl (Msg ''full''), w)\<rparr>"

definition full_balancers :: "service load_balancers" where
  "full_balancers = sample_balancers\<lparr>lbs_ops := hcops_iface (ops_on full_api)\<rparr>"

definition created_run :: "(service \<times> (goerr + ingress list)) \<times> api_call list" where
  "created_run = outcome (EnsureLoadBalancer full_balancers ranged_service []) sample_globals ranged_service"

lemma is_create_iff: "is_create c \<longleftrightarrow> (\<exists>opts r. c = LbCreate opts r)"
  by (cases c) auto

theorem ensure_creates_only_missing_witness:
  "\<exists>cs res opts r. runs (EnsureLoadBalancer full_balancers ranged_service []) cs res \<and>
     LbCreate opts r \<in> set cs \<and> co_name opts = ''uid-1'' \<and> LbList (uid_selector ranged_service) (Inr []) \<in> set cs"
proof -
  have "list_ex is_create (snd created_run)" by code_simp
  then obtain opts r where create: "LbCreate opts r \<in> set (snd created_run)"
    unfolding list_ex_iff is_create_iff by blast
  have run: "runs (EnsureLoadBalancer full_balancers ranged_service []) (snd created_run) (fst created_run)"
    unfolding created_run_def by (rule runs_outcome, rule refl)
  have facts: "lbs_ops full_balancers = hcops_iface (ops_on full_api)"
    "retry_law (a_is_kube_conflict (lbs_api full_balancers)) (lbs_retry full_balancers)"
    using sample_balancers_retry by (simp_all add: full_balancers_def)
  have "GetLoadBalancerName full_balancers ranged_service = ''uid-1''" by code_simp
  with ensure_creates_only_missing [OF facts run] create run show ?thesis by metis
qed

text \<open>A cloud with one load balancer, which refuses updates.\<close>

definition found_api :: "service api" where
  "found_api = one_service_api\<lparr>a_lb_list := \<lambda>s w. (Inr [sample_lb], w), a_lb_update := \<lambda>i opts w. (Inl (Msg ''busy''), w)\<rparr>"

definition found_balancers :: "service load_balancers" where
  "found_balancers = sample_balancers\<lparr>lbs_ops := hcops_iface (ops_on found_api)\<rparr>"

lemma found_balancers_facts:
  "lbs_ops found_balancers = hcops_iface (ops_on found_api)"
  "retry_law (a_is_kube_conflict (lbs_api found_balancers)) (lbs_retry found_balancers)"
  using sample_balancers_retry by (simp_all add: found_balancers_def)

definition update_run :: "goerr option \<times> api_call list" where
  "update_run = outcome (UpdateLoadBalancer found_balancers ranged_service []) sample_globals ranged_service"

theorem update_touches_found_witness:
  "\<exists>cs err (lb :: load_balancer). runs (UpdateLoadBalancer found_balancers ranged_service []) cs err \<and>
     \<not> reads_only cs \<and> (\<forall>c \<in> set cs. touches_only (lb_id lb) c)"
proof -
  have "list_ex is_write (snd update_run)" by code_simp
  then have w: "\<not> reads_only (snd update_run)" by (auto simp: list_ex_iff reads_only_def)
  have run: "runs (UpdateLoadBalancer found_balancers ranged_service []) (snd update_run) (fst update_run)"
    unfolding update_run_def by (rule runs_outcome, rule refl)
  from update_touches_found [OF found_balancers_facts(1) run] w run show ?thesis by blast
qed

definition delete_run :: "goerr option \<times> api_call list" where
  "delete_run = outcome (EnsureLoadBalancerDeleted found_balancers ranged_service) sample_globals ranged_service"

fun lists_none :: "api_call \<Rightarrow> bool" where
  "lists_none (LbList s x) = (case x of Inl e \<Rightarrow> False | Inr lbs \<Rightarrow> lbs = [])"
| "lists_none c = False"

theorem delete_only_unprotected_witness:
  "\<exists>cs (lb :: load_balancer). runs (EnsureLoadBalancerDeleted found_balancers ranged_service) cs None \<and>
     LbList (uid_selector ranged_service) (Inr [lb]) \<in> set cs"
proof -
  have "fst delete_run = None" by code_simp
  from runs_outcome [OF this [unfolded delete_run_def], folded delete_run_def]
  have run: "runs (EnsureLoadBalancerDeleted found_balancers ranged_service) (snd delete_run) None" .
  have "\<not> list_ex lists_none (snd delete_run)" by code_simp
  then have "LbList (uid_selector ranged_service) (Inr []) \<notin> set (snd delete_run)"
    unfolding list_ex_iff by fastforce
  with delete_only_unprotected [OF found_balancers_facts run] run show ?thesis by blast
qed

end
