(* ===== verification/LoadBalancersCorrect.thy ===== *)
theory LoadBalancersCorrect
  imports LoadBalancers ServiceOptsCorrect
begin

text \<open>
  What the load balancer provider reports: the annotations that \<open>LBToService\<close> writes, and the status of
  a service against a declarative reading of the annotations.
\<close>

section \<open>Annotating\<close>

lemma Annotate_ok:
  "value_text v = Some t \<Longrightarrow>
   Annotate n v (svc, None) = (svc\<lparr>svc_annotations := (svc_annotations svc)(name_str n \<mapsto> t)\<rparr>, None)"
  by (simp add: Annotate_def AnnotateService_def)

lemma annotate_all_simps [simp]:
  "annotate_all [] sa = sa" "annotate_all ((n, v) # xs) sa = annotate_all xs (Annotate n v sa)"
  "annotate_all (xs @ ys) sa = annotate_all ys (annotate_all xs sa)"
  by (simp_all add: annotate_all_def)

definition printable :: "(annot \<times> annot_value) list \<Rightarrow> bool" where
  "printable xs \<longleftrightarrow> list_all (\<lambda>(n, v). value_text v \<noteq> None) xs"

lemma annotate_all_reads:
  assumes "printable xs" and "distinct (map fst xs)"
  shows "snd (annotate_all xs (svc, None)) = None \<and>
    StringFromService n (fst (annotate_all xs (svc, None))) =
      (case map_of xs n of Some v \<Rightarrow> value_text v | None \<Rightarrow> StringFromService n svc) \<and>
    svc_uid (fst (annotate_all xs (svc, None))) = svc_uid svc \<and>
    svc_ports (fst (annotate_all xs (svc, None))) = svc_ports svc"
  using assms
proof (induction xs arbitrary: svc)
  case (Cons x xs)
  obtain m v where x: "x = (m, v)" by (cases x)
  with Cons.prems obtain t where t: "value_text v = Some t" by (auto simp: printable_def)
  let ?svc = "svc\<lparr>svc_annotations := (svc_annotations svc)(name_str m \<mapsto> t)\<rparr>"
  have "printable xs" "distinct (map fst xs)" "m \<notin> set (map fst xs)"
    using Cons.prems x by (auto simp: printable_def)
  then have "map_of xs m = None" by (simp add: map_of_eq_None_iff)
  with Cons.IH [of ?svc, OF \<open>printable xs\<close> \<open>distinct (map fst xs)\<close>] show ?case
    by (simp add: x Annotate_ok [OF t] t StringFromService_def split: option.split)
qed simp

definition service_annotations :: "service \<Rightarrow> load_balancer \<Rightarrow> (annot \<times> annot_value) list" where
  "service_annotations svc lb = (case matching_service svc lb of None \<Rightarrow> [] | Some s \<Rightarrow> hclb_service_annotations s)"

lemma annotations_printable: "printable (lb_annotations lb t @ service_annotations svc lb)"
  by (auto simp: printable_def lb_annotations_def service_annotations_def hclb_service_annotations_def
      http_check_annotations_def split: option.split)

lemma annotations_distinct: "distinct (map fst (lb_annotations lb t @ service_annotations svc lb))"
proof (cases "matching_service svc lb")
  case (Some s)
  show ?thesis
    unfolding lb_annotations_def service_annotations_def Some option.case hclb_service_annotations_def http_check_annotations_def
    by (cases "isHTTP s"; cases "isHTTPS s"; cases "isHTTPHealthCheck s"; cases "isHTTPSHealthCheck s"; cases "hc_http (hs_health_check s)")
      simp_all
qed (simp add: lb_annotations_def service_annotations_def)

lemma LBToService_reads:
  assumes "lb_type lb = Some t"
  shows "snd (LBToService svc lb) = None"
    and "StringFromService n (fst (LBToService svc lb)) =
      (case map_of (lb_annotations lb t @ service_annotations svc lb) n of Some v \<Rightarrow> value_text v | None \<Rightarrow> StringFromService n svc)"
  using annotate_all_reads [OF annotations_printable annotations_distinct, of lb t svc svc n] assms
  by (auto simp: LBToService_def service_annotations_def split: prod.split)

section \<open>After annotating, the settings agree\<close>

text \<open>
  The text that each annotation has afterwards, by its name: \<open>t\<close> is the type of the load balancer and \<open>s\<close> its
  service for the Kubernetes service. \<open>None\<close> is an annotation that is not written.
\<close>

definition http_service :: "hclb_service \<Rightarrow> bool" where
  "http_service s \<longleftrightarrow> hs_protocol s = ''http'' \<or> hs_protocol s = ''https''"

definition http_check :: "hclb_service \<Rightarrow> health_http option" where
  "http_check s = (if hc_protocol (hs_health_check s) = ''http'' \<or> hc_protocol (hs_health_check s) = ''https''
     then hc_http (hs_health_check s) else None)"

fun lb_text :: "load_balancer \<Rightarrow> string \<Rightarrow> annot \<Rightarrow> string option" where
  "lb_text lb t LBID = Some (format_int (lb_id lb))"
| "lb_text lb t LBName = Some (lb_name lb)"
| "lb_text lb t LBType = Some t"
| "lb_text lb t LBAlgorithmType = Some (lb_algorithm lb)"
| "lb_text lb t LBLocation = Some (lb_location lb)"
| "lb_text lb t LBNetworkZone = Some (lb_network_zone lb)"
| "lb_text lb t LBPublicIPv4 = Some (ip_text (lb_ipv4 lb))"
| "lb_text lb t LBPublicIPv6 = Some (ip_text (lb_ipv6 lb))"
| "lb_text lb t n = None"

fun service_text :: "hclb_service \<Rightarrow> annot \<Rightarrow> string option" where
  "service_text s LBSvcProtocol = Some (hs_protocol s)"
| "service_text s LBSvcProxyProtocol = Some (format_bool (hs_proxyprotocol s))"
| "service_text s LBSvcHTTPCookieName = (if http_service s then Some (hs_cookie_name s) else None)"
| "service_text s LBSvcHTTPCookieLifetime = (if http_service s then Some (duration_text (hs_cookie_lifetime s)) else None)"
| "service_text s LBSvcRedirectHTTP = (if hs_protocol s = ''https'' then Some (format_bool (hs_redirect_http s)) else None)"
| "service_text s LBSvcHTTPCertificates = (if hs_protocol s = ''https'' then Some (join '','' (map cert_text (hs_certificates s))) else None)"
| "service_text s LBSvcHealthCheckProtocol = Some (hc_protocol (hs_health_check s))"
| "service_text s LBSvcHealthCheckPort = Some (format_int (hc_port (hs_health_check s)))"
| "service_text s LBSvcHealthCheckInterval = Some (duration_text (hc_interval (hs_health_check s)))"
| "service_text s LBSvcHealthCheckTimeout = Some (duration_text (hc_timeout (hs_health_check s)))"
| "service_text s LBSvcHealthCheckRetries = Some (format_int (hc_retries (hs_health_check s)))"
| "service_text s LBSvcHealthCheckHTTPDomain = map_option hh_domain (http_check s)"
| "service_text s LBSvcHealthCheckHTTPPath = map_option hh_path (http_check s)"
| "service_text s LBSvcHealthCheckHTTPStatusCodes = map_option (\<lambda>h. join '','' (hh_status_codes h)) (http_check s)"
| "service_text s LBSvcHealthCheckHTTPValidateCertificate =
     (if hc_protocol (hs_health_check s) = ''https'' then map_option (\<lambda>h. format_bool (hh_tls h)) (http_check s) else None)"
| "service_text s n = None"

definition written_text :: "service \<Rightarrow> load_balancer \<Rightarrow> string \<Rightarrow> annot \<Rightarrow> string option" where
  "written_text svc lb t n = (case lb_text lb t n of
     Some v \<Rightarrow> Some v
   | None \<Rightarrow> (case matching_service svc lb of None \<Rightarrow> None | Some s \<Rightarrow> service_text s n))"

lemma lb_annotations_text: "Option.bind (map_of (lb_annotations lb t) n) value_text = lb_text lb t n"
  by (cases n) (simp_all add: lb_annotations_def)

lemma service_annotations_text: "Option.bind (map_of (hclb_service_annotations s) n) value_text = service_text s n"
  by (cases n) (simp_all add: hclb_service_annotations_def http_check_annotations_def http_service_def http_check_def
      isHTTP_def isHTTPS_def isHTTPHealthCheck_def isHTTPSHealthCheck_def protocol_defs split: option.split)

lemma printable_bind: "printable xs \<Longrightarrow> (case map_of xs n of Some v \<Rightarrow> value_text v | None \<Rightarrow> d) =
    (case Option.bind (map_of xs n) value_text of Some x \<Rightarrow> Some x | None \<Rightarrow> d)"
  by (auto simp: printable_def list_all_iff dest!: map_of_SomeD split: option.split bind_splits)

lemma LBToService_text:
  assumes "lb_type lb = Some t"
  shows "StringFromService n (fst (LBToService svc lb)) =
    (case written_text svc lb t n of Some v \<Rightarrow> Some v | None \<Rightarrow> StringFromService n svc)"
proof -
  let ?xs = "lb_annotations lb t" and ?ys = "service_annotations svc lb"
  have "Option.bind (map_of (?xs @ ?ys) n) value_text = written_text svc lb t n"
  proof (cases "map_of ?xs n")
    case None
    then have "lb_text lb t n = None" by (simp flip: lb_annotations_text)
    then show ?thesis
      using None by (auto simp: map_of_append map_add_def written_text_def service_annotations_def service_annotations_text split: option.split)
  next
    case (Some v)
    have "value_text v \<noteq> None" using annotations_printable [of lb t svc] map_of_SomeD [OF Some] by (fastforce simp: printable_def list_all_iff)
    moreover have "lb_text lb t n = value_text v" using Some by (simp flip: lb_annotations_text)
    moreover have "map_of ?ys n = None"
      using annotations_distinct [of lb t svc] map_of_SomeD [OF Some] by (force simp: map_of_eq_None_iff)
    ultimately show ?thesis using Some by (auto simp: map_of_append map_add_def written_text_def)
  qed
  then show ?thesis using LBToService_reads(2) [OF assms, of n svc] printable_bind [OF annotations_printable] by simp
qed

text \<open>
  What the API answers for a service: protocols of its own, durations of whole seconds (hcloud-go multiplies
  the seconds of the answer), numbers of 64 bits, certificates with their numbers and status codes without commas.
\<close>

definition api_service :: "hclb_service \<Rightarrow> bool" where
  "api_service s \<longleftrightarrow>
     hs_protocol s \<in> {''tcp'', ''http'', ''https''} \<and> hc_protocol (hs_health_check s) \<in> {''tcp'', ''http'', ''https''} \<and>
     whole_seconds (hs_cookie_lifetime s) \<and> whole_seconds (hc_interval (hs_health_check s)) \<and>
     whole_seconds (hc_timeout (hs_health_check s)) \<and> int64 (hc_port (hs_health_check s)) \<and> int64 (hc_retries (hs_health_check s)) \<and>
     list_all (\<lambda>c. int64 (cert_id c) \<and> cert_id c \<noteq> 0) (hs_certificates s) \<and>
     (hs_protocol s = ''https'' \<longrightarrow> hs_certificates s \<noteq> []) \<and>
     (case http_check s of None \<Rightarrow> True
      | Some h \<Rightarrow> hh_status_codes h \<noteq> [] \<and> list_all (\<lambda>x. CHR '','' \<notin> set x) (hh_status_codes h))"

text \<open>Read back with the functions that the next reconciliation reads with, the annotations give the service.\<close>

definition settled_service :: "hclb_service \<Rightarrow> service \<Rightarrow> bool" where
  "settled_service s svc \<longleftrightarrow>
     LBSvcProtocolFromService LBSvcProtocol svc = Inr (hs_protocol s) \<and>
     BoolFromService LBSvcProxyProtocol svc = Inr (hs_proxyprotocol s) \<and>
     (http_service s \<longrightarrow> StringFromService LBSvcHTTPCookieName svc = Some (hs_cookie_name s) \<and>
        DurationFromService LBSvcHTTPCookieLifetime svc = Inr (hs_cookie_lifetime s)) \<and>
     (hs_protocol s = ''https'' \<longrightarrow> BoolFromService LBSvcRedirectHTTP svc = Inr (hs_redirect_http s) \<and>
        CertificatesFromService LBSvcHTTPCertificates svc = Inr (map (\<lambda>c. \<lparr>cert_id = cert_id c, cert_name = ''''\<rparr>) (hs_certificates s))) \<and>
     LBSvcProtocolFromService LBSvcHealthCheckProtocol svc = Inr (hc_protocol (hs_health_check s)) \<and>
     IntFromService LBSvcHealthCheckPort svc = Inr (hc_port (hs_health_check s)) \<and>
     DurationFromService LBSvcHealthCheckInterval svc = Inr (hc_interval (hs_health_check s)) \<and>
     DurationFromService LBSvcHealthCheckTimeout svc = Inr (hc_timeout (hs_health_check s)) \<and>
     IntFromService LBSvcHealthCheckRetries svc = Inr (hc_retries (hs_health_check s)) \<and>
     (case http_check s of None \<Rightarrow> True
      | Some h \<Rightarrow> StringFromService LBSvcHealthCheckHTTPDomain svc = Some (hh_domain h) \<and>
          StringFromService LBSvcHealthCheckHTTPPath svc = Some (hh_path h) \<and>
          StringsFromService LBSvcHealthCheckHTTPStatusCodes svc = Inr (hh_status_codes h) \<and>
          (hc_protocol (hs_health_check s) = ''https'' \<longrightarrow>
             BoolFromService LBSvcHealthCheckHTTPValidateCertificate svc = Inr (hh_tls h)))"

lemma algorithm_read_back:
  "validateAlgorithmType a = Inr a \<Longrightarrow> StringFromService LBAlgorithmType svc = Some a \<Longrightarrow>
   LBAlgorithmTypeFromService LBAlgorithmType svc = Inr a"
  by (simp add: LBAlgorithmTypeFromService_def applyToValue_def)

lemma read_text:
  "StringFromService n svc = Some v \<Longrightarrow> f v = Inr x \<Longrightarrow> applyToValue op n svc f = Inr x"
  by (simp add: applyToValue_def)

lemma read_duration:
  "StringFromService n svc = Some (duration_text d) \<Longrightarrow> whole_seconds d \<Longrightarrow> DurationFromService n svc = Inr d"
  unfolding DurationFromService_def by (erule read_text) (simp add: ParseDuration_text)

lemma read_protocol:
  assumes "StringFromService n svc = Some p" and "p \<in> {''tcp'', ''http'', ''https''}"
  shows "LBSvcProtocolFromService n svc = Inr p"
proof -
  have "list_all (\<lambda>p. validateServiceProtocol p = Inr p) [''tcp'', ''http'', ''https'']" by code_simp
  with assms(2) have "validateServiceProtocol p = Inr p" by auto
  then show ?thesis unfolding LBSvcProtocolFromService_def by (rule read_text [OF assms(1)])
qed

lemma read_certificates:
  assumes "StringFromService n svc = Some (join '','' (map cert_text cs))"
    and "cs \<noteq> []" and "list_all (\<lambda>c. int64 (cert_id c) \<and> cert_id c \<noteq> 0) cs"
  shows "CertificatesFromService n svc = Inr (map (\<lambda>c. \<lparr>cert_id = cert_id c, cert_name = ''''\<rparr>) cs)"
proof -
  have "CHR '','' \<notin> set x" if "x \<in> set (map cert_text cs)" for x
    using that assms(3) format_int_chars by (fastforce simp: cert_text_def list_all_iff is_digit_def)
  then have "split_on CHR '','' (join '','' (map cert_text cs)) = map cert_text cs"
    using assms(2) by (intro split_on_join) auto
  moreover have "map parse_cert (map cert_text cs) = map (\<lambda>c. \<lparr>cert_id = cert_id c, cert_name = ''''\<rparr>) cs"
    using assms(3) by (auto simp: parse_cert_def cert_text_def list_all_iff parse_format_int)
  ultimately show ?thesis unfolding CertificatesFromService_def by (intro read_text [OF assms(1)]) simp
qed

lemma read_strings:
  "StringFromService n svc = Some (join '','' ss) \<Longrightarrow> ss \<noteq> [] \<Longrightarrow> list_all (\<lambda>x. CHR '','' \<notin> set x) ss \<Longrightarrow>
     StringsFromService n svc = Inr ss"
  unfolding StringsFromService_def by (erule read_text) (simp add: split_on_join list_all_iff)

lemma read_simple:
  "StringFromService n svc = Some (format_bool b) \<Longrightarrow> BoolFromService n svc = Inr b"
  "StringFromService n svc = Some (format_int i) \<Longrightarrow> int64 i \<Longrightarrow> IntFromService n svc = Inr i"
  by (simp_all add: BoolFromService_def IntFromService_def parse_format_int)

lemma settled:
  assumes "\<And>n v. service_text s n = Some v \<Longrightarrow> StringFromService n svc = Some v" and "api_service s"
  shows "settled_service s svc"
  unfolding settled_service_def
  using assms(2)
  by (auto simp: api_service_def intro!: read_duration read_protocol read_certificates read_strings read_simple assms(1)
      split: option.split)

lemma matching_service_cases:
  "case matching_service svc lb of
     None \<Rightarrow> \<forall>s \<in> set (lb_services lb). hs_listen_port s \<notin> sp_port ` set (svc_ports svc)
   | Some s \<Rightarrow> s \<in> set (lb_services lb) \<and> hs_listen_port s \<in> sp_port ` set (svc_ports svc)"
  by (auto simp: matching_service_def find_None_iff find_Some_iff list_ex_iff split: option.split)

lemma lb_text_only: "service_text s n = Some v \<Longrightarrow> lb_text lb t n = None"
  by (cases n) simp_all

text \<open>C24: The annotations that \<open>LBToService\<close> writes are those of the load balancer, and of its first service that listens on
  a port of the Kubernetes service. It succeeds for every load balancer that has a type. Read back with the
  functions that the next reconciliation reads with, ID, name, type, algorithm, location, network zone and addresses
  are the load balancer's, and the next reconciliation does not rename it; protocol, proxy protocol, cookies,
  redirect, certificates and every setting of the health check are the service's. Every annotation that is not
  written keeps its value: all of the others, the ones that only HTTP or HTTPS services and checks have when it is
  neither, and all of the service when none matches.\<close>

theorem LBToService_settles:
  assumes "lb_type lb = Some t" and "validateAlgorithmType (lb_algorithm lb) = Inr (lb_algorithm lb)" and "int64 (lb_id lb)"
    and "list_all api_service (lb_services lb)" and "svc' = fst (LBToService svc lb)"
  shows "snd (LBToService svc lb) = None \<and>
    IntFromService LBID svc' = Inr (lb_id lb) \<and> update_name svc' lb = None \<and>
    StringFromService LBName svc' = Some (lb_name lb) \<and> StringFromService LBType svc' = lb_type lb \<and>
    LBAlgorithmTypeFromService LBAlgorithmType svc' = Inr (lb_algorithm lb) \<and>
    StringFromService LBLocation svc' = Some (lb_location lb) \<and>
    NetworkZoneFromService LBNetworkZone svc' = Inr (lb_network_zone lb) \<and>
    StringFromService LBPublicIPv4 svc' = Some (ip_text (lb_ipv4 lb)) \<and>
    StringFromService LBPublicIPv6 svc' = Some (ip_text (lb_ipv6 lb)) \<and>
    (case matching_service svc lb of
       None \<Rightarrow> \<forall>s \<in> set (lb_services lb). hs_listen_port s \<notin> sp_port ` set (svc_ports svc)
     | Some s \<Rightarrow> s \<in> set (lb_services lb) \<and> hs_listen_port s \<in> sp_port ` set (svc_ports svc) \<and> settled_service s svc') \<and>
    (\<forall>n. lb_text lb t n = None \<and> (case matching_service svc lb of None \<Rightarrow> True | Some s \<Rightarrow> service_text s n = None) \<longrightarrow>
       StringFromService n svc' = StringFromService n svc)"
proof -
  have reads: "StringFromService n svc' = (case written_text svc lb t n of Some v \<Rightarrow> Some v | None \<Rightarrow> StringFromService n svc)" for n
    unfolding assms(5) by (rule LBToService_text [OF assms(1)])
  have lb: "StringFromService n svc' = Some v" if "lb_text lb t n = Some v" for n v
    using that by (simp add: reads written_text_def)
  note s = lb [OF lb_text.simps(1)] lb [OF lb_text.simps(2)] lb [OF lb_text.simps(3)] lb [OF lb_text.simps(4)]
    lb [OF lb_text.simps(5)] lb [OF lb_text.simps(6)] lb [OF lb_text.simps(7)] lb [OF lb_text.simps(8)]
  have "settled_service s svc'" if "matching_service svc lb = Some s" for s
  proof (rule settled)
    show "StringFromService n svc' = Some v" if "service_text s n = Some v" for n v
      using that \<open>matching_service svc lb = Some s\<close> lb_text_only [OF that, of lb t] by (simp add: reads written_text_def)
    show "api_service s" using that matching_service_cases [of lb svc] assms(4) by (simp add: list_all_iff)
  qed
  then have "case matching_service svc lb of
       None \<Rightarrow> \<forall>s \<in> set (lb_services lb). hs_listen_port s \<notin> sp_port ` set (svc_ports svc)
     | Some s \<Rightarrow> s \<in> set (lb_services lb) \<and> hs_listen_port s \<in> sp_port ` set (svc_ports svc) \<and> settled_service s svc'"
    using matching_service_cases [of lb svc] by (simp split: option.splits)
  moreover have "StringFromService n svc' = StringFromService n svc"
    if "lb_text lb t n = None" "case matching_service svc lb of None \<Rightarrow> True | Some s \<Rightarrow> service_text s n = None" for n
    using that by (simp add: reads written_text_def split: option.splits)
  moreover have "IntFromService LBID svc' = Inr (lb_id lb)" using read_simple(2) [OF s(1) assms(3)] .
  moreover have "NetworkZoneFromService LBNetworkZone svc' = Inr (lb_network_zone lb)"
    unfolding NetworkZoneFromService_def by (rule read_text [OF s(6) refl])
  moreover have "update_name svc' lb = None" using s(2) by (simp add: update_name_def)
  moreover have "StringFromService LBType svc' = lb_type lb" using s(3) assms(1) by simp
  moreover note s(2,5,7,8) algorithm_read_back [OF assms(2) s(4)] LBToService_reads(1) [OF assms(1), of svc]
  ultimately show ?thesis by (intro conjI allI impI) (assumption | simp only: simp_thms)+
qed

text \<open>A load balancer with an HTTPS service on port 443 that checks over HTTP.\<close>

definition https_service :: hclb_service where
  "https_service = \<lparr>hs_protocol = ''https'', hs_listen_port = 443, hs_proxyprotocol = True, hs_cookie_name = ''c'',
     hs_cookie_lifetime = 300 * Second, hs_certificates = [\<lparr>cert_id = 7, cert_name = ''web''\<rparr>], hs_redirect_http = True,
     hs_health_check = \<lparr>hc_protocol = ''http'', hc_port = 8080, hc_interval = 15 * Second, hc_timeout = 90 * Second, hc_retries = 3,
       hc_http = Some \<lparr>hh_domain = ''d'', hh_path = ''/healthz'', hh_status_codes = [''200'', ''3??''], hh_tls = False\<rparr>\<rparr>\<rparr>"

definition https_lb :: load_balancer where
  "https_lb = sample_lb\<lparr>lb_services := [https_service]\<rparr>"

definition https_ports :: service where
  "https_ports = (annotated [(LBHostname, ''example.org'')])\<lparr>svc_ports := [\<lparr>sp_port = 443, sp_node_port = 30443\<rparr>]\<rparr>"

theorem LBToService_settles_witness:
  "let svc' = fst (LBToService https_ports https_lb)
   in settled_service https_service svc' \<and> DurationFromService LBSvcHealthCheckTimeout svc' = Inr (90 * Second) \<and>
     StringFromService LBHostname svc' = Some ''example.org'' \<and> update_name svc' https_lb = None"
proof -
  have type: "lb_type https_lb = Some ''lb11''" and id: "int64 (lb_id https_lb)" by (simp_all add: https_lb_def int64_def)
  have alg: "validateAlgorithmType (lb_algorithm https_lb) = Inr (lb_algorithm https_lb)" by code_simp
  have ok: "list_all api_service (lb_services https_lb)" by code_simp
  have m: "matching_service https_ports https_lb = Some https_service"
    by (simp add: matching_service_def https_ports_def https_lb_def https_service_def)
  have host: "StringFromService LBHostname https_ports = Some ''example.org''"
    by (simp add: https_ports_def annotated_def StringFromService_def)
  note r = LBToService_settles [OF type alg id ok refl, where svc = https_ports, unfolded m option.case]
  have "hc_timeout (hs_health_check https_service) = 90 * Second" by (simp add: https_service_def)
  with r host show ?thesis by (simp add: Let_def settled_service_def)
qed

section \<open>The status of a service\<close>

text \<open>The value of a boolean annotation with a default, and whether it can be read.\<close>

definition flag :: "annot \<Rightarrow> bool \<Rightarrow> service \<Rightarrow> bool" where
  "flag n dflt svc = (case opt (BoolFromService n svc) of Some b \<Rightarrow> b | None \<Rightarrow> dflt)"

definition readable :: "annot \<Rightarrow> service \<Rightarrow> bool" where
  "readable n svc \<longleftrightarrow> is_ok (BoolFromService n svc)"

lemma bool_or_Inr: "bool_or n dflt svc = Inr b \<Longrightarrow> readable n svc \<and> b = flag n dflt svc"
  by (auto simp: bool_or_def flag_def readable_def split: sum.splits if_splits)

lemma bool_or_Inl: "bool_or n dflt svc = Inl e \<Longrightarrow> \<not> readable n svc"
  by (auto simp: bool_or_def readable_def split: sum.splits if_splits)

lemma BoolFromService_flag:
  "BoolFromService n svc = Inr b \<Longrightarrow> readable n svc \<and> flag n dflt svc = b"
  "BoolFromService n svc = Inl e \<Longrightarrow> readable n svc = errors_is e ErrNotSet \<and> flag n dflt svc = dflt"
  by (simp_all add: readable_def flag_def)

definition public_readable :: "service \<Rightarrow> bool" where
  "public_readable svc \<longleftrightarrow> readable LBDisablePublicNetwork svc \<and>
     (\<not> flag LBDisablePublicNetwork False svc \<longrightarrow> readable LBIPv6Disabled svc)"

lemma public_ingress_Inr:
  "public_ingress M lb svc m = Inr xs \<Longrightarrow> public_readable svc \<and> xs = map (address_ingress m)
     ((if flag LBDisablePublicNetwork False svc then [] else [lb_ipv4 lb]) @
      (if flag LBDisablePublicNetwork False svc \<or> flag LBIPv6Disabled (lbs_disable_ipv6 M) svc then [] else [lb_ipv6 lb]))"
  by (cases "BoolFromService LBDisablePublicNetwork svc"; cases "getDisableIPv6 M svc")
    (auto simp: public_ingress_def public_readable_def getDisableIPv6_def
      dest!: bool_or_Inr BoolFromService_flag [where dflt = False] split: if_splits)

lemma public_ingress_Inl: "public_ingress M lb svc m = Inl e \<Longrightarrow> \<not> public_readable svc"
  by (cases "BoolFromService LBDisablePublicNetwork svc"; cases "getDisableIPv6 M svc")
    (auto simp: public_ingress_def public_readable_def getDisableIPv6_def
      dest!: bool_or_Inl BoolFromService_flag [where dflt = False] split: if_splits)

definition status_readable :: "'w load_balancers \<Rightarrow> service \<Rightarrow> bool" where
  "status_readable M svc \<longleftrightarrow> readable LBSvcProxyProtocol svc \<and>
     (StringFromService LBHostname svc = None \<longrightarrow> public_readable svc \<and> readable LBDisablePrivateIngress svc)"

definition spec_status :: "'w load_balancers \<Rightarrow> load_balancer \<Rightarrow> service \<Rightarrow> ingress list" where
  "spec_status M lb svc =
     (case StringFromService LBHostname svc of
        Some h \<Rightarrow> [\<lparr>ig_ip = '''', ig_hostname = h, ig_mode = None\<rparr>]
      | None \<Rightarrow>
          map (address_ingress (if flag LBSvcProxyProtocol False svc then ProxyMode else VIPMode))
            ((if flag LBDisablePublicNetwork False svc then [] else [lb_ipv4 lb]) @
             (if flag LBDisablePublicNetwork False svc \<or> flag LBIPv6Disabled (lbs_disable_ipv6 M) svc then [] else [lb_ipv6 lb]) @
             (if flag LBDisablePrivateIngress (lbs_disable_private_ingress M) svc then [] else map pn_ip (lb_private_net lb))))"

text \<open>C23: The status reported for a service. It is an error exactly when an annotation that is consulted is
  malformed. Otherwise it is the host name alone when one is set, else the addresses: the public
  IPv4 address unless the public network is disabled, the public IPv6 address unless that or IPv6 is
  disabled, and the private addresses unless disabled, each marked with the proxy mode
  exactly when the proxy protocol is on.\<close>

theorem status_specified:
  "(case getLBStatus M lb svc op of Inr status \<Rightarrow> status_readable M svc \<and> status = spec_status M lb svc
      | Inl e \<Rightarrow> \<not> status_readable M svc)"
proof -
  note facts = getLBStatus_def status_readable_def getProxyProtocolEnabled_def getDisablePrivateIngress_def
  show ?thesis
  proof (cases "bool_or LBSvcProxyProtocol False svc")
    case (Inl e)
    then show ?thesis using bool_or_Inl [OF Inl] by (simp add: facts)
  next
    case (Inr proxy)
    note p = bool_or_Inr [OF Inr]
    let ?m = "if proxy then ProxyMode else VIPMode"
    show ?thesis
    proof (cases "StringFromService LBHostname svc")
      case (Some h)
      then show ?thesis using p Inr by (simp add: facts spec_status_def)
    next
      case None
      show ?thesis
      proof (cases "public_ingress M lb svc ?m")
        case (Inl e)
        then show ?thesis using public_ingress_Inl [OF Inl] None Inr by (simp add: facts)
      next
        case public: (Inr xs)
        note q = public_ingress_Inr [OF this]
        show ?thesis
        proof (cases "bool_or LBDisablePrivateIngress (lbs_disable_private_ingress M) svc")
          case (Inl e)
          then show ?thesis using bool_or_Inl [OF Inl] None Inr public by (simp add: facts)
        next
          case priv: (Inr d)
          show ?thesis
            using bool_or_Inr [OF priv] p q None Inr public priv by (simp add: facts spec_status_def)
        qed
      qed
    qed
  qed
qed

end
