(* ===== verification/ServerCache.thy ===== *)
theory ServerCache
  imports Samples
begin

text \<open>
  \<open>internal/hcops/server.go\<close>: the cache of all cloud servers. It is reloaded on every miss and when it is too
  old. The mutex makes every operation atomic, so an operation is one step on the cache.
\<close>

section \<open>The cache\<close>

record servers_cache =
  sc_max_age :: duration
  sc_network :: "int option"
  sc_last_refresh :: time
  sc_by_priv_ip :: "string \<rightharpoonup> cloud_server"
  sc_by_name :: "string \<rightharpoonup> cloud_server"

definition max_age :: "servers_cache \<Rightarrow> duration" where
  "max_age c = (if sc_max_age c = 0 then 10 * Minute else sc_max_age c)"

definition cache_expired :: "'w api \<Rightarrow> servers_cache \<Rightarrow> ('w, bool) go" where
  "cache_expired A c = do {
     now \<leftarrow> time_now A;
     ret (sc_last_refresh c + max_age c < now)
   }"

text \<open>The private addresses of a server that the cache indexes: those in the right network.\<close>

definition indexed_ips :: "int option \<Rightarrow> cloud_server \<Rightarrow> string list" where
  "indexed_ips nw srv =
     map (\<lambda>n. ip_text (pn_ip n))
       (filter (\<lambda>n. (case nw of None \<Rightarrow> True | Some i \<Rightarrow> pn_network n = i) \<and> pn_ip n \<noteq> []) (cs_private_net srv))"

definition index_server :: "servers_cache \<Rightarrow> cloud_server \<Rightarrow> servers_cache" where
  "index_server c srv = c\<lparr>
     sc_by_priv_ip := foldl (\<lambda>m x. m(x \<mapsto> srv)) (sc_by_priv_ip c) (indexed_ips (sc_network c) srv),
     sc_by_name := (sc_by_name c)(cs_name srv \<mapsto> srv)\<rparr>"

definition index_all :: "servers_cache \<Rightarrow> cloud_server list \<Rightarrow> servers_cache" where
  "index_all c srvs = foldl index_server (c\<lparr>sc_by_priv_ip := Map.empty, sc_by_name := Map.empty\<rparr>) srvs"

definition reload_cache :: "'w api \<Rightarrow> (servers_cache \<Rightarrow> cloud_server option) \<Rightarrow> servers_cache \<Rightarrow> ('w, (goerr + cloud_server) \<times> servers_cache) go" where
  "reload_cache A getSrv c = (let op = ''hcops/AllServersCache.getCache'' in do {
     r \<leftarrow> servers_all A;
     case r of
       Inl e \<Rightarrow> ret (Inl (wrap op e), c)
     | Inr srvs \<Rightarrow> do {
         now \<leftarrow> time_now A;
         let c = (index_all c srvs)\<lparr>sc_last_refresh := now\<rparr>;
         ret (case getSrv c of Some srv \<Rightarrow> Inr srv | None \<Rightarrow> Inl (wrap op ErrNotFound), c)
       }
   })"

definition getCache :: "'w api \<Rightarrow> (servers_cache \<Rightarrow> cloud_server option) \<Rightarrow> servers_cache \<Rightarrow> ('w, (goerr + cloud_server) \<times> servers_cache) go" where
  "getCache A getSrv c =
     (case getSrv c of
        None \<Rightarrow> reload_cache A getSrv c
      | Some srv \<Rightarrow> do {
          expired \<leftarrow> cache_expired A c;
          if expired then reload_cache A getSrv c else ret (Inr srv, c)
        })"

definition ByPrivateIP :: "'w api \<Rightarrow> ip \<Rightarrow> servers_cache \<Rightarrow> ('w, (goerr + cloud_server) \<times> servers_cache) go" where
  "ByPrivateIP A x c = do {
     r \<leftarrow> getCache A (\<lambda>c. sc_by_priv_ip c (ip_text x)) c;
     ret (map_sum (wrap (''hcops/AllServersCache.ByPrivateIP: '' @ ip_text x)) id (fst r), snd r)
   }"

definition ByName :: "'w api \<Rightarrow> string \<Rightarrow> servers_cache \<Rightarrow> ('w, (goerr + cloud_server) \<times> servers_cache) go" where
  "ByName A name c = do {
     r \<leftarrow> getCache A (\<lambda>c. sc_by_name c name) c;
     ret (map_sum (wrap (''hcops/AllServersCache.ByName: '' @ name)) id (fst r), snd r)
   }"

definition InvalidateCache :: "servers_cache \<Rightarrow> servers_cache" where
  "InvalidateCache c = c\<lparr>sc_last_refresh := 0\<rparr>"

section \<open>What the cache stands for\<close>

text \<open>The server that a list of all servers has for a name, and for a private address: the last one.\<close>

definition server_named :: "string \<Rightarrow> cloud_server list \<Rightarrow> cloud_server option" where
  "server_named n srvs = find (\<lambda>s. cs_name s = n) (rev srvs)"

definition server_at :: "int option \<Rightarrow> string \<Rightarrow> cloud_server list \<Rightarrow> cloud_server option" where
  "server_at nw x srvs = find (\<lambda>s. x \<in> set (indexed_ips nw s)) (rev srvs)"

text \<open>The cache represents a list of servers.\<close>

definition represents :: "servers_cache \<Rightarrow> cloud_server list \<Rightarrow> bool" where
  "represents c srvs \<longleftrightarrow> (\<forall>n. sc_by_name c n = server_named n srvs) \<and>
     (\<forall>x. sc_by_priv_ip c x = server_at (sc_network c) x srvs)"

lemma find_last: "find P (xs @ [x]) = (case find P xs of Some y \<Rightarrow> Some y | None \<Rightarrow> if P x then Some x else None)"
  by (induction xs) auto

lemma foldl_updates: "foldl (\<lambda>m x. m(x \<mapsto> v)) m xs k = (if k \<in> set xs then Some v else m k)"
  by (induction xs arbitrary: m) auto

lemma index_server_frame [simp]:
  "sc_network (index_server c s) = sc_network c" "sc_max_age (index_server c s) = sc_max_age c"
  by (simp_all add: index_server_def)

lemma index_fold:
  "sc_network (foldl index_server c srvs) = sc_network c \<and> sc_max_age (foldl index_server c srvs) = sc_max_age c \<and>
   sc_by_name (foldl index_server c srvs) n = (case server_named n srvs of Some s \<Rightarrow> Some s | None \<Rightarrow> sc_by_name c n) \<and>
   sc_by_priv_ip (foldl index_server c srvs) x = (case server_at (sc_network c) x srvs of Some s \<Rightarrow> Some s | None \<Rightarrow> sc_by_priv_ip c x)"
proof (induction srvs arbitrary: c)
  case (Cons s srvs)
  have "server_named n (s # srvs) = (case server_named n srvs of Some t \<Rightarrow> Some t | None \<Rightarrow> if cs_name s = n then Some s else None)"
    and "server_at nw x (s # srvs) = (case server_at nw x srvs of Some t \<Rightarrow> Some t | None \<Rightarrow> if x \<in> set (indexed_ips nw s) then Some s else None)" for nw
    unfolding server_named_def server_at_def
    by (simp_all add: find_last)
  with Cons.IH [of "index_server c s"] show ?case
    by (auto simp: index_server_def foldl_updates split: option.split)
qed (simp add: server_named_def server_at_def)

lemma index_all_represents:
  "represents ((index_all c srvs)\<lparr>sc_last_refresh := t\<rparr>) srvs" "sc_max_age (index_all c srvs) = sc_max_age c"
  "sc_network (index_all c srvs) = sc_network c"
  using index_fold [of "c\<lparr>sc_by_priv_ip := Map.empty, sc_by_name := Map.empty\<rparr>" srvs]
  by (simp_all add: represents_def index_all_def split: option.split)

section \<open>Every lookup\<close>

text \<open>
  The run of a lookup on a cache: answered from the cache while it is young enough, or after a reload,
  or failed because the servers could not be loaded.
\<close>

definition cached_run :: "(servers_cache \<Rightarrow> cloud_server option) \<Rightarrow> servers_cache \<Rightarrow> api_call list \<Rightarrow> (goerr + cloud_server) \<times> servers_cache \<Rightarrow> bool" where
  "cached_run get c cs r \<longleftrightarrow>
     (\<exists>t s. cs = [Now t] \<and> t \<le> sc_last_refresh c + max_age c \<and> get c = Some s \<and> r = (Inr s, c))"

definition loaded_run :: "(servers_cache \<Rightarrow> cloud_server option) \<Rightarrow> servers_cache \<Rightarrow> api_call list \<Rightarrow> (goerr + cloud_server) \<times> servers_cache \<Rightarrow> bool" where
  "loaded_run get c cs r \<longleftrightarrow> (\<exists>pre srvs t c'. cs = pre @ [ServersAll (Inr srvs), Now t] \<and>
     c' = (index_all c srvs)\<lparr>sc_last_refresh := t\<rparr> \<and> snd r = c' \<and>
     (case get c' of Some s \<Rightarrow> fst r = Inr s | None \<Rightarrow> \<exists>e. fst r = Inl e \<and> errors_is e ErrNotFound) \<and>
     (pre = [] \<and> get c = None \<or> (\<exists>t0. pre = [Now t0] \<and> sc_last_refresh c + max_age c < t0)))"

definition failed_run :: "servers_cache \<Rightarrow> api_call list \<Rightarrow> (goerr + cloud_server) \<times> servers_cache \<Rightarrow> bool" where
  "failed_run c cs r \<longleftrightarrow> (\<exists>e e'. ServersAll (Inl e) \<in> set cs \<and> r = (Inl e', c) \<and> errors_is e' ErrNotFound = errors_is e ErrNotFound)"

lemma loaded_runI:
  assumes "c' = (index_all c srvs)\<lparr>sc_last_refresh := t\<rparr>"
    and "pre = [] \<and> get c = None \<or> (\<exists>t0. pre = [Now t0] \<and> sc_last_refresh c + max_age c < t0)"
  shows "loaded_run get c (pre @ [ServersAll (Inr srvs), Now t])
    (case get c' of Some s \<Rightarrow> Inr s | None \<Rightarrow> Inl (wrap ''hcops/AllServersCache.getCache'' ErrNotFound), c')"
  unfolding loaded_run_def using assms
  by (intro exI [of _ pre] exI [of _ srvs] exI [of _ t] exI [of _ c'] conjI) (auto split: option.split)

lemma valid_reload:
  assumes "pre = [] \<and> get c = None \<or> (\<exists>t0. pre = [Now t0] \<and> sc_last_refresh c + max_age c < t0)"
  shows "valid (reload_cache A get c) (\<lambda>cs r. loaded_run get c (pre @ cs) r \<or> failed_run c (pre @ cs) r)"
  unfolding reload_cache_def Let_def request_defs
proof (intro valid_bind valid_request, goal_cases)
  case (1 r)
  show ?case
  proof (cases r)
    case (Inl e)
    then show ?thesis by (auto intro!: valid_return simp: failed_run_def)
  next
    case (Inr srvs)
    then show ?thesis using loaded_runI [where c = c and pre = pre and get = get, OF _ assms] by (auto intro!: valid_rules)
  qed
qed

lemma valid_getCache: "valid (getCache A get c) (\<lambda>cs r. cached_run get c cs r \<or> loaded_run get c cs r \<or> failed_run c cs r)"
proof (cases "get c")
  case None
  then show ?thesis
    using valid_reload [of "[]" get c A] by (auto simp: getCache_def elim!: valid_mono)
next
  case (Some s)
  show ?thesis
    unfolding getCache_def Some option.case cache_expired_def request_defs
  proof (intro valid_bind valid_request valid_return, goal_cases)
    case (1 t)
    show ?case
    proof (cases "sc_last_refresh c + max_age c < t")
      case True
      then show ?thesis using valid_reload [of "[Now t]" get c A] by (auto elim!: valid_mono)
    next
      case False
      then show ?thesis using Some by (auto intro!: valid_return simp: cached_run_def)
    qed
  qed
qed

text \<open>
  The abstract cache: a list of all servers and the time it was loaded. A lookup answers from the list while
  it is young enough, otherwise from a list it loads.
\<close>

definition lookup_loads :: "(cloud_server list \<Rightarrow> cloud_server option) \<Rightarrow> servers_cache \<Rightarrow> cloud_server list \<Rightarrow>
    api_call list \<Rightarrow> (goerr + cloud_server) \<times> servers_cache \<Rightarrow> bool" where
  "lookup_loads find_in c srvs cs r \<longleftrightarrow>
     (\<exists>pre srvs' t. cs = pre @ [ServersAll (Inr srvs'), Now t] \<and> represents (snd r) srvs' \<and> sc_last_refresh (snd r) = t \<and>
        (case find_in srvs' of Some s \<Rightarrow> fst r = Inr s | None \<Rightarrow> \<exists>e. fst r = Inl e \<and> errors_is e ErrNotFound) \<and>
        (pre = [] \<and> find_in srvs = None \<or> (\<exists>t0. pre = [Now t0] \<and> sc_last_refresh c + max_age c < t0)))"

definition lookup_spec :: "(cloud_server list \<Rightarrow> cloud_server option) \<Rightarrow> servers_cache \<Rightarrow> cloud_server list \<Rightarrow>
    api_call list \<Rightarrow> (goerr + cloud_server) \<times> servers_cache \<Rightarrow> bool" where
  "lookup_spec find_in c srvs cs r \<longleftrightarrow>
     (\<exists>t s. cs = [Now t] \<and> t \<le> sc_last_refresh c + max_age c \<and> find_in srvs = Some s \<and> r = (Inr s, c)) \<or>
     lookup_loads find_in c srvs cs r \<or>
     (\<exists>e e'. ServersAll (Inl e) \<in> set cs \<and> r = (Inl e', c) \<and> errors_is e' ErrNotFound = errors_is e ErrNotFound)"

lemma valid_lookup:
  assumes "represents c srvs" and "get c = find_in srvs"
    and "\<And>srvs' t. get ((index_all c srvs')\<lparr>sc_last_refresh := t\<rparr>) = find_in srvs'"
  shows "valid (do { r \<leftarrow> getCache A get c; ret (map_sum (wrap p) id (fst r), snd r) })
    (\<lambda>cs r. lookup_spec find_in c srvs cs r \<and> sc_network (snd r) = sc_network c \<and> sc_max_age (snd r) = sc_max_age c)"
proof (rule valid_bind, rule valid_mono [OF valid_getCache], rule valid_return, goal_cases)
  case (1 cs r)
  then consider "cached_run get c cs r" | "loaded_run get c cs r" | "failed_run c cs r" by blast
  then show ?case
  proof cases
    case 1
    then show ?thesis using assms(2) by (auto simp: cached_run_def lookup_spec_def)
  next
    case 2
    then obtain pre srvs' t c' where l: "cs = pre @ [ServersAll (Inr srvs'), Now t]"
      "c' = (index_all c srvs')\<lparr>sc_last_refresh := t\<rparr>" "snd r = c'"
      "case get c' of Some s \<Rightarrow> fst r = Inr s | None \<Rightarrow> \<exists>e. fst r = Inl e \<and> errors_is e ErrNotFound"
      "pre = [] \<and> get c = None \<or> (\<exists>t0. pre = [Now t0] \<and> sc_last_refresh c + max_age c < t0)"
      by (auto simp: loaded_run_def)
    have "case find_in srvs' of Some s \<Rightarrow> map_sum (wrap p) id (fst r) = Inr s
        | None \<Rightarrow> \<exists>e. map_sum (wrap p) id (fst r) = Inl e \<and> errors_is e ErrNotFound"
      using l(4) unfolding l(2) assms(3) by (auto split: option.splits)
    moreover have "represents (snd r) srvs'" "sc_last_refresh (snd r) = t"
      using l(2,3) index_all_represents(1) by simp_all
    ultimately have "lookup_loads find_in c srvs cs (map_sum (wrap p) id (fst r), snd r)"
      unfolding lookup_loads_def fst_conv snd_conv using l(1,5) assms(2) by (intro exI [of _ pre] exI [of _ srvs'] exI [of _ t]) simp
    then have "lookup_spec find_in c srvs cs (map_sum (wrap p) id (fst r), snd r)" by (simp add: lookup_spec_def)
    then show ?thesis using l(2,3) index_all_represents(2,3) by simp
  next
    case 3
    then show ?thesis by (auto simp: failed_run_def lookup_spec_def)
  qed
qed

lemma valid_ByName:
  "represents c srvs \<Longrightarrow> valid (ByName A n c) (\<lambda>cs r. lookup_spec (server_named n) c srvs cs r \<and>
     sc_network (snd r) = sc_network c \<and> sc_max_age (snd r) = sc_max_age c)"
  unfolding ByName_def using index_all_represents(1) [unfolded represents_def]
  by (intro valid_lookup) (auto simp: represents_def)

lemma valid_ByPrivateIP:
  "represents c srvs \<Longrightarrow> valid (ByPrivateIP A x c) (\<lambda>cs r. lookup_spec (server_at (sc_network c) (ip_text x)) c srvs cs r \<and>
     sc_network (snd r) = sc_network c \<and> sc_max_age (snd r) = sc_max_age c)"
  unfolding ByPrivateIP_def using index_all_represents(1) [unfolded represents_def] index_all_represents(3)
  by (intro valid_lookup) (auto simp: represents_def)

text \<open>C32: The server cache refines a list of all servers that is at most \<open>MaxAge\<close> old. When the cache represents a
  list, a lookup by name or by private address is answered from that list, without a request, only
  while the list is young enough; otherwise all servers are loaded, the cache represents the new list
  and the answer is the one that list gives, not found included; when loading fails, the lookup
  fails and the cache stays as it is.\<close>

theorem server_cache_refines:
  assumes "represents c srvs"
    and "runs (ByName A n c) cs (r, c')" and "runs (ByPrivateIP A x c) ds (q, d')"
  shows "lookup_spec (server_named n) c srvs cs (r, c') \<and> lookup_spec (server_at (sc_network c) (ip_text x)) c srvs ds (q, d')"
  using valid_runs [OF valid_ByName [OF assms(1)] assms(2)] valid_runs [OF valid_ByPrivateIP [OF assms(1)] assms(3)] by simp

definition sample_server :: cloud_server where
  "sample_server = \<lparr>cs_id = 1, cs_name = ''node-1'', cs_status_off = False, cs_type_name = ''cx22'', cs_location = ''fsn1'',
     cs_ipv4 = [1, 2, 3, 4], cs_ipv6 = [], cs_private_net = [\<lparr>pn_network = 4, pn_ip = [10, 0, 0, 2]\<rparr>]\<rparr>"

definition empty_cache :: "int option \<Rightarrow> servers_cache" where
  "empty_cache nw = \<lparr>sc_max_age = 0, sc_network = nw, sc_last_refresh = 0, sc_by_priv_ip = Map.empty, sc_by_name = Map.empty\<rparr>"

lemma empty_cache_represents: "represents (empty_cache nw) []"
  by (simp add: represents_def empty_cache_def server_named_def server_at_def)

definition one_server_api :: "unit api" where
  "one_server_api = quiet_api\<lparr>a_servers_all := \<lambda>w. (Inr [sample_server], w)\<rparr>"

theorem server_cache_refines_witness:
  "\<exists>cs c' ds d'. runs (ByName one_server_api ''node-1'' (empty_cache (Some 4))) cs (Inr sample_server, c') \<and>
     lookup_spec (server_named ''node-1'') (empty_cache (Some 4)) [] cs (Inr sample_server, c') \<and>
     lookup_spec (server_at (Some 4) ''10.0.0.2'') (empty_cache (Some 4)) [] ds (Inr sample_server, d')"
proof -
  let ?m = "ByName one_server_api ''node-1'' (empty_cache (Some 4))"
  let ?n = "ByPrivateIP one_server_api [10, 0, 0, 2] (empty_cache (Some 4))"
  have "fst (fst (outcome ?m sample_globals ())) = Inr sample_server" "fst (fst (outcome ?n sample_globals ())) = Inr sample_server"
    by code_simp+
  then obtain c' d' where o: "fst (outcome ?m sample_globals ()) = (Inr sample_server, c')"
    "fst (outcome ?n sample_globals ()) = (Inr sample_server, d')" by (metis prod.collapse)
  have x: "sc_network (empty_cache (Some 4)) = Some 4" "ip_text [10, 0, 0, 2] = ''10.0.0.2''"
    by (simp add: empty_cache_def) code_simp
  from server_cache_refines [OF empty_cache_represents runs_outcome [OF o(1)] runs_outcome [OF o(2)], unfolded x] runs_outcome [OF o(1)]
  show ?thesis by blast
qed

end
