(* ===== verification/Routes.thy ===== *)
theory Routes
  imports ServerCache LBOpsCorrect
begin

text \<open>
  \<open>hcloud/routes.go\<close>: the pod routes of the cluster's network. The handlers change the cached network and
  server cache of the receiver, which is a state they return. A request that the API refuses
  because the network is locked is repeated without bound; the fuel of the model bounds it, and a
  result \<open>None\<close> says that it was used up.
\<close>

record routes =
  rt_network :: network
  rt_cache :: servers_cache

text \<open>\<open>cloudprovider.Route\<close>.\<close>

record k8s_route =
  ro_name :: string
  ro_target :: string
  ro_destination :: string
  ro_blackhole :: bool

definition newRoutes :: "'w api \<Rightarrow> int \<Rightarrow> ('w, goerr + routes) go" where
  "newRoutes A networkID = do {
     r \<leftarrow> network_get A networkID;
     ret (case r of
            Inl e \<Rightarrow> Inl (wrap ''hcloud/newRoutes'' e)
          | Inr None \<Rightarrow> Inl (Msg (''network not found: '' @ format_int networkID))
          | Inr (Some nw) \<Rightarrow> Inr \<lparr>rt_network = nw, rt_cache = \<lparr>sc_max_age = 0, sc_network = Some (nw_id nw), sc_last_refresh = 0,
                sc_by_priv_ip = Map.empty, sc_by_name = Map.empty\<rparr>\<rparr>)
   }"

definition reloadNetwork :: "'w api \<Rightarrow> routes \<Rightarrow> ('w, goerr option \<times> routes) go" where
  "reloadNetwork A rt = do {
     r \<leftarrow> network_get A (nw_id (rt_network rt));
     ret (case r of
            Inl e \<Rightarrow> (Some (wrap ''hcloud/reloadNetwork'' e), rt)
          | Inr None \<Rightarrow> (Some (Msg (''network not found: '' @ nw_name (rt_network rt))), rt)
          | Inr (Some nw) \<Rightarrow> (None, rt\<lparr>rt_network := nw\<rparr>))
   }"

definition destination_text :: "network_route \<Rightarrow> string" where
  "destination_text r = ipnet_text (nr_destination r)"

definition hcloudRouteToRoute :: "'w api \<Rightarrow> network_route \<Rightarrow> routes \<Rightarrow> ('w, (goerr + k8s_route) \<times> routes) go" where
  "hcloudRouteToRoute A r rt = do {
     let ro = \<lparr>ro_name = ip_text (nr_gateway r) @ ''-'' @ destination_text r, ro_target = '''',
               ro_destination = destination_text r, ro_blackhole = False\<rparr>;
     (s, c) \<leftarrow> ByPrivateIP A (nr_gateway r) (rt_cache rt);
     let rt = rt\<lparr>rt_cache := c\<rparr>;
     ret (case s of
            Inl e \<Rightarrow> if errors_is e ErrNotFound then Inr (ro\<lparr>ro_blackhole := True\<rparr>)
                     else Inl (wrap ''hcloud/hcloudRouteToRoute'' e)
          | Inr srv \<Rightarrow> Inr (ro\<lparr>ro_target := cs_name srv\<rparr>), rt)
   }"

definition list_body :: "'w api \<Rightarrow> network_route \<Rightarrow> k8s_route list \<times> routes \<Rightarrow> ('w, (k8s_route list \<times> goerr \<times> routes) + (k8s_route list \<times> routes)) go" where
  "list_body A r st = do {
     (ro, rt) \<leftarrow> hcloudRouteToRoute A r (snd st);
     ret (case ro of
            Inl e \<Rightarrow> Inl (fst st, wrap ''hcloud/ListRoutes'' e, rt)
          | Inr ro \<Rightarrow> Inr (fst st @ [ro], rt))
   }"

definition ListRoutes :: "'w api \<Rightarrow> routes \<Rightarrow> ('w, (k8s_route list \<times> goerr option) \<times> routes) go" where
  "ListRoutes A rt = do {
     (err, rt) \<leftarrow> reloadNetwork A rt;
     case err of
       Some e \<Rightarrow> ret (([], Some (wrap ''hcloud/ListRoutes'' e)), rt)
     | None \<Rightarrow> do {
         r \<leftarrow> range_loop (list_body A) (nw_routes (rt_network rt)) ([], rt);
         ret (case r of
                Inl (ros, e, rt) \<Rightarrow> ((ros, Some e), rt)
              | Inr (ros, rt) \<Rightarrow> ((ros, None), rt))
       }
   }"

definition findServerPrivateNetByID :: "cloud_server \<Rightarrow> int \<Rightarrow> private_net option" where
  "findServerPrivateNetByID srv i = find (\<lambda>n. pn_network n = i) (cs_private_net srv)"

text \<open>The start of \<open>CreateRoute\<close>: the address of the target node, with one retry on a fresh cache.\<close>

definition target_address :: "'w api \<Rightarrow> k8s_route \<Rightarrow> routes \<Rightarrow> ('w, (goerr + ip) \<times> routes) go" where
  "target_address A route rt = (let op = ''hcloud/CreateRoute'' in do {
     (s, c) \<leftarrow> ByName A (ro_target route) (rt_cache rt);
     let rt = rt\<lparr>rt_cache := c\<rparr>;
     case s of
       Inl e \<Rightarrow> ret (Inl (flatten op e), rt)
     | Inr srv \<Rightarrow>
         (case findServerPrivateNetByID srv (nw_id (rt_network rt)) of
            Some n \<Rightarrow> ret (Inr (pn_ip n), rt)
          | None \<Rightarrow> do {
              (s, c) \<leftarrow> ByName A (ro_target route) (InvalidateCache (rt_cache rt));
              let rt = rt\<lparr>rt_cache := c\<rparr>;
              ret (case s of
                     Inl e \<Rightarrow> Inl (flatten op e)
                   | Inr srv \<Rightarrow>
                       (case findServerPrivateNetByID srv (nw_id (rt_network rt)) of
                          Some n \<Rightarrow> Inr (pn_ip n)
                        | None \<Rightarrow> Inl (Msg (op @ '': server '' @ ro_target route @ '': network with id '' @
                            format_int (nw_id (rt_network rt)) @ '' not attached to this server ''))), rt)
            })
   })"

definition route_to :: "k8s_route \<Rightarrow> network \<Rightarrow> network_route option" where
  "route_to route nw = find (\<lambda>r. destination_text r = ro_destination route) (nw_routes nw)"

definition checkIfRouteAlreadyExists :: "'w api \<Rightarrow> k8s_route \<Rightarrow> routes \<Rightarrow> ('w, (goerr + bool) \<times> routes) go" where
  "checkIfRouteAlreadyExists A route rt = (let op = ''hcloud/checkIfRouteAlreadyExists'' in do {
     (err, rt) \<leftarrow> reloadNetwork A rt;
     case err of
       Some e \<Rightarrow> ret (Inl (wrap op e), rt)
     | None \<Rightarrow>
         (case route_to route (rt_network rt) of
            None \<Rightarrow> ret (Inr False, rt)
          | Some r \<Rightarrow> do {
              (s, c) \<leftarrow> ByName A (ro_target route) (rt_cache rt);
              let rt = rt\<lparr>rt_cache := c\<rparr>;
              case s of
                Inl e \<Rightarrow> ret (Inl (flatten op e), rt)
              | Inr srv \<Rightarrow>
                  (case findServerPrivateNetByID srv (nw_id (rt_network rt)) of
                     None \<Rightarrow> ret (Inl (Msg (op @ '': server '' @ ro_target route @ '': no network with id: '' @
                               format_int (nw_id (rt_network rt)))), rt)
                   | Some n \<Rightarrow>
                       if ip_equal (nr_gateway r) (pn_ip n) then ret (Inr True, rt)
                       else do {
                         a \<leftarrow> network_delete_route A (nw_id (rt_network rt)) r;
                         case a of
                           Inl e \<Rightarrow> ret (Inl (wrap op e), rt)
                         | Inr a \<Rightarrow> do {
                             err \<leftarrow> WatchAction A a;
                             ret (case err of Some e \<Rightarrow> Inl (wrap op e) | None \<Rightarrow> Inr True, rt)
                           }
                       })
            })
   })"

definition locked :: "'w api \<Rightarrow> goerr \<Rightarrow> bool" where
  "locked A e \<longleftrightarrow> a_is_error A e ErrorCodeLocked \<or> a_is_error A e ErrorCodeConflict"

fun CreateRoute :: "'w api \<Rightarrow> nat \<Rightarrow> k8s_route \<Rightarrow> routes \<Rightarrow> ('w, goerr option option \<times> routes) go" where
  "CreateRoute A 0 route rt = ret (None, rt)"
| "CreateRoute A (Suc n) route rt = (let op = ''hcloud/CreateRoute'' in do {
     (addr, rt) \<leftarrow> target_address A route rt;
     case addr of
       Inl e \<Rightarrow> ret (Some (Some e), rt)
     | Inr addr \<Rightarrow>
         (case ParseCIDR (ro_destination route) of
            None \<Rightarrow> ret (Some (Some (wrap op (Ext ''net.ParseError'' (''invalid CIDR address: '' @ ro_destination route)))), rt)
          | Some cidr \<Rightarrow> do {
              (exists_already, rt) \<leftarrow> checkIfRouteAlreadyExists A route rt;
              case exists_already of
                Inl e \<Rightarrow> ret (Some (Some (wrap op e)), rt)
              | Inr True \<Rightarrow> ret (Some None, rt)
              | Inr False \<Rightarrow> do {
                  a \<leftarrow> network_add_route A (nw_id (rt_network rt)) \<lparr>nr_destination = cidr, nr_gateway = addr\<rparr>;
                  case a of
                    Inl e \<Rightarrow>
                      if locked A e then do {
                        _ \<leftarrow> sleep (5 * Second);
                        CreateRoute A n route rt
                      } else ret (Some (Some (wrap op e)), rt)
                  | Inr a \<Rightarrow> do {
                      err \<leftarrow> WatchAction A a;
                      ret (Some (map_option (wrap op) err), rt)
                    }
                }
            })
   })"

fun deleteRouteFromHcloud :: "'w api \<Rightarrow> nat \<Rightarrow> ipnet \<Rightarrow> ip \<Rightarrow> routes \<Rightarrow> ('w, goerr option option) go" where
  "deleteRouteFromHcloud A 0 cidr addr rt = ret None"
| "deleteRouteFromHcloud A (Suc n) cidr addr rt = (let op = ''hcloud/deleteRouteFromHcloud'' in do {
     a \<leftarrow> network_delete_route A (nw_id (rt_network rt)) \<lparr>nr_destination = cidr, nr_gateway = addr\<rparr>;
     case a of
       Inl e \<Rightarrow>
         if locked A e then do {
           _ \<leftarrow> sleep (5 * Second);
           deleteRouteFromHcloud A n cidr addr rt
         } else ret (Some (Some (wrap op e)))
     | Inr a \<Rightarrow> do {
         err \<leftarrow> WatchAction A a;
         ret (Some (map_option (wrap op) err))
       }
   })"

definition route_gateway :: "k8s_route \<Rightarrow> routes \<Rightarrow> ip" where
  "route_gateway route rt = (case route_to route (rt_network rt) of Some r \<Rightarrow> nr_gateway r | None \<Rightarrow> [])"

definition DeleteRoute :: "'w api \<Rightarrow> nat \<Rightarrow> k8s_route \<Rightarrow> routes \<Rightarrow> ('w, goerr option option) go" where
  "DeleteRoute A n route rt = (let op = ''hcloud/DeleteRoute'' in
     if IsUnspecified (route_gateway route rt)
     then ret (Some (Some (Msg (op @ '': route '' @ ro_name route @ '' not found in cloud network routes''))))
     else case ParseCIDR (ro_destination route) of
            None \<Rightarrow> ret (Some (Some (wrap op (Ext ''net.ParseError'' (''invalid CIDR address: '' @ ro_destination route)))))
          | Some cidr \<Rightarrow> do {
              r \<leftarrow> deleteRouteFromHcloud A n cidr (route_gateway route rt) rt;
              ret (map_option (map_option (wrap op)) r)
            })"

end
