(* ===== verification/RoutesCorrect.thy ===== *)
theory RoutesCorrect
  imports Routes
begin

text \<open>
  Correctness of the route handlers: what they add and delete, which answers they give, and that they
  return once the network is no longer locked.
\<close>

section \<open>Requests for routes in a log\<close>

fun added :: "api_call \<Rightarrow> (int \<times> network_route \<times> (goerr + action)) list" where
  "added (NetworkAddRoute i q a) = [(i, q, a)]"
| "added c = []"

fun removed :: "api_call \<Rightarrow> (int \<times> network_route \<times> (goerr + action)) list" where
  "removed (NetworkDeleteRoute i q a) = [(i, q, a)]"
| "removed c = []"

definition adds :: "api_call list \<Rightarrow> (int \<times> network_route \<times> (goerr + action)) list" where
  "adds cs = concat (map added cs)"

definition removes :: "api_call list \<Rightarrow> (int \<times> network_route \<times> (goerr + action)) list" where
  "removes cs = concat (map removed cs)"

lemma adds_simps [simp]:
  "adds [] = []" "adds (c # cs) = added c @ adds cs" "adds (cs @ ds) = adds cs @ adds ds"
  "removes [] = []" "removes (c # cs) = removed c @ removes cs" "removes (cs @ ds) = removes cs @ removes ds"
  by (simp_all add: adds_def removes_def)

definition fetched :: "int \<Rightarrow> api_call list \<Rightarrow> network \<Rightarrow> bool" where
  "fetched i cs nw \<longleftrightarrow> NetworkGetByID i (Inr (Some nw)) \<in> set cs"

lemma fetched_simps [simp]:
  "\<not> fetched i [] nw" "fetched i (c # cs) nw \<longleftrightarrow> c = NetworkGetByID i (Inr (Some nw)) \<or> fetched i cs nw"
  "fetched i (cs @ ds) nw \<longleftrightarrow> fetched i cs nw \<or> fetched i ds nw"
  by (auto simp: fetched_def)

text \<open>Truthful answers, as a function on the log.\<close>

fun truthful_answer :: "api_call \<Rightarrow> bool" where
  "truthful_answer (NetworkGetByID i (Inr (Some nw))) = (nw_id nw = i)"
| "truthful_answer c = True"

lemma networks_truthful_code [code]: "networks_truthful cs = list_all truthful_answer cs"
proof -
  have "truthful_answer c \<longleftrightarrow> (\<forall>i nw. c = NetworkGetByID i (Inr (Some nw)) \<longrightarrow> nw_id nw = i)" for c
    by (cases c rule: truthful_answer.cases) auto
  then show ?thesis by (auto simp: networks_truthful_def list_all_iff)
qed

section \<open>The calls of the server cache\<close>

fun cache_call :: "api_call \<Rightarrow> bool" where
  "cache_call (Now t) = True"
| "cache_call (ServersAll r) = True"
| "cache_call c = False"

lemma cache_calls_log:
  assumes "\<forall>c \<in> set cs. cache_call c"
  shows "adds cs = []" "removes cs = []" "networks_truthful cs" "\<not> fetched i cs nw"
proof -
  have "added c = [] \<and> removed c = []" if "c \<in> set cs" for c using assms that by (cases c) auto
  then show "adds cs = []" "removes cs = []" by (auto simp: adds_def removes_def)
  show "networks_truthful cs" "\<not> fetched i cs nw" using assms by (auto simp: networks_truthful_def fetched_def)
qed

lemma getCache_calls: "all_calls cache_call (getCache A get c)"
  unfolding getCache_def reload_cache_def cache_expired_def request_defs Let_def by (intro calls_rules) auto

definition routes_ok :: "routes \<Rightarrow> bool" where
  "routes_ok rt \<longleftrightarrow> (\<exists>srvs. represents (rt_cache rt) srvs)"

lemma lookup_represents: "lookup_spec f c srvs cs r \<Longrightarrow> represents c srvs \<Longrightarrow> \<exists>srvs'. represents (snd r) srvs'"
  by (auto simp: lookup_spec_def lookup_loads_def)

text \<open>The list of all servers that was loaded last, and the cache that follows it.\<close>

fun loaded :: "api_call \<Rightarrow> cloud_server list \<Rightarrow> cloud_server list" where
  "loaded (ServersAll (Inr srvs)) old = srvs"
| "loaded c old = old"

definition latest :: "cloud_server list \<Rightarrow> api_call list \<Rightarrow> cloud_server list" where
  "latest srvs cs = fold loaded cs srvs"

lemma latest_simps [simp]:
  "latest srvs [] = srvs" "latest srvs (c # cs) = latest (loaded c srvs) cs"
  "latest srvs (cs @ ds) = latest (latest srvs cs) ds"
  by (simp_all add: latest_def)

definition follows :: "cloud_server list \<Rightarrow> (cloud_server list \<Rightarrow> cloud_server option) \<Rightarrow> api_call list \<Rightarrow> (goerr + cloud_server) \<times> servers_cache \<Rightarrow> bool" where
  "follows srvs find_in cs r \<longleftrightarrow> (\<forall>c \<in> set cs. cache_call c) \<and> represents (snd r) (latest srvs cs) \<and>
     (\<forall>s. fst r = Inr s \<longrightarrow> find_in (latest srvs cs) = Some s)"

lemma reload_follows:
  assumes "represents c srvs" and "\<And>srvs' t. get ((index_all c srvs')\<lparr>sc_last_refresh := t\<rparr>) = find_in srvs'"
  shows "valid (reload_cache A get c) (follows srvs find_in)"
  unfolding reload_cache_def Let_def request_defs
  using assms index_all_represents(1)
  by (auto intro!: valid_rules split: sum.split option.split simp: follows_def)

lemma find_server:
  assumes "represents c srvs"
  shows "valid (ByName A n c) (follows srvs (server_named n))"
proof -
  let ?get = "\<lambda>c. sc_by_name c n"
  have get: "?get ((index_all c srvs')\<lparr>sc_last_refresh := t\<rparr>) = server_named n srvs'" "?get c = server_named n srvs" for srvs' t
    using index_all_represents(1) assms unfolding represents_def by blast+
  note reload = reload_follows [where get = ?get, OF assms get(1)]
  have "valid (getCache A ?get c) (follows srvs (server_named n))"
    unfolding getCache_def cache_expired_def request_defs
    using assms get(2) reload
    by (auto intro!: valid_rules valid_mono [OF reload] split: option.split) (auto simp: follows_def)
  then show ?thesis
    unfolding ByName_def
    by (intro valid_bind, elim valid_mono) (auto intro!: valid_return simp: follows_def map_sum_def split: sum.splits)
qed

lemma InvalidateCache_represents: "represents c srvs \<Longrightarrow> represents (InvalidateCache c) srvs"
  by (simp add: represents_def InvalidateCache_def)

section \<open>The parts of CreateRoute\<close>

text \<open>The address that the server of the node's name has in the network \<open>i\<close>, by the list \<open>srvs\<close> of all servers.\<close>

definition node_address :: "cloud_server list \<Rightarrow> int \<Rightarrow> k8s_route \<Rightarrow> ip \<Rightarrow> bool" where
  "node_address srvs i route x \<longleftrightarrow>
     (case server_named (ro_target route) srvs of
        None \<Rightarrow> False
      | Some srv \<Rightarrow> map_option pn_ip (findServerPrivateNetByID srv i) = Some x)"

definition addressed :: "cloud_server list \<Rightarrow> int \<Rightarrow> k8s_route \<Rightarrow> api_call list \<Rightarrow> (goerr + ip) \<times> routes \<Rightarrow> bool" where
  "addressed srvs i route cs r \<longleftrightarrow> (\<forall>c \<in> set cs. cache_call c) \<and> represents (rt_cache (snd r)) (latest srvs cs) \<and>
     nw_id (rt_network (snd r)) = i \<and> (\<forall>x. fst r = Inr x \<longrightarrow> node_address (latest srvs cs) i route x)"

lemma valid_target_address:
  assumes "represents (rt_cache rt) srvs" and "nw_id (rt_network rt) = i"
  shows "valid (target_address A route rt) (addressed srvs i route)"
  unfolding target_address_def Let_def
proof (rule valid_bind, rule valid_mono [OF find_server [OF assms(1)]], goal_cases)
  case (1 cs r)
  obtain s c where r: "r = (s, c)" by (cases r)
  show ?case
  proof (cases s)
    case (Inl e)
    with 1 r assms show ?thesis by (auto intro!: valid_return simp: follows_def addressed_def)
  next
    case (Inr srv)
    show ?thesis
    proof (cases "findServerPrivateNetByID srv i")
      case (Some n)
      with 1 r Inr assms show ?thesis by (auto intro!: valid_return simp: follows_def addressed_def node_address_def)
    next
      case None
      have rep: "represents (InvalidateCache c) (latest srvs cs)"
        using 1 r InvalidateCache_represents by (simp add: follows_def)
      show ?thesis
      proof (simp add: r Inr None assms(2), rule valid_bind, rule valid_mono [OF find_server [OF rep]], goal_cases)
        case (1 cs1 r1)
        obtain s1 c1 where r1: "r1 = (s1, c1)" by (cases r1)
        show ?case
          using 1 \<open>follows srvs _ cs r\<close> assms(2) unfolding r1
          by (cases s1) (auto intro!: valid_return simp: follows_def addressed_def node_address_def split: option.splits)
      qed
    qed
  qed
qed

lemma valid_reloadNetwork:
  "valid (reloadNetwork A rt) (\<lambda>cs r. adds cs = [] \<and> removes cs = [] \<and> rt_cache (snd r) = rt_cache rt \<and>
     (networks_truthful cs \<longrightarrow> nw_id (rt_network (snd r)) = nw_id (rt_network rt)) \<and>
     (fst r = None \<longrightarrow> fetched (nw_id (rt_network rt)) cs (rt_network (snd r))) \<and> (\<forall>srvs. latest srvs cs = srvs))"
  unfolding reloadNetwork_def request_defs
  by (auto intro!: valid_rules split: sum.split option.split)

text \<open>
  When a request for a route may be made, given the list of all servers at the start and the log so far. A
  route is added when a reload of the network showed no route to the destination, with the parsed
  destination and the address of the node by the latest list of servers. A route is deleted when a
  reload showed it as the route to the destination and its gateway is not the address of the node by the
  latest list.
\<close>

fun justified :: "int \<Rightarrow> k8s_route \<Rightarrow> cloud_server list \<Rightarrow> api_call list \<Rightarrow> api_call \<Rightarrow> bool" where
  "justified i route srvs pre (NetworkAddRoute j q a) \<longleftrightarrow> j = i \<and>
     ParseCIDR (ro_destination route) = Some (nr_destination q) \<and> node_address (latest srvs pre) i route (nr_gateway q) \<and>
     (\<exists>nw. fetched i pre nw \<and> route_to route nw = None)"
| "justified i route srvs pre (NetworkDeleteRoute j q a) \<longleftrightarrow> j = i \<and>
     (\<exists>nw. fetched i pre nw \<and> route_to route nw = Some q) \<and>
     (\<exists>x. node_address (latest srvs pre) i route x \<and> \<not> ip_equal (nr_gateway q) x)"
| "justified i route srvs pre c \<longleftrightarrow> True"

definition guarded :: "int \<Rightarrow> k8s_route \<Rightarrow> cloud_server list \<Rightarrow> api_call list \<Rightarrow> bool" where
  "guarded i route srvs cs \<longleftrightarrow> (\<forall>pre c post. cs = pre @ c # post \<longrightarrow> justified i route srvs pre c)"

lemma justified_later: "justified i route (latest srvs cs) pre c \<Longrightarrow> justified i route srvs (cs @ pre) c"
  by (cases c) auto

lemma guarded_append:
  assumes "guarded i route srvs cs" and "guarded i route (latest srvs cs) ds"
  shows "guarded i route srvs (cs @ ds)"
  unfolding guarded_def
proof (intro allI impI)
  fix pre c post
  assume "cs @ ds = pre @ c # post"
  then consider us where "cs = pre @ c # us" | us where "pre = cs @ us" "ds = us @ c # post"
    by (auto simp: append_eq_append_conv2 append_eq_Cons_conv Cons_eq_append_conv)
  then show "justified i route srvs pre c"
    using assms justified_later by cases (auto simp: guarded_def)
qed

lemma guarded_single: "guarded i route srvs [c] \<longleftrightarrow> justified i route srvs [] c"
  by (auto simp: guarded_def Cons_eq_append_conv)

lemma guarded_quiet: "adds cs = [] \<Longrightarrow> removes cs = [] \<Longrightarrow> guarded i route srvs cs"
  unfolding guarded_def
proof (intro allI impI)
  fix pre c post
  assume "adds cs = []" "removes cs = []" "cs = pre @ c # post"
  then show "justified i route srvs pre c" by (cases c) auto
qed

lemma guarded_step:
  assumes "guarded i route srvs cs" and "justified i route srvs cs c"
  shows "guarded i route srvs (cs @ [c])"
  unfolding guarded_def
  using assms by (auto simp: guarded_def append_eq_append_conv2 append_eq_Cons_conv Cons_eq_append_conv)

lemma in_adds: "(j, q, a) \<in> set (adds cs) \<longleftrightarrow> NetworkAddRoute j q a \<in> set cs"
proof (induction cs)
  case (Cons c cs)
  then show ?case by (cases c) auto
qed simp

lemma in_removes: "(j, q, a) \<in> set (removes cs) \<longleftrightarrow> NetworkDeleteRoute j q a \<in> set cs"
proof (induction cs)
  case (Cons c cs)
  then show ?case by (cases c) auto
qed simp

lemma guarded_network:
  assumes "guarded i route srvs cs"
  shows "\<forall>x \<in> set (adds cs) \<union> set (removes cs). fst x = i"
proof
  fix x
  assume "x \<in> set (adds cs) \<union> set (removes cs)"
  then obtain j q a c where x: "x = (j, q, a)" and c: "c \<in> set cs" "c = NetworkAddRoute j q a \<or> c = NetworkDeleteRoute j q a"
    by (cases x) (auto simp: in_adds in_removes)
  from split_list [OF c(1)] assms have "\<exists>pre. justified i route srvs pre c" by (auto simp: guarded_def)
  with x c(2) show "fst x = i" by auto
qed

text \<open>
  The answer that the route exists: the reload showed a route to the destination, and either its gateway is the
  address of the node, or its deletion was accepted and watched to the end.
\<close>

definition route_there :: "int \<Rightarrow> k8s_route \<Rightarrow> cloud_server list \<Rightarrow> api_call list \<Rightarrow> bool" where
  "route_there i route srvs cs \<longleftrightarrow> (\<exists>nw q x. fetched i cs nw \<and> route_to route nw = Some q \<and> node_address (latest srvs cs) i route x \<and>
     (ip_equal (nr_gateway q) x \<or> (\<exists>a. NetworkDeleteRoute i q (Inr a) \<in> set cs \<and> Watch a None \<in> set cs)))"

lemma route_there_later: "route_there i route (latest srvs cs) ds \<Longrightarrow> route_there i route srvs (cs @ ds)"
  unfolding route_there_def by auto

definition checked :: "int \<Rightarrow> k8s_route \<Rightarrow> cloud_server list \<Rightarrow> api_call list \<Rightarrow> (goerr + bool) \<times> routes \<Rightarrow> bool" where
  "checked i route srvs cs r \<longleftrightarrow> adds cs = [] \<and> (networks_truthful cs \<longrightarrow>
     represents (rt_cache (snd r)) (latest srvs cs) \<and> nw_id (rt_network (snd r)) = i \<and> guarded i route srvs cs \<and>
     (fst r = Inr False \<longrightarrow> removes cs = [] \<and> latest srvs cs = srvs \<and> (\<exists>nw. fetched i cs nw \<and> route_to route nw = None)) \<and>
     (fst r = Inr True \<longrightarrow> route_there i route srvs cs))"

lemma route_to_destination: "route_to route nw = Some q \<Longrightarrow> destination_text q = ro_destination route"
  by (auto simp: route_to_def find_Some_iff)

lemma valid_check:
  assumes "represents (rt_cache rt) srvs" and "nw_id (rt_network rt) = i"
  shows "valid (checkIfRouteAlreadyExists A route rt) (checked i route srvs)"
  unfolding checkIfRouteAlreadyExists_def Let_def
proof (rule valid_bind, rule valid_mono [OF valid_reloadNetwork], goal_cases)
  case (1 cs r)
  obtain err rt1 where r: "r = (err, rt1)" by (cases r)
  have rep: "represents (rt_cache rt1) srvs" and quiet: "adds cs = []" "removes cs = []" "latest srvs cs = srvs"
    and net: "networks_truthful cs \<longrightarrow> nw_id (rt_network rt1) = i" "err = None \<longrightarrow> fetched i cs (rt_network rt1)"
    using 1 assms r by auto
  note start = quiet guarded_quiet [OF quiet(1,2)]
  show ?case
  proof (cases err)
    case (Some e)
    with start rep net show ?thesis unfolding r by (auto intro!: valid_return simp: checked_def)
  next
    case None
    note net = net [unfolded None, simplified]
    show ?thesis
    proof (cases "route_to route (rt_network rt1)")
      case None
      with start rep net \<open>err = None\<close> show ?thesis unfolding r by (auto intro!: valid_return simp: checked_def)
    next
      case (Some q)
      show ?thesis
      proof (simp add: r \<open>err = None\<close> Some, rule valid_bind, rule valid_mono [OF find_server [OF rep]], goal_cases)
        case (1 cs1 r1)
        obtain s c where r1: "r1 = (s, c)" by (cases r1)
        have log: "adds cs1 = []" "removes cs1 = []" "networks_truthful cs1"
          using cache_calls_log 1 by (auto simp: follows_def)
        have all: "guarded i route srvs (cs @ cs1)" using start log by (simp add: guarded_quiet)
        have rep1: "represents c (latest srvs cs1)" using 1 r1 by (simp add: follows_def)
        show ?case
        proof (cases "\<exists>srv n. s = Inr srv \<and> findServerPrivateNetByID srv (nw_id (rt_network rt1)) = Some n")
          case False
          then show ?thesis
            using start net log rep1 all unfolding r1
            by (auto intro!: valid_return simp: checked_def split: sum.split option.split)
        next
          case True
          then obtain srv n where sn: "s = Inr srv" "findServerPrivateNetByID srv (nw_id (rt_network rt1)) = Some n" by blast
          have at: "networks_truthful cs \<longrightarrow> node_address (latest srvs (cs @ cs1)) i route (pn_ip n)"
            using 1 r1 sn net(1) start(3) by (auto simp: follows_def node_address_def)
          show ?thesis
          proof (cases "ip_equal (nr_gateway q) (pn_ip n)")
            case True
            then have "networks_truthful cs \<longrightarrow> route_there i route srvs (cs @ cs1)"
              unfolding route_there_def using at net(2) Some by (simp only: fetched_simps) blast
            with True sn show ?thesis
              using start net log rep1 all unfolding r1 by (auto intro!: valid_return simp: checked_def)
          next
            case False
            have del: "guarded i route srvs (cs @ cs1 @ [NetworkDeleteRoute (nw_id (rt_network rt1)) q a])"
              if "networks_truthful cs" for a
            proof -
              have "justified i route srvs (cs @ cs1) (NetworkDeleteRoute (nw_id (rt_network rt1)) q a)"
                using at net Some False that by auto
              from guarded_step [OF all this] show ?thesis by simp
            qed
            have over: "route_there i route srvs (cs @ cs1 @ [NetworkDeleteRoute (nw_id (rt_network rt1)) q (Inr a), Watch a None])"
              if "networks_truthful cs" for a
              unfolding route_there_def using at net Some False that by (auto intro!: exI [of _ "rt_network rt1"])
            have watched: "guarded i route srvs (cs @ cs1 @ [NetworkDeleteRoute (nw_id (rt_network rt1)) q (Inr a), Watch a w])"
              if "networks_truthful cs" for a w
              using guarded_step [OF del [OF that], where c = "Watch a w"] by simp
            show ?thesis
              using sn False start net log rep1 del over watched unfolding r1 request_defs
              by (auto intro!: valid_rules simp: checked_def split: sum.split option.splits)
          qed
        qed
      qed
    qed
  qed
qed

section \<open>CreateRoute\<close>

definition locked_answers :: "'w api \<Rightarrow> (int \<times> network_route \<times> (goerr + action)) list \<Rightarrow> nat" where
  "locked_answers A xs = length (filter (\<lambda>(i, q, a). case a of Inl e \<Rightarrow> locked A e | Inr x \<Rightarrow> False) xs)"

lemma locked_answers_simps [simp]:
  "locked_answers A [] = 0" "locked_answers A (xs @ ys) = locked_answers A xs + locked_answers A ys"
  "locked_answers A ((i, q, Inl e) # xs) = (if locked A e then 1 else 0) + locked_answers A xs"
  "locked_answers A ((i, q, Inr x) # xs) = locked_answers A xs"
  by (simp_all add: locked_answers_def)

text \<open>What a run of \<open>CreateRoute\<close> with a result has done.\<close>

definition create_done :: "int \<Rightarrow> k8s_route \<Rightarrow> cloud_server list \<Rightarrow> api_call list \<Rightarrow> bool" where
  "create_done i route srvs cs \<longleftrightarrow> (\<exists>q a. NetworkAddRoute i q (Inr a) \<in> set cs \<and> Watch a None \<in> set cs) \<or>
     route_there i route srvs cs"

definition accepted_adds :: "api_call list \<Rightarrow> (int \<times> network_route \<times> (goerr + action)) list" where
  "accepted_adds cs = filter (\<lambda>(i, q, a). \<not> isl a) (adds cs)"

lemma accepted_adds_simps [simp]:
  "accepted_adds [] = []" "accepted_adds (cs @ ds) = accepted_adds cs @ accepted_adds ds"
  "accepted_adds (c # cs) = filter (\<lambda>(i, q, a). \<not> isl a) (added c) @ accepted_adds cs"
  by (simp_all add: accepted_adds_def)

definition created :: "int \<Rightarrow> k8s_route \<Rightarrow> cloud_server list \<Rightarrow> api_call list \<Rightarrow> goerr option option \<times> routes \<Rightarrow> bool" where
  "created i route srvs cs r \<longleftrightarrow> (networks_truthful cs \<longrightarrow>
     guarded i route srvs cs \<and> (removes cs = [] \<or> accepted_adds cs = []) \<and>
     represents (rt_cache (snd r)) (latest srvs cs) \<and> nw_id (rt_network (snd r)) = i \<and>
     (fst r = Some None \<longrightarrow> create_done i route srvs cs))"

lemma created_untruthful: "\<not> networks_truthful cs \<Longrightarrow> created i route srvs cs r"
  by (simp add: created_def)

lemma create_done_later: "create_done i route (latest srvs cs) ds \<Longrightarrow> create_done i route srvs (cs @ ds)"
  using route_there_later by (auto simp: create_done_def)

lemma created_prefix:
  assumes "created i route (latest srvs cs) ds r" and "removes cs = []" and "accepted_adds cs = []"
    and "guarded i route srvs cs"
  shows "created i route srvs (cs @ ds) r"
  using assms guarded_append create_done_later by (auto simp: created_def)

lemma created_facts:
  assumes "created i route srvs cs r" and "networks_truthful cs"
  shows "\<forall>x \<in> set (adds cs) \<union> set (removes cs). fst x = i" "routes_ok (snd r)" "nw_id (rt_network (snd r)) = i"
proof -
  have ok: "guarded i route srvs cs" "represents (rt_cache (snd r)) (latest srvs cs)" "nw_id (rt_network (snd r)) = i"
    using assms by (simp_all add: created_def)
  then show "nw_id (rt_network (snd r)) = i" by simp
  show "\<forall>x \<in> set (adds cs) \<union> set (removes cs). fst x = i" using guarded_network [OF ok(1)] .
  show "routes_ok (snd r)" using ok(2) by (auto simp: routes_ok_def)
qed

lemma valid_any: "all_calls (\<lambda>c. True) m \<Longrightarrow> (\<And>cs r. Q cs r) \<Longrightarrow> valid m Q"
  unfolding all_calls_def by (erule valid_mono) simp

lemma all_calls_bool_case [calls_rules]: "all_calls P m \<Longrightarrow> all_calls P m' \<Longrightarrow> all_calls P (case b of True \<Rightarrow> m | False \<Rightarrow> m')"
  by (cases b) simp_all

lemma create_calls: "all_calls (\<lambda>c. True) (CreateRoute A n route rt)"
proof (induction n arbitrary: rt)
  case (Suc n)
  show ?case
    unfolding CreateRoute.simps target_address_def checkIfRouteAlreadyExists_def reloadNetwork_def ByName_def Let_def request_defs
    by (intro calls_rules all_calls_mono [OF getCache_calls] Suc.IH TrueI)
qed (simp add: all_calls_return)

lemma valid_CreateRoute:
  "represents (rt_cache rt) srvs \<Longrightarrow> nw_id (rt_network rt) = i \<Longrightarrow> valid (CreateRoute A n route rt) (created i route srvs)"
proof (induction n arbitrary: rt srvs)
  case 0
  then show ?case by (auto intro!: valid_return simp: created_def guarded_quiet)
next
  case (Suc n)
  show ?case
    unfolding CreateRoute.simps Let_def
  proof (rule valid_bind, rule valid_mono [OF valid_target_address [OF Suc.prems]], goal_cases)
    case (1 cs r)
    obtain addr rt1 where r: "r = (addr, rt1)" by (cases r)
    have log: "adds cs = []" "removes cs = []" "networks_truthful cs" "guarded i route srvs cs"
      using cache_calls_log 1 by (auto simp: addressed_def guarded_quiet)
    have rep: "represents (rt_cache rt1) (latest srvs cs)" and nw: "nw_id (rt_network rt1) = i"
      using 1 r by (simp_all add: addressed_def)
    show ?case
    proof (cases addr)
      case (Inl e)
      then show ?thesis using log rep nw unfolding r by (auto intro!: valid_return simp: created_def)
    next
      case (Inr x)
      then have x: "node_address (latest srvs cs) i route x" using 1 r by (simp add: addressed_def)
      show ?thesis
      proof (cases "ParseCIDR (ro_destination route)")
        case None
        then show ?thesis unfolding r Inr using log rep nw by (auto intro!: valid_return simp: created_def)
      next
        case (Some cidr)
        show ?thesis
        proof (simp add: r Inr Some, rule valid_bind, rule valid_mono [OF valid_check [OF rep nw]], goal_cases)
          case (1 cs1 r1)
          obtain ex rt2 where r1: "r1 = (ex, rt2)" by (cases r1)
          have c: "adds cs1 = []" "networks_truthful cs1 \<longrightarrow> represents (rt_cache rt2) (latest srvs (cs @ cs1)) \<and>
              nw_id (rt_network rt2) = i \<and> guarded i route srvs (cs @ cs1)"
            using 1 r1 guarded_append [OF log(4)] by (simp_all add: checked_def)
          consider "\<not> networks_truthful cs1" | e where "networks_truthful cs1" "ex = Inl e"
            | "networks_truthful cs1" "ex = Inr True" | "networks_truthful cs1" "ex = Inr False"
            by (metis (full_types) sum.exhaust)
          then show ?case
          proof cases
            case 1
            then show ?thesis
              unfolding r1 request_defs prod.case
              by (intro valid_any created_untruthful calls_rules create_calls) simp_all
          next
            case 2
            then show ?thesis
              using log c unfolding r1 by (auto intro!: valid_return simp: created_def accepted_adds_def)
          next
            case 3
            then have "create_done i route srvs (cs @ cs1)"
              using \<open>checked _ _ _ _ _\<close> r1 route_there_later by (simp add: checked_def create_done_def)
            with 3 show ?thesis
              using log c unfolding r1 by (auto intro!: valid_return simp: created_def accepted_adds_def)
          next
            case 4
            then have f: "removes cs1 = []" "latest srvs (cs @ cs1) = latest srvs cs"
              "\<exists>nw. fetched i cs1 nw \<and> route_to route nw = None" using \<open>checked _ _ _ _ _\<close> r1 by (auto simp: checked_def)
            let ?q = "\<lparr>nr_destination = cidr, nr_gateway = x\<rparr>"
            have "justified i route srvs (cs @ cs1) (NetworkAddRoute i ?q a)" for a
              using Some x f by auto
            then have add: "guarded i route srvs ((cs @ cs1) @ [NetworkAddRoute i ?q a])" for a
              using guarded_step c(2) 4 by blast
            show ?thesis
              unfolding r1 4(2) prod.case sum.case bool.case request_defs
            proof (rule valid_bind, rule valid_request)
              fix a :: "goerr + action"
              let ?add = "NetworkAddRoute i ?q a"
              have rt2: "represents (rt_cache rt2) (latest srvs (cs @ cs1))" "nw_id (rt_network rt2) = i" using c(2) 4 by blast+
              show "valid (case a of
                  Inl e \<Rightarrow> if locked A e then do { _ \<leftarrow> request (\<lambda>_. Sleep (5 * Second)) (Pair ()); CreateRoute A n route rt2 }
                    else ret (Some (Some (wrap ''hcloud/CreateRoute'' e)), rt2)
                | Inr a \<Rightarrow> do { err \<leftarrow> request (Watch a) (a_watch A a); ret (Some (map_option (wrap ''hcloud/CreateRoute'') err), rt2) })
                (\<lambda>cs' b. created i route srvs (cs @ cs1 @ [NetworkAddRoute (nw_id (rt_network rt2)) ?q a] @ cs') b)"
              proof (cases a)
                case (Inr act)
                have "guarded i route srvs (((cs @ cs1) @ [?add]) @ [Watch act w])" for w
                  by (rule guarded_step [OF add]) simp
                moreover have "create_done i route srvs (cs @ cs1 @ [?add] @ [Watch act None])"
                  unfolding create_done_def using Inr by (intro disjI1 exI [of _ ?q] exI [of _ act]) simp
                ultimately show ?thesis
                  using log f rt2 Inr by (auto intro!: valid_rules simp: created_def)
              next
                case (Inl e)
                have slept: "guarded i route srvs (((cs @ cs1) @ [?add]) @ [Sleep (5 * Second)])"
                  by (rule guarded_step [OF add]) simp
                show ?thesis
                proof (cases "locked A e")
                  case True
                  have step: "created i route srvs (cs @ cs1 @ [?add] @ [Sleep (5 * Second)] @ ds) b"
                    if "created i route (latest srvs (cs @ cs1)) ds b" for ds b
                    using created_prefix [of i route srvs "cs @ cs1 @ [?add] @ [Sleep (5 * Second)]" ds b] that slept log f c(1) Inl
                    by (simp add: accepted_adds_def)
                  show ?thesis
                    unfolding Inl sum.case
                    by (simp only: True if_True, rule valid_bind, rule valid_request, rule valid_mono [OF Suc.IH [OF rt2]])
                      (use step Inl rt2 in simp)
                qed (use log f c(1) rt2 add [of a] Inl in \<open>auto intro!: valid_return simp: created_def\<close>)
              qed
            qed
          qed
        qed
      qed
    qed
  qed
qed

text \<open>C31: Whatever the outside answers, \<open>CreateRoute\<close> adds only the route it was asked for: in the network of
  the receiver, with the parsed destination, only after a reload of the network showed that no route has the
  destination, and with the private address that the server of the node's name has in that network.
  That server is the one of the latest list of all servers: the list that the receiver's cache represents at
  the start, or the last one loaded before the request. It deletes only a route that a reload showed as the
  route to the destination and whose gateway is not the address of the node by the latest list. When it
  reports success, a route was added and its action watched to the end, or the reloaded network had a
  route to the destination, with the node's address as its gateway or deleted and watched to the end.\<close>

theorem create_route_guarded:
  assumes "represents (rt_cache rt) srvs" and "runs (CreateRoute A n route rt) cs (r, rt')" and "networks_truthful cs"
    and "i = nw_id (rt_network rt)"
  shows "(\<forall>pre j q a post. cs = pre @ NetworkAddRoute j q a # post \<longrightarrow> j = i \<and>
      ParseCIDR (ro_destination route) = Some (nr_destination q) \<and> node_address (latest srvs pre) i route (nr_gateway q) \<and>
      (\<exists>nw. fetched i pre nw \<and> route_to route nw = None)) \<and>
    (\<forall>pre j q a post. cs = pre @ NetworkDeleteRoute j q a # post \<longrightarrow> j = i \<and>
      (\<exists>nw. fetched i pre nw \<and> route_to route nw = Some q) \<and>
      (\<exists>x. node_address (latest srvs pre) i route x \<and> \<not> ip_equal (nr_gateway q) x)) \<and>
    (r = Some None \<longrightarrow> create_done i route srvs cs)"
proof -
  have "created i route srvs cs (r, rt')"
    using valid_runs [OF valid_CreateRoute [OF assms(1)] assms(2)] assms(4) by simp
  then have "justified i route srvs pre c" if "cs = pre @ c # post" for pre c post
    using that assms(3) by (simp add: created_def guarded_def)
  moreover have "r = Some None \<longrightarrow> create_done i route srvs cs"
    using \<open>created _ _ _ _ _\<close> assms(3) by (simp add: created_def)
  ultimately show ?thesis by fastforce
qed

text \<open>C35: A run of \<open>CreateRoute\<close> that deletes a stale route to the destination creates none, although it
  may report success: the check answers that the route exists after it has deleted it.\<close>

theorem stale_route_not_replaced:
  assumes "routes_ok rt" and "runs (CreateRoute A n route rt) cs (r, rt')" and "networks_truthful cs"
    and "(j, q, a) \<in> set (removes cs)"
  shows "accepted_adds cs = []"
proof -
  from assms(1) obtain srvs where "represents (rt_cache rt) srvs" by (auto simp: routes_ok_def)
  from valid_runs [OF valid_CreateRoute [OF this refl] assms(2)] assms(3,4) show ?thesis by (auto simp: created_def)
qed

definition sample_network :: "network_route list \<Rightarrow> network" where
  "sample_network rs = \<lparr>nw_id = 4, nw_name = ''nw'', nw_routes = rs\<rparr>"

definition sample_routes :: "network_route list \<Rightarrow> routes" where
  "sample_routes rs = \<lparr>rt_network = sample_network rs, rt_cache = empty_cache (Some 4)\<rparr>"

definition sample_route :: k8s_route where
  "sample_route = \<lparr>ro_name = ''r'', ro_target = ''node-1'', ro_destination = ''10.1.0.0/24'', ro_blackhole = False\<rparr>"

definition pod_route :: "ip \<Rightarrow> network_route" where
  "pod_route x = \<lparr>nr_destination = \<lparr>ipn_ip = [10, 1, 0, 0], ipn_ones = 24, ipn_bits = 32\<rparr>, nr_gateway = x\<rparr>"

text \<open>An API whose network has the given routes.\<close>

definition routes_api :: "network_route list \<Rightarrow> unit api" where
  "routes_api rs = one_server_api\<lparr>a_network_get := \<lambda>i w. (Inr (Some (sample_network rs)), w)\<rparr>"

lemma sample_routes_ok: "routes_ok (sample_routes rs)"
  using empty_cache_represents by (auto simp: routes_ok_def sample_routes_def)

theorem create_route_guarded_witness:
  "\<exists>cs rt' pre post. runs (CreateRoute (routes_api []) 1 sample_route (sample_routes [])) cs (Some None, rt') \<and>
     cs = pre @ NetworkAddRoute 4 (pod_route [10, 0, 0, 2]) (Inr 7) # post \<and>
     node_address (latest [] pre) 4 sample_route [10, 0, 0, 2] \<and> create_done 4 sample_route [] cs"
proof -
  let ?m = "CreateRoute (routes_api []) 1 sample_route (sample_routes [])"
  let ?cs = "snd (outcome ?m sample_globals ())"
  have o: "fst (fst (outcome ?m sample_globals ())) = Some None" and a: "adds ?cs = [(4, pod_route [10, 0, 0, 2], Inr 7)]"
    and t: "networks_truthful ?cs"
    by code_simp+
  from o obtain rt' where o: "fst (outcome ?m sample_globals ()) = (Some None, rt')" by (metis prod.collapse)
  have "represents (rt_cache (sample_routes [])) []" and "4 = nw_id (rt_network (sample_routes []))"
    using empty_cache_represents by (simp_all add: sample_routes_def sample_network_def)
  note run = create_route_guarded [OF this(1) runs_outcome [OF o] t this(2)]
  have "NetworkAddRoute 4 (pod_route [10, 0, 0, 2]) (Inr 7) \<in> set ?cs" using a by (simp flip: in_adds)
  from split_list [OF this] obtain pre post where split: "?cs = pre @ NetworkAddRoute 4 (pod_route [10, 0, 0, 2]) (Inr 7) # post" by blast
  with run have "node_address (latest [] pre) 4 sample_route (nr_gateway (pod_route [10, 0, 0, 2]))" by blast
  then have "node_address (latest [] pre) 4 sample_route [10, 0, 0, 2]" by (simp only: pod_route_def network_route.select_convs)
  with run split runs_outcome [OF o] show ?thesis by blast
qed

theorem stale_route_not_replaced_witness:
  "\<exists>cs rt'. runs (CreateRoute (routes_api [pod_route [10, 0, 0, 9]]) 1 sample_route (sample_routes [])) cs (Some None, rt') \<and>
     removes cs = [(4, pod_route [10, 0, 0, 9], Inr 7)] \<and> accepted_adds cs = []"
proof -
  let ?m = "CreateRoute (routes_api [pod_route [10, 0, 0, 9]]) 1 sample_route (sample_routes [])"
  let ?cs = "snd (outcome ?m sample_globals ())"
  have o: "fst (fst (outcome ?m sample_globals ())) = Some None" and a: "removes ?cs = [(4, pod_route [10, 0, 0, 9], Inr 7)]"
    and t: "networks_truthful ?cs"
    by code_simp+
  from o obtain rt' where o: "fst (outcome ?m sample_globals ()) = (Some None, rt')" by (metis prod.collapse)
  from stale_route_not_replaced [OF sample_routes_ok runs_outcome [OF o] t, of 4 "pod_route [10, 0, 0, 9]" "Inr 7"] a runs_outcome [OF o]
  show ?thesis by auto
qed

end
