(* ===== verification/RoutesFuel.thy ===== *)
theory RoutesFuel
  imports RoutesCorrect
begin

text \<open>
  The two operations that repeat a request while the network is locked return after every run in which fewer
  than \<open>n\<close> requests were refused that way, \<open>n\<close> their fuel; and the result of such a run is the same for
  every larger fuel, so the fuel does not show in it.
\<close>

section \<open>Programs that agree where the first one is finished\<close>

definition agrees :: "('a \<Rightarrow> bool) \<Rightarrow> ('c, 'g, 'w, 'a) prog \<Rightarrow> ('c, 'g, 'w, 'a) prog \<Rightarrow> bool" where
  "agrees fin m m' \<longleftrightarrow> (\<forall>s. fin (fst (run_state m s)) \<longrightarrow> run_state m' s = run_state m s)"

lemma agrees_refl: "agrees fin m m"
  by (simp add: agrees_def)

lemma agrees_unfinished: "\<not> fin a \<Longrightarrow> agrees fin (ret a) m"
  by (simp add: agrees_def)

lemma agrees_bind: "(\<And>a. agrees fin (f a) (f' a)) \<Longrightarrow> agrees fin (State_Monad.bind m f) (State_Monad.bind m f')"
  by (auto simp: agrees_def split: prod.split)

lemma agrees_cases:
  "(\<And>a. agrees fin (f a) (f' a)) \<Longrightarrow> (\<And>b. agrees fin (g b) (g' b)) \<Longrightarrow>
     agrees fin (case v of Inl a \<Rightarrow> f a | Inr b \<Rightarrow> g b) (case v of Inl a \<Rightarrow> f' a | Inr b \<Rightarrow> g' b)"
  "agrees fin m1 m1' \<Longrightarrow> (\<And>x. agrees fin (h x) (h' x)) \<Longrightarrow>
     agrees fin (case u of None \<Rightarrow> m1 | Some x \<Rightarrow> h x) (case u of None \<Rightarrow> m1' | Some x \<Rightarrow> h' x)"
  "(\<And>x y. agrees fin (k x y) (k' x y)) \<Longrightarrow> agrees fin (case w of (x, y) \<Rightarrow> k x y) (case w of (x, y) \<Rightarrow> k' x y)"
  "agrees fin m1 m1' \<Longrightarrow> agrees fin m2 m2' \<Longrightarrow> agrees fin (if b then m1 else m2) (if b then m1' else m2')"
  "agrees fin m1 m1' \<Longrightarrow> agrees fin m2 m2' \<Longrightarrow>
     agrees fin (case b of True \<Rightarrow> m1 | False \<Rightarrow> m2) (case b of True \<Rightarrow> m1' | False \<Rightarrow> m2')"
  by (simp_all split: sum.split option.split prod.split bool.split)

lemma agrees_bind_map:
  "agrees (\<lambda>r. r \<noteq> None) m m' \<Longrightarrow>
     agrees (\<lambda>r. r \<noteq> None) (State_Monad.bind m (\<lambda>r. ret (map_option f r))) (State_Monad.bind m' (\<lambda>r. ret (map_option f r)))"
  by (auto simp: agrees_def split: prod.splits)

lemma create_agrees: "agrees (\<lambda>r. fst r \<noteq> None) (CreateRoute A n route rt) (CreateRoute A (n + k) route rt)"
proof (induction n arbitrary: rt)
  case (Suc n)
  show ?case
    unfolding add_Suc CreateRoute.simps Let_def
    by (intro agrees_bind agrees_cases Suc.IH agrees_refl)
qed (simp add: agrees_unfinished)

lemma delete_agrees: "agrees (\<lambda>r. r \<noteq> None) (deleteRouteFromHcloud A n cidr x rt) (deleteRouteFromHcloud A (n + k) cidr x rt)"
proof (induction n)
  case (Suc n)
  show ?case
    unfolding add_Suc deleteRouteFromHcloud.simps Let_def
    by (intro agrees_bind agrees_cases Suc.IH agrees_refl)
qed (simp add: agrees_unfinished)

lemma agreesD: "agrees fin m m' \<Longrightarrow> run_state m s = (a, s') \<Longrightarrow> fin a \<Longrightarrow> run_state m' s = (a, s')"
  by (auto simp: agrees_def)

section \<open>Runs that use up their fuel\<close>

lemma valid_bind_skip:
  assumes "all_calls P m" and "\<And>cs ds b. Q ds b \<Longrightarrow> Q (cs @ ds) b" and "\<And>a. valid (f a) Q"
  shows "valid (State_Monad.bind m f) Q"
  by (rule valid_bind, rule valid_mono [OF assms(1) [unfolded all_calls_def]], rule valid_mono [OF assms(3)], rule assms(2))

lemma valid_cases:
  "(\<And>a. valid (f a) Q) \<Longrightarrow> (\<And>b. valid (g b) Q) \<Longrightarrow> valid (case v of Inl a \<Rightarrow> f a | Inr b \<Rightarrow> g b) Q"
  "valid m1 Q \<Longrightarrow> (\<And>x. valid (h x) Q) \<Longrightarrow> valid (case u of None \<Rightarrow> m1 | Some x \<Rightarrow> h x) Q"
  "(\<And>x y. valid (k x y) Q) \<Longrightarrow> valid (case w of (x, y) \<Rightarrow> k x y) Q"
  "valid m1 Q \<Longrightarrow> valid m2 Q \<Longrightarrow> valid (case b of True \<Rightarrow> m1 | False \<Rightarrow> m2) Q"
  by (simp_all split: sum.split option.split prod.split bool.split)

definition used_up :: "'w api \<Rightarrow> nat \<Rightarrow> api_call list \<Rightarrow> 'a option \<times> routes \<Rightarrow> bool" where
  "used_up A n cs r \<longleftrightarrow> (fst r = None \<longrightarrow> n \<le> locked_answers A (adds cs))"

lemma used_up_append: "used_up A n ds r \<Longrightarrow> used_up A n (cs @ ds) r"
  by (auto simp: used_up_def)

lemma used_up_result: "used_up A n cs (Some x, rt)"
  by (simp add: used_up_def)

lemma used_up_locked: "locked A e \<Longrightarrow> used_up A n ds r \<Longrightarrow> used_up A (Suc n) (NetworkAddRoute i q (Inl e) # Sleep t # ds) r"
  by (auto simp: used_up_def)

lemma prepare_calls:
  "all_calls (\<lambda>c. True) (target_address A route rt)" "all_calls (\<lambda>c. True) (checkIfRouteAlreadyExists A route rt)"
  unfolding target_address_def checkIfRouteAlreadyExists_def reloadNetwork_def ByName_def Let_def request_defs
  by (intro calls_rules all_calls_mono [OF getCache_calls] TrueI)+

lemma create_exhausts: "valid (CreateRoute A n route rt) (used_up A n)"
proof (induction n arbitrary: rt)
  case 0
  show ?case by (simp add: valid_return used_up_def)
next
  case (Suc n)
  have add: "valid (do {
      a \<leftarrow> network_add_route A i q;
      case a of
        Inl e \<Rightarrow> if locked A e then do { _ \<leftarrow> sleep t; CreateRoute A n route rt' } else ret (Some (f e), rt')
      | Inr a \<Rightarrow> do { err \<leftarrow> WatchAction A a; ret (Some (g err), rt') }
    }) (used_up A (Suc n))" for i q t f g rt'
    unfolding request_defs
    by (auto intro!: valid_rules used_up_result valid_mono [OF Suc.IH] used_up_locked split: sum.split)
  show ?case
    unfolding CreateRoute.simps Let_def
    by (intro valid_bind_skip [OF prepare_calls(1)] valid_bind_skip [OF prepare_calls(2)] valid_cases add used_up_append
        valid_return used_up_result; assumption)
qed

lemma delete_exhausts: "valid (deleteRouteFromHcloud A n cidr x rt) (\<lambda>cs r. r = None \<longrightarrow> n \<le> locked_answers A (removes cs))"
proof (induction n)
  case 0
  show ?case by (simp add: valid_return)
next
  case (Suc n)
  have again: "valid (deleteRouteFromHcloud A n cidr x rt) (\<lambda>ds b. b = None \<longrightarrow> Suc n \<le> locked_answers A (removes ([NetworkDeleteRoute i q (Inl e)] @ [Sleep t] @ ds)))"
    if "locked A e" for i q e t
    using that by (intro valid_mono [OF Suc.IH]) simp
  show ?case
    unfolding deleteRouteFromHcloud.simps Let_def request_defs
    using again by (auto intro!: valid_rules split: sum.split)
qed

text \<open>C34: The retry of \<open>CreateRoute\<close> ends with the lock: a run that sees fewer than \<open>n\<close> refusals because the network
  is locked or in conflict returns a result within fuel \<open>n\<close>, and every larger fuel gives the same result, state
  and log.\<close>

theorem create_route_returns:
  assumes "run_state (CreateRoute A n route rt) s = ((r, rt'), s')" and "trace s' = trace s @ cs"
    and "locked_answers A (adds cs) < n"
  shows "\<exists>x. r = Some x \<and> (\<forall>k. run_state (CreateRoute A (n + k) route rt) s = ((Some x, rt'), s'))"
proof -
  obtain cs' where "trace s' = trace s @ cs'" "r = None \<longrightarrow> n \<le> locked_answers A (adds cs')"
    using validD [OF create_exhausts assms(1)] by (auto simp: used_up_def)
  then obtain x where x: "r = Some x" using assms(2,3) by (cases r) auto
  with agreesD [OF create_agrees assms(1)] show ?thesis by simp
qed

text \<open>The retry of \<open>DeleteRoute\<close> ends with the lock in the same way.\<close>

theorem delete_route_returns:
  assumes "run_state (DeleteRoute A n route rt) s = (r, s')" and "trace s' = trace s @ cs"
    and "locked_answers A (removes cs) < n"
  shows "\<exists>x. r = Some x \<and> (\<forall>k. run_state (DeleteRoute A (n + k) route rt) s = (Some x, s'))"
proof -
  have used: "valid (DeleteRoute A n route rt) (\<lambda>cs r. r = None \<longrightarrow> n \<le> locked_answers A (removes cs))"
    unfolding DeleteRoute_def Let_def
    by (simp add: valid_return split: option.split)
      (intro allI impI valid_bind valid_mono [OF delete_exhausts] valid_return, simp)
  obtain cs' where "trace s' = trace s @ cs'" "r = None \<longrightarrow> n \<le> locked_answers A (removes cs')"
    using validD [OF used assms(1)] by blast
  then obtain x where x: "r = Some x" using assms(2,3) by (cases r) auto
  have "agrees (\<lambda>r. r \<noteq> None) (DeleteRoute A n route rt) (DeleteRoute A (n + k) route rt)" for k
    unfolding DeleteRoute_def Let_def
    by (auto intro!: agrees_refl agrees_bind_map delete_agrees simp del: not_None_eq split: option.split)
  from agreesD [OF this assms(1)] x show ?thesis by simp
qed

text \<open>An API that is locked for the first requests: its state counts the refusals left.\<close>

definition locked_api :: "nat api" where
  "locked_api = still_api\<lparr>
     a_network_get := \<lambda>i w. (Inr (Some (sample_network [])), w),
     a_network_add_route := \<lambda>i r w. (if 0 < w then Inl (Ext ''locked'' '''') else Inr 7, w - 1),
     a_network_delete_route := \<lambda>i r w. (if 0 < w then Inl (Ext ''locked'' '''') else Inr 7, w - 1),
     a_servers_all := \<lambda>w. (Inr [sample_server], w),
     a_is_error := \<lambda>e c. e = Ext ''locked'' '''' \<and> c = ErrorCodeLocked\<rparr>"

definition start_world :: "'w \<Rightarrow> (api_call, go_globals, 'w) world" where
  "start_world w = \<lparr>trace = [], globals = sample_globals, ext = w\<rparr>"

theorem create_route_returns_witness:
  "\<exists>rt' s'. \<forall>k. run_state (CreateRoute locked_api (2 + k) sample_route (sample_routes [])) (start_world 1) = ((Some None, rt'), s')"
proof -
  let ?run = "run_state (CreateRoute locked_api 2 sample_route (sample_routes [])) (start_world 1)"
  let ?cs = "trace (snd ?run)"
  have o: "fst (fst ?run) = Some None" and l: "locked_answers locked_api (adds ?cs) < 2" by code_simp+
  obtain rt' s' where r: "?run = ((Some None, rt'), s')" using o by (metis prod.collapse)
  have t: "trace s' = trace (start_world 1) @ ?cs" using r by (simp add: start_world_def)
  from create_route_returns [OF r t l] show ?thesis by auto
qed

theorem delete_route_returns_witness:
  "\<exists>s'. \<forall>k. run_state (DeleteRoute locked_api (2 + k) sample_route (sample_routes [pod_route [10, 0, 0, 2]])) (start_world 1) = (Some None, s')"
proof -
  let ?run = "run_state (DeleteRoute locked_api 2 sample_route (sample_routes [pod_route [10, 0, 0, 2]])) (start_world 1)"
  let ?cs = "trace (snd ?run)"
  have o: "fst ?run = Some None" and l: "locked_answers locked_api (removes ?cs) < 2" by code_simp+
  obtain s' where r: "?run = (Some None, s')" using o by (metis prod.collapse)
  have t: "trace s' = trace (start_world 1) @ ?cs" using r by (simp add: start_world_def)
  from delete_route_returns [OF r t l] show ?thesis by auto
qed

end
