(* ===== verification/RoutesHistory.thy ===== *)
theory RoutesHistory
  imports RoutesFuel
begin

text \<open>
  Listing and deleting routes, how often the handlers repeat a request, and the life of the receiver: what
  holds after any sequence of its operations.
\<close>

section \<open>ListRoutes\<close>

text \<open>The entry of a route in the list: its target is a server with the address, and it is a blackhole when
  the servers that were loaded have none.\<close>

definition no_server_at :: "int option \<Rightarrow> string \<Rightarrow> api_call list \<Rightarrow> bool" where
  "no_server_at nw x cs \<longleftrightarrow> (\<exists>srvs. ServersAll (Inr srvs) \<in> set cs \<and> server_at nw x srvs = None) \<or>
     (\<exists>e. ServersAll (Inl e) \<in> set cs \<and> errors_is e ErrNotFound)"

definition listed_as :: "int option \<Rightarrow> api_call list \<Rightarrow> network_route \<Rightarrow> k8s_route \<Rightarrow> bool" where
  "listed_as nw cs q ro \<longleftrightarrow> ro_destination ro = destination_text q \<and> ro_name ro = ip_text (nr_gateway q) @ ''-'' @ destination_text q \<and>
     (if ro_blackhole ro then ro_target ro = '''' \<and> no_server_at nw (ip_text (nr_gateway q)) cs
      else \<exists>srv. ro_target ro = cs_name srv \<and> ip_text (nr_gateway q) \<in> set (indexed_ips nw srv))"

lemma listed_as_append: "listed_as nw cs q ro \<Longrightarrow> listed_as nw (cs @ ds) q ro"
  by (auto simp: listed_as_def no_server_at_def split: if_splits)

lemma listed_as_suffix: "listed_as nw ds q ro \<Longrightarrow> listed_as nw (cs @ ds) q ro"
  by (auto simp: listed_as_def no_server_at_def split: if_splits)

lemma listed_prefix: "list_all2 (listed_as nw cs) qs ros \<Longrightarrow> list_all2 (listed_as nw (cs @ ds)) qs ros"
  by (erule list_all2_mono) (rule listed_as_append)

lemma server_at_indexed: "server_at nw x srvs = Some s \<Longrightarrow> x \<in> set (indexed_ips nw s)"
  by (auto simp: server_at_def find_Some_iff)

lemma lookup_at:
  assumes "lookup_spec (server_at nw x) c srvs cs r"
  shows "fst r = Inr s \<Longrightarrow> x \<in> set (indexed_ips nw s)"
    and "fst r = Inl e \<Longrightarrow> errors_is e ErrNotFound \<Longrightarrow> no_server_at nw x cs"
  using assms server_at_indexed unfolding lookup_spec_def lookup_loads_def no_server_at_def
  by (auto split: option.splits)

definition same_network :: "routes \<Rightarrow> routes \<Rightarrow> bool" where
  "same_network rt rt' \<longleftrightarrow> rt_network rt' = rt_network rt \<and> sc_network (rt_cache rt') = sc_network (rt_cache rt)"

lemma getCache_cache_calls: "all_calls cache_call (ByPrivateIP A x c)"
  unfolding ByPrivateIP_def by (intro calls_rules getCache_calls)

lemma valid_route_entry:
  assumes "routes_ok rt"
  shows "valid (hcloudRouteToRoute A q rt) (\<lambda>cs r. (\<forall>c \<in> set cs. cache_call c) \<and> routes_ok (snd r) \<and> same_network rt (snd r) \<and>
    (\<forall>ro. fst r = Inr ro \<longrightarrow> listed_as (sc_network (rt_cache rt)) cs q ro))"
proof -
  from assms obtain srvs where rep: "represents (rt_cache rt) srvs" by (auto simp: routes_ok_def)
  show ?thesis
    unfolding hcloudRouteToRoute_def Let_def
  proof (rule valid_bind, rule valid_mono [OF valid_conj [OF valid_ByPrivateIP [OF rep] getCache_cache_calls [unfolded all_calls_def]]], goal_cases)
    case (1 cs r)
    obtain s c where r: "r = (s, c)" by (cases r)
    have "routes_ok (rt\<lparr>rt_cache := c\<rparr>)" using lookup_represents [OF _ rep] 1 r by (auto simp: routes_ok_def)
    moreover have "same_network rt (rt\<lparr>rt_cache := c\<rparr>)" using 1 r by (simp add: same_network_def)
    moreover have "lookup_spec (server_at (sc_network (rt_cache rt)) (ip_text (nr_gateway q))) (rt_cache rt) srvs cs (s, c)" using 1 r by simp
    note at = lookup_at [OF this, simplified]
    ultimately show ?case
      using 1 at(2) exI [where P = "\<lambda>srv. cs_name b = cs_name srv \<and> ip_text (nr_gateway q) \<in> set (indexed_ips (sc_network (rt_cache rt)) srv)" and x = b for b] at(1)
      unfolding r by (cases s) (simp_all add: listed_as_def valid_return)
  qed
qed

text \<open>The state of the loop: the entries so far, and a receiver with the network unchanged.\<close>

definition listing :: "routes \<Rightarrow> network_route list \<Rightarrow> api_call list \<Rightarrow> k8s_route list \<times> routes \<Rightarrow> bool" where
  "listing rt qs cs st \<longleftrightarrow> (\<forall>c \<in> set cs. cache_call c) \<and> routes_ok (snd st) \<and> same_network rt (snd st) \<and>
     list_all2 (listed_as (sc_network (rt_cache rt)) cs) qs (fst st)"

definition listing_failed :: "routes \<Rightarrow> api_call list \<Rightarrow> k8s_route list \<times> goerr \<times> routes \<Rightarrow> bool" where
  "listing_failed rt cs st \<longleftrightarrow> (\<forall>c \<in> set cs. cache_call c) \<and> routes_ok (snd (snd st)) \<and> same_network rt (snd (snd st))"

lemma listing_snoc:
  assumes "listing rt qs cs st" and "\<forall>c \<in> set ds. cache_call c" and "routes_ok rt'" and "same_network (snd st) rt'"
    and "listed_as (sc_network (rt_cache rt)) ds q ro"
  shows "listing rt (qs @ [q]) (cs @ ds) (fst st @ [ro], rt')"
  using assms listed_prefix listed_as_suffix
  by (auto simp: listing_def same_network_def intro!: list_all2_appendI)

lemma valid_listing:
  assumes "routes_ok rt"
  shows "valid (range_loop (list_body A) qs ([], rt)) (\<lambda>cs r. case r of Inl e \<Rightarrow> listing_failed rt cs e | Inr st \<Rightarrow> listing rt qs cs st)"
proof (rule valid_range_loop, goal_cases)
  case 1
  show ?case using assms by (simp add: listing_def same_network_def)
next
  case (2 q st cs seen rest)
  obtain ros rt1 where st: "st = (ros, rt1)" by (cases st)
  have ok: "routes_ok rt1" "same_network rt rt1" "sc_network (rt_cache rt1) = sc_network (rt_cache rt)"
    using 2(2) st by (simp_all add: listing_def same_network_def)
  show ?case
    unfolding list_body_def st snd_conv fst_conv
  proof (rule valid_bind, rule valid_mono [OF valid_route_entry [OF ok(1)]], goal_cases)
    case (1 ds r)
    obtain ro rt2 where r: "r = (ro, rt2)" by (cases r)
    show ?case
    proof (cases ro)
      case (Inl e)
      then show ?thesis
        using 1 2(2) ok unfolding r st
        by (auto intro!: valid_return simp: listing_def listing_failed_def same_network_def)
    next
      case (Inr x)
      then show ?thesis
        using listing_snoc [OF 2(2), of ds rt2 q x] 1 ok unfolding r st
        by (auto intro!: valid_return)
    qed
  qed
qed

definition list_done :: "routes \<Rightarrow> api_call list \<Rightarrow> (k8s_route list \<times> goerr option) \<times> routes \<Rightarrow> bool" where
  "list_done rt cs r \<longleftrightarrow> adds cs = [] \<and> removes cs = [] \<and>
     sc_network (rt_cache (snd r)) = sc_network (rt_cache rt) \<and> routes_ok (snd r) \<and>
     (networks_truthful cs \<longrightarrow> nw_id (rt_network (snd r)) = nw_id (rt_network rt)) \<and>
     (snd (fst r) = None \<longrightarrow> fetched (nw_id (rt_network rt)) cs (rt_network (snd r)) \<and>
        list_all2 (listed_as (sc_network (rt_cache rt)) cs) (nw_routes (rt_network (snd r))) (fst (fst r)))"

lemma list_doneI:
  assumes "listing rt1 (nw_routes (rt_network rt1)) ds (ros, rt')"
    and "adds cs = []" "removes cs = []" "rt_cache rt1 = rt_cache rt"
    and "networks_truthful cs \<longrightarrow> nw_id (rt_network rt1) = nw_id (rt_network rt)" and "fetched (nw_id (rt_network rt)) cs (rt_network rt1)"
  shows "list_done rt (cs @ ds) ((ros, None), rt')"
  using assms cache_calls_log [of ds] list_all2_mono [OF _ listed_as_suffix]
  by (auto simp: list_done_def listing_def same_network_def)

lemma valid_ListRoutes:
  assumes "routes_ok rt"
  shows "valid (ListRoutes A rt) (list_done rt)"
  unfolding ListRoutes_def
proof (rule valid_bind, rule valid_mono [OF valid_reloadNetwork], goal_cases)
  case (1 cs r)
  obtain err rt1 where r: "r = (err, rt1)" by (cases r)
  have ok: "routes_ok rt1" using 1 assms r by (simp add: routes_ok_def)
  show ?case
  proof (cases err)
    case (Some e)
    with 1 ok show ?thesis unfolding r by (auto intro!: valid_return simp: list_done_def)
  next
    case None
    show ?thesis
      unfolding r None prod.case option.case
    proof (rule valid_bind, rule valid_mono [OF valid_listing [OF ok]], rule valid_return, goal_cases)
      case (1 ds l)
      then show ?case
        using \<open>adds cs = [] \<and> _\<close> list_doneI [of rt1 ds _ _ cs rt] cache_calls_log [of ds] unfolding r None
        by (auto simp: listing_failed_def list_done_def same_network_def split: sum.splits)
    qed
  qed
qed

text \<open>A list of routes without an error has one entry for every route of the reloaded network, in its order:
  the entry has the route's destination and a name made of gateway and destination, and names as its
  target a server with the gateway as a private address in the cache's network; it is a blackhole, without
  a target, only when a list of all servers loaded on the way has no such server.\<close>

theorem list_routes_entries:
  assumes "routes_ok rt" and "runs (ListRoutes A rt) cs ((ros, None), rt')"
  shows "fetched (nw_id (rt_network rt)) cs (rt_network rt') \<and>
    list_all2 (listed_as (sc_network (rt_cache rt)) cs) (nw_routes (rt_network rt')) ros"
  using valid_runs [OF valid_ListRoutes [OF assms(1)] assms(2)] by (simp add: list_done_def)

section \<open>DeleteRoute\<close>

definition deleted_as :: "k8s_route \<Rightarrow> routes \<Rightarrow> network_route \<Rightarrow> bool" where
  "deleted_as route rt q \<longleftrightarrow> ParseCIDR (ro_destination route) = Some (nr_destination q) \<and> nr_gateway q = route_gateway route rt"

definition deletes_done :: "k8s_route \<Rightarrow> routes \<Rightarrow> api_call list \<Rightarrow> goerr option option \<Rightarrow> bool" where
  "deletes_done route rt cs r \<longleftrightarrow> adds cs = [] \<and>
     (\<forall>x \<in> set (removes cs). fst x = nw_id (rt_network rt) \<and> deleted_as route rt (fst (snd x))) \<and>
     (r = Some None \<longrightarrow> (\<exists>j q a. (j, q, Inr a) \<in> set (removes cs) \<and> Watch a None \<in> set cs))"

lemma deletes_done_more:
  "deletes_done route rt cs r \<Longrightarrow> deleted_as route rt q \<Longrightarrow> deletes_done route rt (NetworkDeleteRoute (nw_id (rt_network rt)) q a # Sleep t # cs) r"
  by (simp add: deletes_done_def) blast

lemma valid_delete_loop:
  assumes "deleted_as route rt \<lparr>nr_destination = cidr, nr_gateway = x\<rparr>"
  shows "valid (deleteRouteFromHcloud A n cidr x rt) (deletes_done route rt)"
proof (induction n)
  case (Suc n)
  show ?case
    unfolding deleteRouteFromHcloud.simps Let_def request_defs
    using assms
    by (auto intro!: valid_rules valid_mono [OF Suc.IH] deletes_done_more split: sum.split) (simp_all add: deletes_done_def)
qed (simp add: valid_return deletes_done_def)

lemma valid_DeleteRoute: "valid (DeleteRoute A n route rt) (deletes_done route rt)"
proof (cases "IsUnspecified (route_gateway route rt) \<or> ParseCIDR (ro_destination route) = None")
  case True
  then show ?thesis
    unfolding DeleteRoute_def Let_def by (auto intro!: valid_return simp: deletes_done_def split: option.split)
next
  case False
  then obtain cidr where c: "\<not> IsUnspecified (route_gateway route rt)" "ParseCIDR (ro_destination route) = Some cidr" by auto
  have "deleted_as route rt \<lparr>nr_destination = cidr, nr_gateway = route_gateway route rt\<rparr>" using c by (simp add: deleted_as_def)
  note loop = valid_delete_loop [OF this]
  have "valid (do {
      r \<leftarrow> deleteRouteFromHcloud A n cidr (route_gateway route rt) rt;
      ret (map_option (map_option (wrap ''hcloud/DeleteRoute'')) r)
    }) (deletes_done route rt)"
    by (rule valid_bind, rule valid_mono [OF loop], rule valid_return) (simp add: deletes_done_def)
  then show ?thesis using c by (simp add: DeleteRoute_def)
qed

text \<open>\<open>DeleteRoute\<close> adds nothing, and every route it asks to delete is in the network of the receiver, has the
  parsed destination and the gateway of the first cached route to the destination, or none when there
  is no such route. It reports success only when such a request was accepted and its action watched to
  the end.\<close>

theorem delete_route_requests:
  assumes "runs (DeleteRoute A n route rt) cs r"
  shows "adds cs = [] \<and> (\<forall>(j, q, a) \<in> set (removes cs). j = nw_id (rt_network rt) \<and> deleted_as route rt q) \<and>
    (r = Some None \<longrightarrow> (\<exists>j q a. (j, q, Inr a) \<in> set (removes cs) \<and> Watch a None \<in> set cs))"
  using valid_runs [OF valid_DeleteRoute assms] by (auto simp: deletes_done_def)

lemma delete_first_request:
  "valid (deleteRouteFromHcloud A (Suc n) cidr x rt)
     (\<lambda>cs r. \<exists>a rest. removes cs = (nw_id (rt_network rt), \<lparr>nr_destination = cidr, nr_gateway = x\<rparr>, a) # rest)"
  unfolding deleteRouteFromHcloud.simps Let_def request_defs
proof (rule valid_bind, rule valid_request, rule valid_any, goal_cases)
  case (1 a)
  have "all_calls (\<lambda>c. True) (deleteRouteFromHcloud A n cidr x rt)"
    unfolding all_calls_def by (rule valid_mono [OF delete_exhausts]) simp
  then show ?case by (intro calls_rules) simp_all
qed simp

text \<open>C36: The guard against an unknown route never stops \<open>DeleteRoute\<close>: \<open>IsUnspecified\<close> is false for the missing
  address, so a route to a destination that the network does not have is requested to be deleted all
  the same, with no gateway.\<close>

theorem delete_unknown_route_requested:
  assumes "route_to route (rt_network rt) = None" and "ParseCIDR (ro_destination route) = Some cidr"
    and "runs (DeleteRoute A (Suc n) route rt) cs r"
  shows "\<exists>a rest. removes cs = (nw_id (rt_network rt), \<lparr>nr_destination = cidr, nr_gateway = []\<rparr>, a) # rest"
proof -
  have gw: "route_gateway route rt = []" using assms(1) by (simp add: route_gateway_def)
  have "valid (do {
      r \<leftarrow> deleteRouteFromHcloud A (Suc n) cidr [] rt;
      ret (map_option (map_option (wrap ''hcloud/DeleteRoute'')) r)
    }) (\<lambda>cs r. \<exists>a rest. removes cs = (nw_id (rt_network rt), \<lparr>nr_destination = cidr, nr_gateway = []\<rparr>, a) # rest)"
    by (rule valid_bind, rule valid_mono [OF delete_first_request], rule valid_return) simp
  then have "valid (DeleteRoute A (Suc n) route rt) (\<lambda>cs r. \<exists>a rest. removes cs = (nw_id (rt_network rt), \<lparr>nr_destination = cidr, nr_gateway = []\<rparr>, a) # rest)"
    using nil_not_unspecified assms(2) by (simp add: DeleteRoute_def gw)
  from valid_runs [OF this assms(3)] show ?thesis .
qed

text \<open>A listed route is deleted as it was listed: when the network's destinations are distinct and the destination
  is parsed back as it was printed, deleting the entry \<open>i\<close> of the list on the receiver that listed it asks
  for the deletion of exactly the network's route \<open>i\<close>.\<close>

theorem listed_route_deleted:
  assumes "routes_ok rt" and "runs (ListRoutes A rt) cs ((ros, None), rt')" and "i < length ros"
    and "distinct (map destination_text (nw_routes (rt_network rt')))"
    and "ParseCIDR (destination_text (nw_routes (rt_network rt') ! i)) = Some (nr_destination (nw_routes (rt_network rt') ! i))"
    and "runs (DeleteRoute A n (ros ! i) rt') ds r"
  shows "\<forall>(j, q, a) \<in> set (removes ds). j = nw_id (rt_network rt') \<and> q = nw_routes (rt_network rt') ! i"
proof -
  let ?qs = "nw_routes (rt_network rt')"
  have l: "list_all2 (listed_as (sc_network (rt_cache rt)) cs) ?qs ros"
    using valid_runs [OF valid_ListRoutes [OF assms(1)] assms(2)] by (simp add: list_done_def)
  then have i: "i < length ?qs" and dest: "ro_destination (ros ! i) = destination_text (?qs ! i)"
    using assms(3) list_all2_nthD2 [OF l, of i] by (simp_all add: list_all2_lengthD listed_as_def)
  have "route_to (ros ! i) (rt_network rt') = Some (?qs ! i)"
    using i assms(4) unfolding route_to_def dest find_Some_iff
    by (intro exI [of _ i]) (auto simp: distinct_conv_nth)
  then have "deleted_as (ros ! i) rt' q \<Longrightarrow> q = ?qs ! i" for q
    using assms(5) by (cases q) (auto simp: deleted_as_def dest route_gateway_def)
  with valid_runs [OF valid_DeleteRoute assms(6)] show ?thesis by (auto simp: deletes_done_def)
qed

section \<open>The life of the receiver\<close>

inductive route_life :: "'w api \<Rightarrow> int \<Rightarrow> api_call list \<Rightarrow> routes \<Rightarrow> bool" for A :: "'w api" and i :: int where
  life_new: "runs (newRoutes A i) cs (Inr rt) \<Longrightarrow> route_life A i cs rt"
| life_list: "route_life A i cs rt \<Longrightarrow> runs (ListRoutes A rt) ds (r, rt') \<Longrightarrow> route_life A i (cs @ ds) rt'"
| life_create: "route_life A i cs rt \<Longrightarrow> runs (CreateRoute A n route rt) ds (e, rt') \<Longrightarrow> route_life A i (cs @ ds) rt'"
| life_delete: "route_life A i cs rt \<Longrightarrow> runs (DeleteRoute A n route rt) ds e \<Longrightarrow> route_life A i (cs @ ds) rt"

lemma valid_newRoutes:
  "valid (newRoutes A i) (\<lambda>cs r. adds cs = [] \<and> removes cs = [] \<and>
     (\<forall>rt. r = Inr rt \<longrightarrow> routes_ok rt \<and> (networks_truthful cs \<longrightarrow> nw_id (rt_network rt) = i) \<and>
        sc_network (rt_cache rt) = Some (nw_id (rt_network rt))))"
  unfolding newRoutes_def request_defs
proof (rule valid_bind, rule valid_request, rule valid_return, goal_cases)
  case (1 a)
  have "routes_ok \<lparr>rt_network = nw, rt_cache = empty_cache (Some (nw_id nw))\<rparr>" for nw
    using empty_cache_represents by (auto simp: routes_ok_def)
  then show ?case by (auto simp: empty_cache_def split: sum.splits option.splits)
qed

lemma frame_cache: "valid (getCache A get c) (\<lambda>cs r. sc_network (snd r) = sc_network c)"
  by (rule valid_mono [OF valid_getCache])
    (auto simp: cached_run_def loaded_run_def failed_run_def index_all_represents(3))

lemma frame_ByName: "valid (ByName A n c) (\<lambda>cs r. sc_network (snd r) = sc_network c)"
  unfolding ByName_def by (rule valid_bind, rule valid_mono [OF frame_cache]) (simp add: valid_return)

lemma frame_prepare:
  "valid (target_address A route rt) (\<lambda>cs r. sc_network (rt_cache (snd r)) = sc_network (rt_cache rt))"
  "valid (checkIfRouteAlreadyExists A route rt) (\<lambda>cs r. sc_network (rt_cache (snd r)) = sc_network (rt_cache rt))"
  unfolding target_address_def checkIfRouteAlreadyExists_def Let_def request_defs
  by (auto intro!: valid_rules valid_mono [OF frame_ByName] valid_mono [OF valid_reloadNetwork]
      simp: InvalidateCache_def split: sum.split option.split)

lemma frame_CreateRoute: "valid (CreateRoute A n route rt) (\<lambda>cs r. sc_network (rt_cache (snd r)) = sc_network (rt_cache rt))"
proof (induction n arbitrary: rt)
  case (Suc n)
  show ?case
    unfolding CreateRoute.simps Let_def request_defs
    by (auto intro!: valid_rules valid_mono [OF frame_prepare(1)] valid_mono [OF frame_prepare(2)] valid_mono [OF Suc.IH]
        split: sum.split option.split bool.split)
qed (simp add: valid_return)

text \<open>What holds of the receiver after every sequence of operations.\<close>

definition life_ok :: "int \<Rightarrow> api_call list \<Rightarrow> routes \<Rightarrow> bool" where
  "life_ok i cs rt \<longleftrightarrow> routes_ok rt \<and> nw_id (rt_network rt) = i \<and> sc_network (rt_cache rt) = Some i \<and>
     (\<forall>x \<in> set (adds cs) \<union> set (removes cs). fst x = i)"

lemma life_ok_step:
  assumes "life_ok i cs rt" and "routes_ok rt'" and "nw_id (rt_network rt') = i" and "sc_network (rt_cache rt') = Some i"
    and "\<forall>x \<in> set (adds ds) \<union> set (removes ds). fst x = i"
  shows "life_ok i (cs @ ds) rt'"
  using assms by (simp add: life_ok_def) blast

text \<open>C33: After any sequence of list, create and delete operations on a new receiver, with truthful answers for
  networks: the server cache represents some list of servers and is one of the receiver's network, the
  network keeps the configured ID, and no route was added to or deleted from any other network.\<close>

theorem routes_stay_in_network:
  assumes "route_life A i cs rt" and "networks_truthful cs"
  shows "routes_ok rt \<and> nw_id (rt_network rt) = i \<and> sc_network (rt_cache rt) = Some i \<and>
    (\<forall>x \<in> set (adds cs) \<union> set (removes cs). fst x = i)"
proof -
  have "life_ok i cs rt"
    using assms
  proof (induction rule: route_life.induct)
    case (life_new cs rt)
    then show ?case using valid_runs [OF valid_newRoutes life_new(1)] by (simp add: life_ok_def)
  next
    case (life_list cs rt ds r rt')
    then have ok: "life_ok i cs rt" "networks_truthful ds" by simp_all
    then have "list_done rt ds (r, rt')" using valid_runs [OF valid_ListRoutes life_list(2)] by (simp add: life_ok_def)
    with ok show ?case by (intro life_ok_step [OF ok(1)]) (simp_all add: list_done_def life_ok_def)
  next
    case (life_create cs rt n route ds e rt')
    then have ok: "life_ok i cs rt" "networks_truthful ds" by simp_all
    then obtain srvs where "represents (rt_cache rt) srvs" by (auto simp: life_ok_def routes_ok_def)
    with ok have "created i route srvs ds (e, rt')" using valid_runs [OF valid_CreateRoute life_create(2)] by (simp add: life_ok_def)
    note created_facts [OF this ok(2)]
    with ok valid_runs [OF frame_CreateRoute life_create(2)] show ?case
      by (intro life_ok_step [OF ok(1)]) (auto simp: life_ok_def)
  next
    case (life_delete cs rt n route ds e)
    then have ok: "life_ok i cs rt" by simp
    with valid_runs [OF valid_DeleteRoute life_delete(2)] show ?case
      by (intro life_ok_step [OF ok]) (auto simp: deletes_done_def life_ok_def)
  qed
  then show ?thesis by (simp add: life_ok_def)
qed

section \<open>The theorems at a concrete receiver\<close>

definition two_routes :: "network_route list" where
  "two_routes = [pod_route [10, 0, 0, 2], \<lparr>nr_destination = \<lparr>ipn_ip = [10, 1, 1, 0], ipn_ones = 24, ipn_bits = 32\<rparr>, nr_gateway = [10, 0, 0, 9]\<rparr>]"

definition list_run :: "((k8s_route list \<times> goerr option) \<times> routes) \<times> api_call list" where
  "list_run = outcome (ListRoutes (routes_api two_routes) (sample_routes [])) sample_globals ()"

definition two_entries :: "k8s_route list" where
  "two_entries = [\<lparr>ro_name = ''10.0.0.2-10.1.0.0/24'', ro_target = ''node-1'', ro_destination = ''10.1.0.0/24'', ro_blackhole = False\<rparr>,
     \<lparr>ro_name = ''10.0.0.9-10.1.1.0/24'', ro_target = '''', ro_destination = ''10.1.1.0/24'', ro_blackhole = True\<rparr>]"

lemma list_run_value:
  "fst list_run = ((two_entries, None), snd (fst list_run))" "rt_network (snd (fst list_run)) = sample_network two_routes"
proof -
  have "fst (fst list_run) = (two_entries, None)" by code_simp
  then show "fst list_run = ((two_entries, None), snd (fst list_run))" by (metis prod.collapse)
  show "rt_network (snd (fst list_run)) = sample_network two_routes" by code_simp
qed

lemma list_run_runs: "runs (ListRoutes (routes_api two_routes) (sample_routes [])) (snd list_run) ((two_entries, None), snd (fst list_run))"
  using runs_outcome [of "ListRoutes (routes_api two_routes) (sample_routes [])" sample_globals "()"] list_run_value(1)
  unfolding list_run_def by simp

theorem list_routes_entries_witness:
  "list_all2 (listed_as (Some 4) (snd list_run)) two_routes two_entries"
  using list_routes_entries [OF sample_routes_ok list_run_runs]
  by (simp add: list_run_value(2) sample_network_def sample_routes_def empty_cache_def)

definition delete_run :: "nat \<Rightarrow> goerr option option \<times> api_call list" where
  "delete_run k = outcome (DeleteRoute (routes_api two_routes) 1 (two_entries ! k) (snd (fst list_run))) sample_globals ()"

theorem delete_route_requests_witness:
  "\<exists>cs. runs (DeleteRoute quiet_api 1 sample_route (sample_routes [pod_route [10, 0, 0, 2]])) cs (Some None) \<and>
     (\<exists>j q a. (j, q, Inr a) \<in> set (removes cs) \<and> Watch a None \<in> set cs)"
proof -
  let ?m = "DeleteRoute quiet_api 1 sample_route (sample_routes [pod_route [10, 0, 0, 2]])"
  have "fst (outcome ?m sample_globals ()) = Some None" by code_simp
  from runs_outcome [OF this] delete_route_requests [OF runs_outcome [OF this]] show ?thesis by blast
qed

theorem delete_unknown_route_requested_witness:
  "\<exists>cs r a rest. runs (DeleteRoute quiet_api (Suc 0) sample_route (sample_routes [])) cs r \<and>
     removes cs = (4, \<lparr>nr_destination = \<lparr>ipn_ip = [10, 1, 0, 0], ipn_ones = 24, ipn_bits = 32\<rparr>, nr_gateway = []\<rparr>, a) # rest"
proof -
  have h: "route_to sample_route (rt_network (sample_routes [])) = None"
    "ParseCIDR (ro_destination sample_route) = Some \<lparr>ipn_ip = [10, 1, 0, 0], ipn_ones = 24, ipn_bits = 32\<rparr>"
    "nw_id (rt_network (sample_routes [])) = 4"
    by code_simp+
  let ?m = "DeleteRoute quiet_api (Suc 0) sample_route (sample_routes [])"
  have r: "runs ?m (snd (outcome ?m sample_globals ())) (fst (outcome ?m sample_globals ()))" by (rule runs_outcome) (rule refl)
  from r delete_unknown_route_requested [OF h(1,2) r] show ?thesis
    unfolding h(3) by blast
qed

theorem listed_route_deleted_witness:
  "\<exists>a. removes (snd (delete_run 1)) = [(4, two_routes ! 1, a)]"
proof -
  let ?rt = "snd (fst list_run)"
  have n: "nw_routes (rt_network ?rt) = two_routes" "nw_id (rt_network ?rt) = 4"
    by (simp_all add: list_run_value(2) sample_network_def)
  have d: "distinct (map destination_text two_routes)"
    "ParseCIDR (destination_text (two_routes ! 1)) = Some (nr_destination (two_routes ! 1))" "1 < length two_entries"
    "length (removes (snd (delete_run 1))) = 1"
    by code_simp+
  have r: "runs (DeleteRoute (routes_api two_routes) 1 (two_entries ! 1) ?rt) (snd (delete_run 1)) (fst (delete_run 1))"
    unfolding delete_run_def by (rule runs_outcome) (rule refl)
  from listed_route_deleted [OF sample_routes_ok list_run_runs d(3) _ _ r, unfolded n] d show ?thesis
    by (auto simp: length_Suc_conv)
qed

theorem routes_stay_in_network_witness:
  "\<exists>cs rt. route_life (routes_api []) 4 cs rt \<and> adds cs \<noteq> [] \<and> set (map fst (adds cs @ removes cs)) \<subseteq> {4}"
proof -
  let ?A = "routes_api []"
  have new: "fst (outcome (newRoutes ?A 4) sample_globals ()) = Inr (sample_routes [])"
    by (simp add: newRoutes_def outcome_def request_defs routes_api_def one_server_api_def quiet_api_def still_api_def sample_network_def
        sample_routes_def empty_cache_def request_def)
  let ?m = "CreateRoute ?A 1 sample_route (sample_routes [])"
  let ?cs = "snd (outcome (newRoutes ?A 4) sample_globals ()) @ snd (outcome ?m sample_globals ())"
  obtain e rt where "fst (outcome ?m sample_globals ()) = (e, rt)" by (cases "fst (outcome ?m sample_globals ())")
  from life_create [OF life_new [OF runs_outcome [OF new]] runs_outcome [OF this]] have life: "route_life ?A 4 ?cs rt" .
  have "networks_truthful ?cs" "adds ?cs \<noteq> []" by code_simp+
  with routes_stay_in_network [OF life] life show ?thesis by (intro exI [of _ ?cs] exI [of _ rt]) auto
qed

end
