(* ===== verification/RobotCache.thy ===== *)
theory RobotCache
  imports Samples
begin

text \<open>
  \<open>internal/robot/client/cache/client.go\<close> and \<open>adapter.go\<close>: the Robot client with a cache, the plain Robot
  client behind the same interface, and the interface \<open>robotclient.Client\<close> of
  \<open>internal/robot/client/interface.go\<close> as a record of operations on the client's state. The mutex makes an
  operation of the cache atomic, so each operation is one step on its state.
\<close>

section \<open>The cached client\<close>

text \<open>\<open>rc_map\<close> is \<open>None\<close> for the nil map: nothing is cached. A found server is a pointer into the list.\<close>

record robot_cache =
  rc_timeout :: duration
  rc_last_update :: time
  rc_list :: "robot_server list"
  rc_map :: "(int \<rightharpoonup> robot_server) option"
  rc_forced :: "string \<rightharpoonup> time"

definition defaultCacheTimeout :: duration where
  "defaultCacheTimeout = 5 * Minute"

definition forceRefreshTimeout :: "robot_cache \<Rightarrow> duration" where
  "forceRefreshTimeout c = (if rc_timeout c = 0 then defaultCacheTimeout else rc_timeout c)"

definition shouldSync :: "'w api \<Rightarrow> robot_cache \<Rightarrow> ('w, bool) go" where
  "shouldSync A c =
     (if rc_map c = None then ret True
      else do {
        now \<leftarrow> time_now A;
        ret (rc_last_update c + rc_timeout c < now)
      })"

definition servers_by_number :: "robot_server list \<Rightarrow> int \<rightharpoonup> robot_server" where
  "servers_by_number xs = foldl (\<lambda>m s. m(rs_number s \<mapsto> s)) Map.empty xs"

definition syncIfNeeded :: "'w api \<Rightarrow> robot_cache \<Rightarrow> ('w, goerr option \<times> robot_cache) go" where
  "syncIfNeeded A c = do {
     needed \<leftarrow> shouldSync A c;
     if \<not> needed then ret (None, c)
     else do {
       r \<leftarrow> robot_list A;
       case r of
         Inl e \<Rightarrow> ret (Some e, c)
       | Inr xs \<Rightarrow> do {
           now \<leftarrow> time_now A;
           ret (None, c\<lparr>rc_list := xs, rc_map := Some (servers_by_number xs), rc_last_update := now\<rparr>)
         }
     }
   }"

definition server_not_found :: goerr where
  "server_not_found = Ext ''models.Error'' ''SERVER_NOT_FOUND: server not found''"

definition ServerGet :: "'w api \<Rightarrow> int \<Rightarrow> robot_cache \<Rightarrow> ('w, (goerr + robot_server option) \<times> robot_cache) go" where
  "ServerGet A i c = do {
     (err, c) \<leftarrow> syncIfNeeded A c;
     case err of
       Some e \<Rightarrow> ret (Inl e, c)
     | None \<Rightarrow>
         (case the (rc_map c) i of
            None \<Rightarrow> ret (Inl server_not_found, c)
          | Some s \<Rightarrow> ret (Inr (Some s), c))
   }"

definition ServerGetList :: "'w api \<Rightarrow> robot_cache \<Rightarrow> ('w, (goerr + robot_server list) \<times> robot_cache) go" where
  "ServerGetList A c = do {
     (err, c) \<leftarrow> syncIfNeeded A c;
     case err of
       Some e \<Rightarrow> ret (Inl e, c)
     | None \<Rightarrow> ret (Inr (rc_list c), c)
   }"

definition nodeHasAlreadyForcedRefresh :: "'w api \<Rightarrow> string \<Rightarrow> robot_cache \<Rightarrow> ('w, bool \<times> robot_cache) go" where
  "nodeHasAlreadyForcedRefresh A n c =
     (case rc_forced c n of
        None \<Rightarrow> ret (False, c)
      | Some t \<Rightarrow> do {
          now \<leftarrow> time_now A;
          if t + forceRefreshTimeout c < now then ret (False, c\<lparr>rc_forced := (rc_forced c)(n := None)\<rparr>)
          else ret (True, c)
        })"

definition ServerGetListForceRefresh :: "'w api \<Rightarrow> string \<Rightarrow> robot_cache \<Rightarrow> ('w, (goerr + robot_server list) \<times> robot_cache) go" where
  "ServerGetListForceRefresh A n c = do {
     (already, c) \<leftarrow> (if n = '''' then ret (False, c) else nodeHasAlreadyForcedRefresh A n c);
     let force = (n = '''' \<or> \<not> already);
     let c = (if force then c\<lparr>rc_map := None\<rparr> else c);
     (err, c) \<leftarrow> syncIfNeeded A c;
     case err of
       Some e \<Rightarrow> ret (Inl e, c)
     | None \<Rightarrow>
         if force \<and> n \<noteq> '''' then do {
           now \<leftarrow> time_now A;
           ret (Inr (rc_list c), c\<lparr>rc_forced := (rc_forced c)(n \<mapsto> now)\<rparr>)
         } else ret (Inr (rc_list c), c)
   }"

definition SetCredentials :: "'w api \<Rightarrow> string \<Rightarrow> string \<Rightarrow> robot_cache \<Rightarrow> ('w, goerr option \<times> robot_cache) go" where
  "SetCredentials A u p c = do {
     err \<leftarrow> robot_set_credentials A u p;
     ret (case err of
            Some e \<Rightarrow> (Some e, c)
          | None \<Rightarrow> (None, c\<lparr>rc_map := None, rc_forced := Map.empty\<rparr>))
   }"

section \<open>The interface and its two providers\<close>

record ('w, 'r) robot_client =
  r_ServerGet :: "int \<Rightarrow> 'r \<Rightarrow> ('w, (goerr + robot_server option) \<times> 'r) go"
  r_ServerGetList :: "'r \<Rightarrow> ('w, (goerr + robot_server list) \<times> 'r) go"
  r_ServerGetListForceRefresh :: "string \<Rightarrow> 'r \<Rightarrow> ('w, (goerr + robot_server list) \<times> 'r) go"
  r_SetCredentials :: "string \<Rightarrow> string \<Rightarrow> 'r \<Rightarrow> ('w, goerr option \<times> 'r) go"

definition cached_client :: "'w api \<Rightarrow> ('w, robot_cache) robot_client" where
  "cached_client A = \<lparr>r_ServerGet = ServerGet A, r_ServerGetList = ServerGetList A,
     r_ServerGetListForceRefresh = ServerGetListForceRefresh A, r_SetCredentials = SetCredentials A\<rparr>"

definition plain :: "('w, 'a) go \<Rightarrow> 'r \<Rightarrow> ('w, 'a \<times> 'r) go" where
  "plain m r = do { a \<leftarrow> m; ret (a, r) }"

definition adapter :: "'w api \<Rightarrow> ('w, unit) robot_client" where
  "adapter A = \<lparr>r_ServerGet = (\<lambda>i. plain (robot_get A i)), r_ServerGetList = plain (robot_list A),
     r_ServerGetListForceRefresh = (\<lambda>n. plain (robot_list A)), r_SetCredentials = (\<lambda>u p. plain (robot_set_credentials A u p))\<rparr>"

section \<open>What a synchronisation does\<close>

text \<open>The map of the cache indexes the list, the last server of a number first.\<close>

definition cache_ok :: "robot_cache \<Rightarrow> bool" where
  "cache_ok c \<longleftrightarrow> (\<forall>m. rc_map c = Some m \<longrightarrow> m = servers_by_number (rc_list c))"

lemma servers_by_number_snoc: "servers_by_number (xs @ [s]) = (servers_by_number xs)(rs_number s \<mapsto> s)"
  by (simp add: servers_by_number_def)

lemma servers_by_number_find: "servers_by_number xs i = find (\<lambda>s. rs_number s = i) (rev xs)"
  by (induction xs rule: rev_induct) (simp_all add: servers_by_number_snoc, simp add: servers_by_number_def)

lemma servers_by_number_in: "servers_by_number xs i = Some s \<Longrightarrow> s \<in> set xs \<and> rs_number s = i"
  by (auto simp: servers_by_number_find find_Some_iff) (metis nth_mem set_rev length_rev)

lemma servers_by_number_None: "servers_by_number xs i = None \<longleftrightarrow> (\<forall>s \<in> set xs. rs_number s \<noteq> i)"
  by (auto simp: servers_by_number_find find_None_iff)

definition stored :: "robot_server list \<Rightarrow> time \<Rightarrow> robot_cache \<Rightarrow> robot_cache" where
  "stored xs t c = c\<lparr>rc_list := xs, rc_map := Some (servers_by_number xs), rc_last_update := t\<rparr>"

lemma stored_simps [simp]:
  "rc_list (stored xs t c) = xs" "rc_map (stored xs t c) = Some (servers_by_number xs)" "rc_last_update (stored xs t c) = t"
  "rc_timeout (stored xs t c) = rc_timeout c" "rc_forced (stored xs t c) = rc_forced c" "cache_ok (stored xs t c)"
  by (simp_all add: stored_def cache_ok_def)

text \<open>The reads of the clock that let a list be loaded: none without a cached list, else one past its age.\<close>

definition stale_reads :: "robot_cache \<Rightarrow> api_call list \<Rightarrow> bool" where
  "stale_reads c pre \<longleftrightarrow> pre = [] \<and> rc_map c = None \<or> rc_map c \<noteq> None \<and> (\<exists>t. pre = [Now t] \<and> rc_last_update c + rc_timeout c < t)"

definition kept :: "robot_cache \<Rightarrow> api_call list \<Rightarrow> bool" where
  "kept c cs \<longleftrightarrow> rc_map c \<noteq> None \<and> (\<exists>t. cs = [Now t] \<and> t \<le> rc_last_update c + rc_timeout c)"

definition synced :: "robot_cache \<Rightarrow> api_call list \<Rightarrow> goerr option \<times> robot_cache \<Rightarrow> bool" where
  "synced c cs r \<longleftrightarrow> kept c cs \<and> r = (None, c) \<or>
     (\<exists>pre xs t. stale_reads c pre \<and> cs = pre @ [RobotList (Inr xs), Now t] \<and> r = (None, stored xs t c)) \<or>
     (\<exists>pre e. stale_reads c pre \<and> cs = pre @ [RobotList (Inl e)] \<and> r = (Some e, c))"

lemma valid_shouldSync: "valid (shouldSync A c) (\<lambda>cs b. if b then stale_reads c cs else kept c cs)"
  unfolding shouldSync_def request_defs
  by (auto intro!: valid_rules simp: stale_reads_def kept_def)

lemma valid_syncIfNeeded: "valid (syncIfNeeded A c) (synced c)"
  unfolding syncIfNeeded_def request_defs
  by (rule valid_bind, rule valid_mono [OF valid_shouldSync])
    (auto intro!: valid_rules simp: synced_def stored_def split: if_splits sum.split)

lemma synced_frame:
  assumes "synced c cs (err, c')"
  shows "rc_timeout c' = rc_timeout c" "rc_forced c' = rc_forced c" "cache_ok c \<Longrightarrow> cache_ok c'"
    "err = None \<Longrightarrow> rc_map c' \<noteq> None"
  using assms by (auto simp: synced_def kept_def)

section \<open>The operations\<close>

text \<open>
  A lookup in the list \<open>xs\<close>, or a list, answered by the abstract client: one list of servers with the time it
  was loaded, replaced when it is missing or older than the timeout.
\<close>

definition answered :: "(robot_server list \<Rightarrow> goerr + 'a) \<Rightarrow> robot_cache \<Rightarrow> api_call list \<Rightarrow> (goerr + 'a) \<times> robot_cache \<Rightarrow> bool" where
  "answered look c cs r \<longleftrightarrow>
     kept c cs \<and> r = (look (rc_list c), c) \<or>
     (\<exists>pre xs t. stale_reads c pre \<and> cs = pre @ [RobotList (Inr xs), Now t] \<and> r = (look xs, stored xs t c)) \<or>
     (\<exists>pre e. stale_reads c pre \<and> cs = pre @ [RobotList (Inl e)] \<and> r = (Inl e, c))"

definition server_numbered :: "int \<Rightarrow> robot_server list \<Rightarrow> goerr + robot_server option" where
  "server_numbered i xs = (case find (\<lambda>s. rs_number s = i) (rev xs) of None \<Rightarrow> Inl server_not_found | Some s \<Rightarrow> Inr (Some s))"

lemma answered_intros:
  "kept c cs \<Longrightarrow> answered look c cs (look (rc_list c), c)"
  "stale_reads c pre \<Longrightarrow> answered look c (pre @ [RobotList (Inr xs), Now t]) (look xs, stored xs t c)"
  "stale_reads c pre \<Longrightarrow> answered look c (pre @ [RobotList (Inl e)]) (Inl e, c)"
  by (auto simp: answered_def)

lemma synced_cases:
  assumes "synced c cs r"
  obtains (same) "kept c cs" "r = (None, c)"
    | (loaded) pre xs t where "stale_reads c pre" "cs = pre @ [RobotList (Inr xs), Now t]" "r = (None, stored xs t c)"
    | (failed) pre e where "stale_reads c pre" "cs = pre @ [RobotList (Inl e)]" "r = (Some e, c)"
  using assms unfolding synced_def by blast

lemma valid_ServerGetList: "valid (ServerGetList A c) (answered Inr c)"
  unfolding ServerGetList_def
proof (rule valid_bind, rule valid_mono [OF valid_syncIfNeeded], goal_cases)
  case (1 cs r)
  then show ?case
    by (cases rule: synced_cases) (simp_all add: valid_return answered_intros [of c _ Inr])
qed

lemma frame_ServerGet: "valid (ServerGet A i c) (\<lambda>cs r. rc_forced (snd r) = rc_forced c \<and> rc_timeout (snd r) = rc_timeout c)"
  unfolding ServerGet_def
proof (rule valid_bind, rule valid_mono [OF valid_syncIfNeeded], goal_cases)
  case (1 cs r)
  then show ?case
    using synced_frame(1,2) by (cases r) (auto intro!: valid_return split: option.split)
qed

lemma valid_ServerGet:
  assumes "cache_ok c"
  shows "valid (ServerGet A i c) (answered (server_numbered i) c)"
  unfolding ServerGet_def
proof (rule valid_bind, rule valid_mono [OF valid_syncIfNeeded], goal_cases)
  case (1 cs r)
  then show ?case
  proof (cases rule: synced_cases)
    case same
    then have "the (rc_map c) = servers_by_number (rc_list c)" using assms by (auto simp: cache_ok_def kept_def)
    with same answered_intros(1) [of c cs "server_numbered i"] show ?thesis
      by (auto intro!: valid_return simp: server_numbered_def servers_by_number_find split: option.split)
  next
    case (loaded pre xs t)
    with answered_intros(2) [of c pre "server_numbered i" xs t] show ?thesis
      by (auto intro!: valid_return simp: server_numbered_def servers_by_number_find split: option.split)
  next
    case failed
    then show ?thesis by (simp add: valid_return answered_intros)
  qed
qed

text \<open>C20: The cached Robot client refines a list of servers with an age: a lookup by number and a list are
  answered from the list, without a request, exactly while it is not older than the timeout; otherwise a
  new list is loaded, stored with the time and answers; when loading fails, the error is returned and
  nothing is stored. A number that the list has twice stands for the last server.\<close>

theorem robot_cache_refines:
  assumes "cache_ok c" and "runs (ServerGet A i c) cs r" and "runs (ServerGetList A c) ds q"
  shows "answered (server_numbered i) c cs r \<and> answered Inr c ds q"
  using valid_runs [OF valid_ServerGet [OF assms(1)] assms(2)] valid_runs [OF valid_ServerGetList assms(3)] by simp

section \<open>Forced refreshes\<close>

text \<open>The log of a call that found a forced refresh of the name within the window: a read of the clock and
  then the log of a plain list.\<close>

definition suppressed :: "robot_cache \<Rightarrow> string \<Rightarrow> api_call list \<Rightarrow> (goerr + robot_server list) \<times> robot_cache \<Rightarrow> bool" where
  "suppressed c n cs r \<longleftrightarrow> n \<noteq> '''' \<and> (\<exists>t0 t ds. rc_forced c n = Some t0 \<and> t \<le> t0 + forceRefreshTimeout c \<and> cs = Now t # ds \<and> answered Inr c ds r)"

text \<open>A call that forces: it starts with a new list, unless a read of the clock finds the last one too old.\<close>

definition may_force :: "robot_cache \<Rightarrow> string \<Rightarrow> api_call list \<Rightarrow> bool" where
  "may_force c n pre \<longleftrightarrow> pre = [] \<and> (n = '''' \<or> rc_forced c n = None) \<or>
     (\<exists>t0 t. n \<noteq> '''' \<and> rc_forced c n = Some t0 \<and> t0 + forceRefreshTimeout c < t \<and> pre = [Now t])"

definition forced :: "robot_cache \<Rightarrow> string \<Rightarrow> api_call list \<Rightarrow> (goerr + robot_server list) \<times> robot_cache \<Rightarrow> bool" where
  "forced c n cs r \<longleftrightarrow> (\<exists>pre. may_force c n pre \<and>
     ((\<exists>e c'. cs = pre @ [RobotList (Inl e)] \<and> r = (Inl e, c') \<and> rc_map c' = None \<and> rc_timeout c' = rc_timeout c \<and>
         (\<forall>k. k \<noteq> n \<longrightarrow> rc_forced c' k = rc_forced c k)) \<or>
      (\<exists>xs t post c'. cs = pre @ [RobotList (Inr xs), Now t] @ post \<and> r = (Inr xs, c') \<and> cache_ok c' \<and>
         rc_timeout c' = rc_timeout c \<and> rc_list c' = xs \<and> rc_last_update c' = t \<and>
         (\<forall>k. k \<noteq> n \<longrightarrow> rc_forced c' k = rc_forced c k) \<and>
         (if n = '''' then post = [] else \<exists>t'. post = [Now t'] \<and> rc_forced c' n = Some t'))))"

definition force_tail :: "'w api \<Rightarrow> string \<Rightarrow> robot_cache \<Rightarrow> ('w, (goerr + robot_server list) \<times> robot_cache) go" where
  "force_tail A n c = do {
     (err, c) \<leftarrow> syncIfNeeded A (c\<lparr>rc_map := None\<rparr>);
     case err of
       Some e \<Rightarrow> ret (Inl e, c)
     | None \<Rightarrow>
         if n \<noteq> '''' then do {
           now \<leftarrow> time_now A;
           ret (Inr (rc_list c), c\<lparr>rc_forced := (rc_forced c)(n \<mapsto> now)\<rparr>)
         } else ret (Inr (rc_list c), c)
   }"

lemma force_refresh_unfold:
  "ServerGetListForceRefresh A n c =
     (if n = '''' then force_tail A n c
      else do {
        (already, c) \<leftarrow> nodeHasAlreadyForcedRefresh A n c;
        if already then ServerGetList A c else force_tail A n c
      })"
proof (cases "n = ''''")
  case True
  then show ?thesis by (simp add: ServerGetListForceRefresh_def force_tail_def Let_def cong: option.case_cong)
next
  case False
  then show ?thesis
    unfolding ServerGetListForceRefresh_def force_tail_def ServerGetList_def Let_def
    by (auto intro!: arg_cong [where f = "State_Monad.bind (nodeHasAlreadyForcedRefresh A n c)"] ext
        split: prod.split cong: option.case_cong)
qed

lemma forcedI:
  assumes "may_force c n pre" and "c1 = c \<or> c1 = c\<lparr>rc_forced := (rc_forced c)(n := None)\<rparr>"
  shows "valid (force_tail A n c1) (\<lambda>cs r. forced c n (pre @ cs) r)"
  unfolding force_tail_def request_defs
proof (rule valid_bind, rule valid_mono [OF valid_syncIfNeeded], goal_cases)
  case (1 cs r)
  have c1: "rc_timeout c1 = rc_timeout c" "k \<noteq> n \<Longrightarrow> rc_forced c1 k = rc_forced c k" for k using assms(2) by auto
  from 1 show ?case
  proof (cases rule: synced_cases)
    case same
    then show ?thesis by (simp add: kept_def)
  next
    case (failed pre' e)
    then have "pre' = []" by (simp add: stale_reads_def)
    with failed assms(1) c1 show ?thesis by (auto intro!: valid_return simp: forced_def)
  next
    case (loaded pre' xs t)
    then have "pre' = []" by (simp add: stale_reads_def)
    with loaded show ?thesis
      using assms(1) c1 by (auto intro!: valid_rules simp: forced_def cache_ok_def)
  qed
qed

lemma valid_force: "valid (ServerGetListForceRefresh A n c) (\<lambda>cs r. suppressed c n cs r \<or> forced c n cs r)"
proof (cases "n = '''' \<or> rc_forced c n = None")
  case True
  then have "may_force c n []" by (auto simp: may_force_def)
  from forcedI [OF this, of c A] show ?thesis
    using True by (auto simp: force_refresh_unfold nodeHasAlreadyForcedRefresh_def elim!: valid_mono)
next
  case False
  then obtain t0 where t0: "n \<noteq> ''''" "rc_forced c n = Some t0" by auto
  show ?thesis
    using t0 unfolding force_refresh_unfold nodeHasAlreadyForcedRefresh_def request_defs
  proof (simp, intro valid_bind valid_request, goal_cases)
    case (1 t)
    show ?case
    proof (cases "t0 + forceRefreshTimeout c < t")
      case True
      then have "may_force c n [Now t]" using t0 by (auto simp: may_force_def)
      from valid_mono [OF forcedI [OF this disjI2 [OF refl], of A]] True show ?thesis
        by (auto intro!: valid_rules)
    next
      case False
      then show ?thesis
        using t0 by (auto intro!: valid_return valid_mono [OF valid_ServerGetList] simp: suppressed_def)
    qed
  qed
qed

text \<open>A forced refresh of the Robot list either finds that the name forced one within the window, and is then
  a plain list after one read of the clock; or it drops the cached list and loads a new one, without
  looking at its age. A forced list that fails leaves nothing cached; one that succeeds is cached and its
  time is remembered for the name. No other name is affected.\<close>

theorem force_refresh_cases:
  assumes "runs (ServerGetListForceRefresh A n c) cs r"
  shows "suppressed c n cs r \<or> forced c n cs r"
  using valid_runs [OF valid_force assms] .

section \<open>The life of a client\<close>

datatype robot_op = OpGet int | OpList | OpForce string | OpSet string string

inductive robot_life :: "'w api \<Rightarrow> robot_cache \<Rightarrow> (robot_op \<times> api_call list) list \<Rightarrow> robot_cache \<Rightarrow> bool" for A :: "'w api" and c0 :: robot_cache where
  robot_start: "robot_life A c0 [] c0"
| robot_get: "robot_life A c0 h c \<Longrightarrow> runs (ServerGet A i c) cs (r, c') \<Longrightarrow> robot_life A c0 (h @ [(OpGet i, cs)]) c'"
| robot_lists: "robot_life A c0 h c \<Longrightarrow> runs (ServerGetList A c) cs (q, c') \<Longrightarrow> robot_life A c0 (h @ [(OpList, cs)]) c'"
| robot_force: "robot_life A c0 h c \<Longrightarrow> runs (ServerGetListForceRefresh A n c) cs (q, c') \<Longrightarrow> robot_life A c0 (h @ [(OpForce n, cs)]) c'"
| robot_set: "robot_life A c0 h c \<Longrightarrow> runs (SetCredentials A u p c) cs (e, c') \<Longrightarrow> robot_life A c0 (h @ [(OpSet u p, cs)]) c'"

definition life_log :: "(robot_op \<times> api_call list) list \<Rightarrow> api_call list" where
  "life_log h = concat (map snd h)"

lemma life_log_simps [simp]: "life_log [] = []" "life_log (h @ [(op, cs)]) = life_log h @ cs"
  by (simp_all add: life_log_def)

text \<open>What is cached is an answer of the API, as it is indexed.\<close>

definition backed :: "api_call list \<Rightarrow> robot_cache \<Rightarrow> bool" where
  "backed cs c \<longleftrightarrow> cache_ok c \<and> (rc_map c \<noteq> None \<longrightarrow> RobotList (Inr (rc_list c)) \<in> set cs)"

lemma answered_frame:
  assumes "answered look c cs (r, c')"
  shows "rc_timeout c' = rc_timeout c" "rc_forced c' = rc_forced c" "backed ds c \<Longrightarrow> backed (ds @ cs) c'"
  using assms by (auto simp: answered_def backed_def)

lemma forced_backed: "forced c n cs (r, c') \<Longrightarrow> backed (ds @ cs) c'"
  by (auto simp: forced_def backed_def cache_ok_def)

lemma suppressed_frame:
  assumes "suppressed c n cs (r, c')"
  shows "rc_timeout c' = rc_timeout c" "rc_forced c' = rc_forced c" "backed ds c \<Longrightarrow> backed (ds @ cs) c'"
proof -
  obtain t ds' where cs: "cs = Now t # ds'" and a: "answered Inr c ds' (r, c')" using assms by (auto simp: suppressed_def)
  show "rc_timeout c' = rc_timeout c" "rc_forced c' = rc_forced c" using answered_frame [OF a] by simp_all
  assume "backed ds c"
  then have "backed (ds @ [Now t]) c" by (simp add: backed_def)
  from answered_frame(3) [OF a this] show "backed (ds @ cs) c'" by (simp add: cs)
qed

lemma valid_SetCredentials:
  "valid (SetCredentials A u p c) (\<lambda>cs r. cs = [RobotSetCredentials u p (fst r)] \<and>
     snd r = (if fst r = None then c\<lparr>rc_map := None, rc_forced := Map.empty\<rparr> else c))"
  unfolding SetCredentials_def request_defs
proof (rule valid_bind, rule valid_request, rule valid_return)
  fix a :: "goerr option"
  show "[RobotSetCredentials u p a] @ [] = [RobotSetCredentials u p (fst (case a of Some e \<Rightarrow> (Some e, c) | None \<Rightarrow> (None, c\<lparr>rc_map := None, rc_forced := Map.empty\<rparr>)))] \<and>
    snd (case a of Some e \<Rightarrow> (Some e, c) | None \<Rightarrow> (None, c\<lparr>rc_map := None, rc_forced := Map.empty\<rparr>)) =
    (if fst (case a of Some e \<Rightarrow> (Some e, c) | None \<Rightarrow> (None, c\<lparr>rc_map := None, rc_forced := Map.empty\<rparr>)) = None
     then c\<lparr>rc_map := None, rc_forced := Map.empty\<rparr> else c)"
    by (cases a) simp_all
qed

definition fresh_client :: "duration \<Rightarrow> robot_cache" where
  "fresh_client d = \<lparr>rc_timeout = d, rc_last_update = 0, rc_list = [], rc_map = None, rc_forced = Map.empty\<rparr>"

text \<open>After any sequence of operations on a new client, a cached list is one that the Robot API answered, the
  map of the cache indexes exactly that list, and the timeout is the configured one.\<close>

theorem cached_list_answered:
  assumes "robot_life A (fresh_client d) h c"
  shows "cache_ok c \<and> (rc_map c \<noteq> None \<longrightarrow> RobotList (Inr (rc_list c)) \<in> set (life_log h)) \<and> rc_timeout c = d"
proof -
  have "backed (life_log h) c \<and> rc_timeout c = d"
    using assms
  proof (induction rule: robot_life.induct)
    case robot_start
    show ?case by (simp add: backed_def fresh_client_def cache_ok_def)
  next
    case (robot_get h c i cs r c')
    then have "answered (server_numbered i) c cs (r, c')" using valid_runs [OF valid_ServerGet robot_get(2)] by (simp add: backed_def)
    from answered_frame [OF this] robot_get.IH show ?case by simp
  next
    case (robot_lists h c cs q c')
    from answered_frame [OF valid_runs [OF valid_ServerGetList robot_lists(2)]] robot_lists.IH show ?case by simp
  next
    case (robot_force h c n cs q c')
    from valid_runs [OF valid_force robot_force(2)] show ?case
    proof
      assume "suppressed c n cs (q, c')"
      from suppressed_frame [OF this] robot_force.IH show ?thesis by simp
    next
      assume f: "forced c n cs (q, c')"
      then have "rc_timeout c' = rc_timeout c" by (auto simp: forced_def)
      with forced_backed [OF f] robot_force.IH show ?thesis by simp
    qed
  next
    case (robot_set h c u p cs e c')
    from robot_set.IH valid_runs [OF valid_SetCredentials robot_set(2)] show ?case
      by (auto simp: backed_def cache_ok_def split: if_splits)
  qed
  then show ?thesis by (simp add: backed_def)
qed

definition clock_upto :: "time \<Rightarrow> api_call list \<Rightarrow> bool" where
  "clock_upto b cs \<longleftrightarrow> (\<forall>t. Now t \<in> set cs \<longrightarrow> t \<le> b)"

lemma clock_upto_append [simp]: "clock_upto b (cs @ ds) \<longleftrightarrow> clock_upto b cs \<and> clock_upto b ds"
  by (auto simp: clock_upto_def)

fun clock_read :: "time \<Rightarrow> api_call \<Rightarrow> bool" where
  "clock_read b (Now t) = (t \<le> b)"
| "clock_read b c = True"

lemma clock_upto_code [code]: "clock_upto b cs = list_all (clock_read b) cs"
proof -
  have "clock_read b c \<longleftrightarrow> (\<forall>t. c = Now t \<longrightarrow> t \<le> b)" for c by (cases c) auto
  then show ?thesis by (auto simp: clock_upto_def list_all_iff)
qed

fun is_set :: "robot_op \<Rightarrow> bool" where
  "is_set (OpSet u p) = True"
| "is_set op = False"

lemma forced_in_window:
  assumes "forced c k cs r" and "rc_forced c n = Some t" and "n \<noteq> ''''" and "clock_upto (t + forceRefreshTimeout c) cs"
  shows "k \<noteq> n"
  using assms by (auto simp: forced_def may_force_def clock_upto_def)

lemma same_window: "rc_timeout c = rc_timeout c' \<Longrightarrow> forceRefreshTimeout c = forceRefreshTimeout c'"
  by (simp add: forceRefreshTimeout_def)

text \<open>C27: A name forces at most one refresh per window. From a state in which the name forced one at time \<open>t\<close>, through
  any operations but new credentials, as long as the clock has not passed \<open>t\<close> plus the timeout, a forced
  refresh of the name is a plain list.\<close>

theorem forced_once_per_window:
  assumes "robot_life A c0 h c" and "rc_forced c0 n = Some t" and "n \<noteq> ''''"
    and "list_all (\<lambda>(op, cs). \<not> is_set op) h"
    and "clock_upto (t + forceRefreshTimeout c0) (life_log h)"
    and "runs (ServerGetListForceRefresh A n c) cs r" and "clock_upto (t + forceRefreshTimeout c0) cs"
  shows "suppressed c n cs r"
proof -
  have inv: "rc_forced c n = Some t \<and> rc_timeout c = rc_timeout c0"
    using assms(1,4,5)
  proof (induction rule: robot_life.induct)
    case robot_start
    show ?case using assms(2) by simp
  next
    case (robot_get h c i cs r c')
    have "rc_forced c' = rc_forced c \<and> rc_timeout c' = rc_timeout c"
      using valid_runs [OF frame_ServerGet robot_get(2)] by simp
    with robot_get show ?case by simp
  next
    case (robot_lists h c cs q c')
    with answered_frame [OF valid_runs [OF valid_ServerGetList robot_lists(2)]] show ?case by simp
  next
    case (robot_force h c k cs q c')
    then have IH: "rc_forced c n = Some t" "rc_timeout c = rc_timeout c0" by simp_all
    have w: "clock_upto (t + forceRefreshTimeout c) cs" using robot_force.prems same_window [OF IH(2)] by simp
    from valid_runs [OF valid_force robot_force(2)] show ?case
    proof
      assume "suppressed c k cs (q, c')"
      from suppressed_frame [OF this] IH show ?thesis by simp
    next
      assume f: "forced c k cs (q, c')"
      from forced_in_window [OF f IH(1) assms(3) w] f IH show ?thesis by (auto simp: forced_def)
    qed
  qed simp
  then have "clock_upto (t + forceRefreshTimeout c) cs" using assms(7) same_window [of c c0] by simp
  with valid_runs [OF valid_force assms(6)] forced_in_window [of c n cs r n t] inv assms(3) show ?thesis by blast
qed

section \<open>The theorems at a concrete client\<close>

definition one_robot_api :: "unit api" where
  "one_robot_api = quiet_api\<lparr>a_robot_list := \<lambda>w. (Inr [sample_robot], w)\<rparr>"

theorem robot_cache_refines_witness:
  "\<exists>cs r ds q. runs (ServerGet one_robot_api 5 (fresh_client 60)) cs r \<and> answered (server_numbered 5) (fresh_client 60) cs r \<and>
     answered Inr (fresh_client 60) ds q"
proof -
  have ok: "cache_ok (fresh_client 60)" by (simp add: cache_ok_def fresh_client_def)
  let ?m = "ServerGet one_robot_api 5 (fresh_client 60)" and ?n = "ServerGetList one_robot_api (fresh_client 60)"
  have r: "runs ?m (snd (outcome ?m sample_globals ())) (fst (outcome ?m sample_globals ()))"
    "runs ?n (snd (outcome ?n sample_globals ())) (fst (outcome ?n sample_globals ()))"
    by (rule runs_outcome, rule refl)+
  from r(1) robot_cache_refines [OF ok r] show ?thesis by blast
qed

theorem force_refresh_cases_witness:
  "\<exists>cs c. runs (ServerGetListForceRefresh one_robot_api ''bm-2'' (fresh_client 60)) cs (Inr [sample_robot], c) \<and>
     forced (fresh_client 60) ''bm-2'' cs (Inr [sample_robot], c)"
proof -
  let ?m = "ServerGetListForceRefresh one_robot_api ''bm-2'' (fresh_client 60)"
  have "fst (fst (outcome ?m sample_globals ())) = Inr [sample_robot]" by code_simp
  then obtain c where "fst (outcome ?m sample_globals ()) = (Inr [sample_robot], c)" by (metis prod.collapse)
  note r = runs_outcome [OF this]
  have "\<not> suppressed (fresh_client 60) ''bm-2'' cs q" for cs q by (simp add: suppressed_def fresh_client_def)
  with force_refresh_cases [OF r] r show ?thesis by blast
qed

lemma runs_self: "runs m (snd (outcome m g w)) (fst (outcome m g w))"
  by (rule runs_outcome) (rule refl)

theorem cached_list_answered_witness:
  "\<exists>h c. robot_life one_robot_api (fresh_client 60) h c \<and> rc_map c \<noteq> None \<and> RobotList (Inr (rc_list c)) \<in> set (life_log h)"
proof -
  let ?m = "ServerGetList one_robot_api (fresh_client 60)"
  let ?c = "snd (fst (outcome ?m sample_globals ()))"
  have "runs ?m (snd (outcome ?m sample_globals ())) (fst (fst (outcome ?m sample_globals ())), ?c)"
    using runs_self [of ?m sample_globals "()"] by simp
  note life = robot_lists [OF robot_start this]
  have "(case rc_map ?c of None \<Rightarrow> False | Some m \<Rightarrow> True)" by code_simp
  then have "rc_map ?c \<noteq> None" by (auto split: option.splits)
  with cached_list_answered [OF life] life show ?thesis by blast
qed

definition forced_client :: robot_cache where
  "forced_client = stored [sample_robot] 0 (fresh_client 60)\<lparr>rc_forced := [''bm-2'' \<mapsto> 0]\<rparr>"

theorem forced_once_per_window_witness:
  "\<exists>cs r. runs (ServerGetListForceRefresh one_robot_api ''bm-2'' forced_client) cs r \<and> suppressed forced_client ''bm-2'' cs r"
proof -
  let ?m = "ServerGetListForceRefresh one_robot_api ''bm-2'' forced_client"
  let ?cs = "snd (outcome ?m sample_globals ())"
  have c: "clock_upto (0 + forceRefreshTimeout forced_client) ?cs" by code_simp
  have "rc_forced forced_client ''bm-2'' = Some 0" by (simp add: forced_client_def)
  then have "suppressed forced_client ''bm-2'' ?cs (fst (outcome ?m sample_globals ()))"
    by (rule forced_once_per_window [OF robot_start _ _ _ _ runs_self c]) (simp_all add: clock_upto_def)
  with runs_self [of ?m sample_globals "()"] show ?thesis by blast
qed

end
