(* ===== verification/Instances.thy ===== *)
theory Instances
  imports RobotCache ProviderID
begin

text \<open>
  \<open>hcloud/instances.go\<close>, \<open>hcloud/util.go\<close> and \<open>internal/legacydatacenter\<close>: the instances of the cluster, cloud
  servers and dedicated (Robot) servers. The Robot client is any provider of the interface
  \<open>robot_client\<close>; its state is passed through. A panic is the error \<open>GoPanic\<close>. The refusal under the rate
  limit names the next possible call as a number of nanoseconds where the code prints the date, and
  quotation marks are left out of error texts.
\<close>

section \<open>Zones, regions and labels (util.go, legacydatacenter)\<close>

definition NameFromLocation :: "string \<Rightarrow> string" where
  "NameFromLocation location =
     (if location = ''nbg1'' then ''nbg1-dc3''
      else if location = ''hel1'' then ''hel1-dc2''
      else if location = ''fsn1'' then ''fsn1-dc14''
      else if location = ''ash'' then ''ash-dc1''
      else if location = ''hil'' then ''hil-dc1''
      else if location = ''sin'' then ''sin-dc1''
      else location)"

definition hostNamePrefixRobot :: string where
  "hostNamePrefixRobot = ''bm-''"

definition isHCloudServerByName :: "string \<Rightarrow> bool" where
  "isHCloudServerByName name \<longleftrightarrow> \<not> has_prefix hostNamePrefixRobot name"

text \<open>The class of the regular expression: letters, digits, underscore and dot.\<close>

definition label_char :: "char \<Rightarrow> bool" where
  "label_char c \<longleftrightarrow> (let n = of_char c :: nat in (97 \<le> n \<and> n \<le> 122) \<or> (65 \<le> n \<and> n \<le> 90) \<or> (48 \<le> n \<and> n \<le> 57) \<or> n = 95 \<or> n = 46)"

function replace_runs :: "string \<Rightarrow> string" where
  "replace_runs [] = []"
| "replace_runs (c # s) =
     (if label_char c then c # replace_runs s else CHR ''-'' # replace_runs (dropWhile (\<lambda>d. \<not> label_char d) s))"
  by pat_completeness auto
termination
  by (relation "measure length") (auto simp: le_imp_less_Suc length_dropWhile_le)

definition trim_chars :: "char \<Rightarrow> bool" where
  "trim_chars c \<longleftrightarrow> c \<in> set ''_.-''"

definition stringToLabelValue :: "string \<Rightarrow> string" where
  "stringToLabelValue s = trim trim_chars (replace_runs s)"

definition getInstanceTypeOfRobotServer :: "robot_server \<Rightarrow> string" where
  "getInstanceTypeOfRobotServer s = stringToLabelValue (rs_product s)"

definition getZoneOfRobotServer :: "robot_server \<Rightarrow> string" where
  "getZoneOfRobotServer s = to_lower (take 4 (rs_dc s))"

definition zoneToRegionMap :: "string \<rightharpoonup> string" where
  "zoneToRegionMap = [''nbg1'' \<mapsto> ''eu-central'', ''fsn1'' \<mapsto> ''eu-central'', ''hel1'' \<mapsto> ''eu-central'', ''ash'' \<mapsto> ''us-east'']"

definition getRegionOfRobotServer :: "robot_server \<Rightarrow> goerr + string" where
  "getRegionOfRobotServer s =
     (case zoneToRegionMap (getZoneOfRobotServer s) of
        None \<Rightarrow> Inl (GoPanic ''zoneToRegionMap: unknown zone'')
      | Some region \<Rightarrow> Inr region)"

section \<open>Finding servers (util.go)\<close>

definition errMissingRobotCredentials :: goerr where
  "errMissingRobotCredentials = Ext ''errMissingRobotCredentials'' ''missing robot credentials - cannot connect to robot API''"

definition getHCloudServerByName :: "'w api \<Rightarrow> string \<Rightarrow> ('w, goerr + cloud_server option) go" where
  "getHCloudServerByName A name = do {
     r \<leftarrow> server_get_by_name A name;
     ret (map_sum (wrap ''hcloud/getServerByName'') id r)
   }"

definition getHCloudServerByID :: "'w api \<Rightarrow> int \<Rightarrow> ('w, goerr + cloud_server option) go" where
  "getHCloudServerByID A i = do {
     r \<leftarrow> server_get_by_id A i;
     ret (map_sum (wrap ''hcloud/getServerByID'') id r)
   }"

definition rate_limited :: "string \<Rightarrow> ('w, goerr) go" where
  "rate_limited op = read_globals (\<lambda>g. Msg (op @ '': rate limit exceeded - next try at '' @
     format_int (timeOfNextPossibleAPICall (g_rate_limit g))))"

definition named_robot :: "string \<Rightarrow> robot_server list \<Rightarrow> robot_server option" where
  "named_robot n xs = find (\<lambda>s. rs_name s = n) xs"

definition getRobotServerByName :: "'w api \<Rightarrow> ('w, 'r) robot_client option \<Rightarrow> node \<Rightarrow> 'r \<Rightarrow> ('w, (goerr + robot_server option) \<times> 'r) go" where
  "getRobotServerByName A client node r =
     (case client of
        None \<Rightarrow> ret (Inl errMissingRobotCredentials, r)
      | Some C \<Rightarrow> (let op = ''robot/getServerByName'' in do {
          exceeded \<leftarrow> IsRateLimitExceeded A (nd_name node);
          if exceeded then do { e \<leftarrow> rate_limited op; ret (Inl e, r) }
          else do {
            (xs, r) \<leftarrow> r_ServerGetList C r;
            case xs of
              Inl e \<Rightarrow> do {
                _ \<leftarrow> HandleRateLimitExceededError A e (nd_name node);
                ret (Inl (wrap op e), r)
              }
            | Inr xs \<Rightarrow>
                (case named_robot (nd_name node) xs of
                   Some s \<Rightarrow> ret (Inr (Some s), r)
                 | None \<Rightarrow> do {
                     (xs, r) \<leftarrow> r_ServerGetListForceRefresh C (nd_name node) r;
                     case xs of
                       Inl e \<Rightarrow> do {
                         _ \<leftarrow> HandleRateLimitExceededError A e (nd_name node);
                         ret (Inl (wrap (op @ '': force refresh after cache miss'') e), r)
                       }
                     | Inr xs \<Rightarrow> ret (Inr (named_robot (nd_name node) xs), r)
                   })
          }
        }))"

definition getRobotServerByID :: "'w api \<Rightarrow> ('w, 'r) robot_client option \<Rightarrow> int \<Rightarrow> node \<Rightarrow> 'r \<Rightarrow> ('w, (goerr + robot_server option) \<times> 'r) go" where
  "getRobotServerByID A client i node r = (let op = ''robot/getServerByID'' in
     if nd_name node = '''' then ret (Inl (Msg (op @ '': node name is empty'')), r)
     else case client of
            None \<Rightarrow> ret (Inl errMissingRobotCredentials, r)
          | Some C \<Rightarrow> do {
              exceeded \<leftarrow> IsRateLimitExceeded A (nd_name node);
              if exceeded then do { e \<leftarrow> rate_limited op; ret (Inl e, r) }
              else do {
                (s, r) \<leftarrow> r_ServerGet C i r;
                case s of
                  Inl e \<Rightarrow>
                    if a_is_robot_error A e ErrorCodeServerNotFound then ret (Inr None, r)
                    else do {
                      _ \<leftarrow> HandleRateLimitExceededError A e (nd_name node);
                      ret (Inl (wrap op e), r)
                    }
                | Inr None \<Rightarrow> ret (Inr None, r)
                | Inr (Some s) \<Rightarrow> ret (Inr (if rs_name s \<noteq> nd_name node then None else Some s), r)
              }
            })"

section \<open>The handlers (instances.go)\<close>

text \<open>
  \<open>IsUnspecified\<close> of hcloud-go's public addresses is foreign code, so it is a field, one for each
  protocol, as a function of the address.
\<close>

record ('w, 'r) instances =
  in_api :: "'w api"
  in_robot :: "('w, 'r) robot_client option"
  in_family :: family
  in_network_id :: int
  in_use_hrobot :: bool
  in_no_ipv4 :: "ip \<Rightarrow> bool"
  in_no_ipv6 :: "ip \<Rightarrow> bool"

datatype found_server = CloudServer "cloud_server option" | RobotServer "robot_server option"

definition errServerNotFound :: goerr where
  "errServerNotFound = Ext ''errServerNotFound'' ''server not found''"

definition lookupServer :: "('w, 'r) instances \<Rightarrow> node \<Rightarrow> 'r \<Rightarrow> ('w, (goerr + found_server) \<times> 'r) go" where
  "lookupServer I node r =
     (if nd_provider_id node \<noteq> '''' then
        (case ToServerID (nd_provider_id node) of
           Inl e \<Rightarrow> ret (Inl (wrap ''failed to convert provider id to server id'' e), r)
         | Inr (i, True) \<Rightarrow> do {
             s \<leftarrow> getHCloudServerByID (in_api I) i;
             ret (case s of
                    Inl e \<Rightarrow> Inl (wrap (''failed to get hcloud server '' @ format_int i) e)
                  | Inr s \<Rightarrow> Inr (CloudServer s), r)
           }
         | Inr (i, False) \<Rightarrow>
             if in_robot I = None then ret (Inl errMissingRobotCredentials, r)
             else do {
               (s, r) \<leftarrow> getRobotServerByID (in_api I) (in_robot I) i node r;
               ret (case s of
                      Inl e \<Rightarrow> Inl (wrap (''failed to get robot server '' @ format_int i) e)
                    | Inr s \<Rightarrow> Inr (RobotServer s), r)
             })
      else if isHCloudServerByName (nd_name node) then do {
        s \<leftarrow> getHCloudServerByName (in_api I) (nd_name node);
        ret (case s of
               Inl e \<Rightarrow> Inl (wrap (''failed to get hcloud server '' @ nd_name node) e)
             | Inr s \<Rightarrow> Inr (CloudServer s), r)
      }
      else if in_robot I = None then ret (Inl errMissingRobotCredentials, r)
      else do {
        (s, r) \<leftarrow> getRobotServerByName (in_api I) (in_robot I) node r;
        ret (case s of
               Inl e \<Rightarrow> Inl (wrap (''failed to get robot server '' @ nd_name node) e)
             | Inr s \<Rightarrow> Inr (RobotServer s), r)
      })"

definition InstanceExists :: "('w, 'r) instances \<Rightarrow> node \<Rightarrow> 'r \<Rightarrow> ('w, (goerr + bool) \<times> 'r) go" where
  "InstanceExists I node r = do {
     (s, r) \<leftarrow> lookupServer I node r;
     ret (case s of
            Inl e \<Rightarrow> Inl (wrap ''hcloud/instancesv2.InstanceExists'' e)
          | Inr (CloudServer s) \<Rightarrow> Inr (s \<noteq> None)
          | Inr (RobotServer s) \<Rightarrow> Inr (s \<noteq> None), r)
   }"

definition InstanceShutdown :: "('w, 'r) instances \<Rightarrow> node \<Rightarrow> 'r \<Rightarrow> ('w, (goerr + bool) \<times> 'r) go" where
  "InstanceShutdown I node r = do {
     (s, r) \<leftarrow> lookupServer I node r;
     ret (case s of
            Inl e \<Rightarrow> Inl (wrap ''hcloud/instancesv2.InstanceShutdown'' e)
          | Inr (CloudServer None) \<Rightarrow> Inl (wrap (''failed to find server status: no matching hcloud server found for node '' @ nd_name node) errServerNotFound)
          | Inr (CloudServer (Some s)) \<Rightarrow> Inr (cs_status_off s)
          | Inr (RobotServer s) \<Rightarrow> Inr False, r)
   }"

datatype address_type = NodeHostName | NodeExternalIP | NodeInternalIP

text \<open>\<open>hostAddress[len(hostAddress)-1] |= 0x01\<close>, which panics without a byte.\<close>

definition host_address :: "ip \<Rightarrow> goerr + ip" where
  "host_address x = (if x = [] then Inl (GoPanic ''index out of range [-1]'') else Inr (butlast x @ [last x OR 1]))"

definition hcloudNodeAddresses :: "('w, 'r) instances \<Rightarrow> cloud_server \<Rightarrow> goerr + (address_type \<times> string) list" where
  "hcloudNodeAddresses I s =
     (let host = [(NodeHostName, cs_name s)];
          v4 = (if UsesIPv4 (in_family I) \<and> \<not> in_no_ipv4 I (cs_ipv4 s) then [(NodeExternalIP, ip_text (cs_ipv4 s))] else []);
          priv = (if 0 < in_network_id I
                  then map (\<lambda>n. (NodeInternalIP, ip_text (pn_ip n))) (filter (\<lambda>n. pn_network n = in_network_id I) (cs_private_net s)) else [])
      in if UsesIPv6 (in_family I) \<and> \<not> in_no_ipv6 I (cs_ipv6 s)
         then map_sum id (\<lambda>x. host @ v4 @ [(NodeExternalIP, ip_text x)] @ priv) (host_address (cs_ipv6 s))
         else Inr (host @ v4 @ priv))"

definition robotNodeAddresses :: "family \<Rightarrow> robot_server \<Rightarrow> (address_type \<times> string) list" where
  "robotNodeAddresses f s =
     [(NodeHostName, rs_name s)] @
     (if UsesIPv6 f then [(NodeExternalIP, rs_ipv6_net s @ ''1'')] else []) @
     (if UsesIPv4 f then [(NodeExternalIP, rs_ip s)] else [])"

record instance_metadata =
  md_provider_id :: string
  md_instance_type :: string
  md_addresses :: "(address_type \<times> string) list"
  md_zone :: string
  md_region :: string

definition cloud_metadata :: "('w, 'r) instances \<Rightarrow> cloud_server \<Rightarrow> goerr + instance_metadata" where
  "cloud_metadata I s = map_sum id (\<lambda>addrs.
     \<lparr>md_provider_id = FromCloudServerID (cs_id s), md_instance_type = cs_type_name s, md_addresses = addrs,
      md_zone = NameFromLocation (cs_location s), md_region = cs_location s\<rparr>) (hcloudNodeAddresses I s)"

definition robot_metadata :: "('w, 'r) instances \<Rightarrow> node \<Rightarrow> robot_server \<Rightarrow> goerr + instance_metadata" where
  "robot_metadata I node s = map_sum id (\<lambda>region.
     \<lparr>md_provider_id = GetBaremetalProviderID node (rs_number s) (in_use_hrobot I),
      md_instance_type = getInstanceTypeOfRobotServer s, md_addresses = robotNodeAddresses (in_family I) s,
      md_zone = getZoneOfRobotServer s, md_region = region\<rparr>) (getRegionOfRobotServer s)"

definition InstanceMetadata :: "('w, 'r) instances \<Rightarrow> node \<Rightarrow> 'r \<Rightarrow> ('w, (goerr + instance_metadata) \<times> 'r) go" where
  "InstanceMetadata I node r = do {
     (s, r) \<leftarrow> lookupServer I node r;
     ret (case s of
            Inl e \<Rightarrow> Inl e
          | Inr (CloudServer None) \<Rightarrow> Inl (wrap (''failed to get instance metadata: no matching hcloud server found for node '' @ nd_name node) errServerNotFound)
          | Inr (CloudServer (Some s)) \<Rightarrow> cloud_metadata I s
          | Inr (RobotServer None) \<Rightarrow> Inl (wrap (''failed to get instance metadata: no matching bare metal server found for node '' @ nd_name node) errServerNotFound)
          | Inr (RobotServer (Some s)) \<Rightarrow> robot_metadata I node s, r)
   }"

end
