(* ===== verification/RobotInterface.thy ===== *)
theory RobotInterface
  imports Instances
begin

text \<open>
  The contract of \<open>robotclient.Client\<close> as a locale: which servers a client may answer with. Both providers
  of the code keep it, the cached client and the plain adapter, and the lookups of \<open>hcloud/util.go\<close> are
  proved from it alone.
\<close>

section \<open>The contract\<close>

text \<open>
  \<open>holds r xs\<close>: the state \<open>r\<close> has the list \<open>xs\<close> from earlier. A list comes from the state or from an answer
  of the Robot API in the log.
\<close>

definition from_robot :: "('r \<Rightarrow> robot_server list \<Rightarrow> bool) \<Rightarrow> 'r \<Rightarrow> api_call list \<Rightarrow> robot_server list \<Rightarrow> bool" where
  "from_robot holds r cs xs \<longleftrightarrow> holds r xs \<or> RobotList (Inr xs) \<in> set cs"

definition keeps_origin :: "('r \<Rightarrow> bool) \<Rightarrow> ('r \<Rightarrow> robot_server list \<Rightarrow> bool) \<Rightarrow> 'r \<Rightarrow> api_call list \<Rightarrow> 'r \<Rightarrow> bool" where
  "keeps_origin okay holds r cs r' \<longleftrightarrow> okay r' \<and> (\<forall>xs. holds r' xs \<longrightarrow> from_robot holds r cs xs)"

fun robot_call :: "api_call \<Rightarrow> bool" where
  "robot_call (Now t) = True"
| "robot_call (RobotList xs) = True"
| "robot_call (RobotGet i s) = True"
| "robot_call c = False"

text \<open>A server that the client names for a number: it is in a list with that origin, or the API named it.\<close>

definition server_from :: "('r \<Rightarrow> robot_server list \<Rightarrow> bool) \<Rightarrow> 'r \<Rightarrow> int \<Rightarrow> api_call list \<Rightarrow> robot_server \<Rightarrow> bool" where
  "server_from holds r i cs s \<longleftrightarrow> (\<exists>xs. from_robot holds r cs xs \<and> s \<in> set xs \<and> rs_number s = i) \<or> RobotGet i (Inr (Some s)) \<in> set cs"

text \<open>An error of that call: no list has the number, or the API answered with it.\<close>

definition unlisted :: "('r \<Rightarrow> robot_server list \<Rightarrow> bool) \<Rightarrow> 'r \<Rightarrow> int \<Rightarrow> api_call list \<Rightarrow> bool" where
  "unlisted holds r i cs \<longleftrightarrow> (\<exists>xs. from_robot holds r cs xs \<and> (\<forall>s \<in> set xs. rs_number s \<noteq> i))"

definition get_error :: "('r \<Rightarrow> robot_server list \<Rightarrow> bool) \<Rightarrow> 'r \<Rightarrow> int \<Rightarrow> api_call list \<Rightarrow> goerr \<Rightarrow> bool" where
  "get_error holds r i cs e \<longleftrightarrow> e = server_not_found \<and> unlisted holds r i cs \<or>
     RobotGet i (Inl e) \<in> set cs \<or> RobotList (Inl e) \<in> set cs"

definition get_spec :: "('r \<Rightarrow> bool) \<Rightarrow> ('r \<Rightarrow> robot_server list \<Rightarrow> bool) \<Rightarrow> 'r \<Rightarrow> int \<Rightarrow> api_call list \<Rightarrow> (goerr + robot_server option) \<times> 'r \<Rightarrow> bool" where
  "get_spec okay holds r i cs a \<longleftrightarrow> (\<forall>c \<in> set cs. robot_call c) \<and> keeps_origin okay holds r cs (snd a) \<and>
     (\<forall>s. fst a = Inr (Some s) \<longrightarrow> server_from holds r i cs s) \<and>
     (fst a = Inr None \<longrightarrow> RobotGet i (Inr None) \<in> set cs) \<and> (\<forall>e. fst a = Inl e \<longrightarrow> get_error holds r i cs e)"

definition list_spec :: "('r \<Rightarrow> bool) \<Rightarrow> ('r \<Rightarrow> robot_server list \<Rightarrow> bool) \<Rightarrow> 'r \<Rightarrow> api_call list \<Rightarrow> (goerr + robot_server list) \<times> 'r \<Rightarrow> bool" where
  "list_spec okay holds r cs a \<longleftrightarrow> (\<forall>c \<in> set cs. robot_call c) \<and> keeps_origin okay holds r cs (snd a) \<and>
     (\<forall>xs. fst a = Inr xs \<longrightarrow> from_robot holds r cs xs)"

locale robot_provider =
  fixes C :: "('w, 'r) robot_client" and okay :: "'r \<Rightarrow> bool" and holds :: "'r \<Rightarrow> robot_server list \<Rightarrow> bool"
  assumes get_law: "okay r \<Longrightarrow> valid (r_ServerGet C i r) (get_spec okay holds r i)"
    and list_law: "okay r \<Longrightarrow> valid (r_ServerGetList C r) (list_spec okay holds r)"
    and force_law: "okay r \<Longrightarrow> valid (r_ServerGetListForceRefresh C n r) (list_spec okay holds r)"
    and set_law: "okay r \<Longrightarrow> valid (r_SetCredentials C u p r) (\<lambda>cs a. keeps_origin okay holds r cs (snd a))"

section \<open>The two providers\<close>

definition cached_list :: "robot_cache \<Rightarrow> robot_server list \<Rightarrow> bool" where
  "cached_list c xs \<longleftrightarrow> rc_map c \<noteq> None \<and> rc_list c = xs"

lemma stale_reads_calls: "stale_reads c pre \<Longrightarrow> x \<in> set pre \<Longrightarrow> robot_call x"
  by (auto simp: stale_reads_def)

lemma answered_cached:
  assumes "answered look c cs (a, c')" and "cache_ok c"
  shows "\<forall>x \<in> set cs. robot_call x" "keeps_origin cache_ok cached_list c cs c'"
    "a = Inr v \<Longrightarrow> \<exists>xs. from_robot cached_list c cs xs \<and> look xs = Inr v"
  using assms stale_reads_calls [of c]
  by (auto simp: answered_def keeps_origin_def from_robot_def cached_list_def kept_def)

lemma list_cached: "answered Inr c cs (a, c') \<Longrightarrow> cache_ok c \<Longrightarrow> list_spec cache_ok cached_list c cs (a, c')"
  using answered_cached [of Inr c cs a c'] by (auto simp: list_spec_def)

lemma list_spec_clock: "list_spec okay holds r ds a \<Longrightarrow> list_spec okay holds r (Now t # ds) a"
  by (simp add: list_spec_def keeps_origin_def from_robot_def)

lemma suppressed_cached: "suppressed c n cs (a, c') \<Longrightarrow> cache_ok c \<Longrightarrow> list_spec cache_ok cached_list c cs (a, c')"
  unfolding suppressed_def by (blast intro: list_spec_clock list_cached)

lemma forced_cached: "forced c n cs (a, c') \<Longrightarrow> list_spec cache_ok cached_list c cs (a, c')"
  by (auto simp: forced_def may_force_def list_spec_def keeps_origin_def from_robot_def cached_list_def cache_ok_def split: if_splits)

lemma server_numbered_cases:
  "server_numbered i xs = Inr v \<Longrightarrow> \<exists>s \<in> set xs. v = Some s \<and> rs_number s = i"
  "server_numbered i xs = Inl e \<Longrightarrow> e = server_not_found \<and> (\<forall>s \<in> set xs. rs_number s \<noteq> i)"
proof -
  have eq: "server_numbered i xs = (case servers_by_number xs i of None \<Rightarrow> Inl server_not_found | Some s \<Rightarrow> Inr (Some s))"
    by (simp add: server_numbered_def servers_by_number_find)
  show "server_numbered i xs = Inr v \<Longrightarrow> \<exists>s \<in> set xs. v = Some s \<and> rs_number s = i"
    using servers_by_number_in [of xs i] unfolding eq by (cases "servers_by_number xs i") auto
  show "server_numbered i xs = Inl e \<Longrightarrow> e = server_not_found \<and> (\<forall>s \<in> set xs. rs_number s \<noteq> i)"
    using servers_by_number_None [of xs i] unfolding eq by (cases "servers_by_number xs i") auto
qed

lemma answered_error:
  assumes "answered look c cs (Inl e, c')" and "cache_ok c"
  shows "(\<exists>xs. from_robot cached_list c cs xs \<and> look xs = Inl e) \<or> RobotList (Inl e) \<in> set cs"
  using assms by (auto simp: answered_def from_robot_def cached_list_def kept_def)

lemma get_cached:
  assumes "answered (server_numbered i) c cs (a, c')" and "cache_ok c"
  shows "get_spec cache_ok cached_list c i cs (a, c')"
proof -
  have found: "\<exists>s. v = Some s \<and> server_from cached_list c i cs s" if v: "a = Inr v" for v
    using answered_cached(3) [OF assms v] server_numbered_cases(1) by (fastforce simp: server_from_def)
  have error: "get_error cached_list c i cs e" if e: "a = Inl e" for e
    using answered_error [OF assms [unfolded e]] server_numbered_cases(2) [of i _ e] unfolding get_error_def unlisted_def by blast
  show ?thesis
    using found error answered_cached(1,2) [OF assms] by (auto simp: get_spec_def)
qed

lemma set_cached: "cache_ok c \<Longrightarrow> valid (SetCredentials A u p c) (\<lambda>cs a. keeps_origin cache_ok cached_list c cs (snd a))"
  by (rule valid_mono [OF valid_SetCredentials]) (auto simp: keeps_origin_def from_robot_def cached_list_def cache_ok_def)

interpretation cached: robot_provider "cached_client A" cache_ok cached_list for A
proof (unfold_locales, goal_cases)
  case (1 r i)
  show ?case
    unfolding cached_client_def robot_client.simps by (rule valid_mono [OF valid_ServerGet [OF 1]]) (auto intro: get_cached 1)
next
  case (2 r)
  show ?case
    unfolding cached_client_def robot_client.simps by (rule valid_mono [OF valid_ServerGetList]) (auto intro: list_cached 2)
next
  case (3 r n)
  show ?case
    unfolding cached_client_def robot_client.simps
    by (rule valid_mono [OF valid_force]) (auto intro: suppressed_cached forced_cached 3)
next
  case (4 r u p)
  then show ?case
    unfolding cached_client_def robot_client.simps by (rule set_cached)
qed

definition holds_nothing :: "unit \<Rightarrow> robot_server list \<Rightarrow> bool" where
  "holds_nothing r xs \<longleftrightarrow> False"

interpretation uncached: robot_provider "adapter A" "\<lambda>_. True" holds_nothing for A
proof (unfold_locales, unfold adapter_def plain_def request_defs robot_client.simps)
  fix r :: unit and i :: int and n u p :: string
  show "valid (do { a \<leftarrow> request (RobotGet i) (a_robot_get A i); ret (a, r) }) (get_spec (\<lambda>_. True) holds_nothing r i)"
    by (rule valid_bind, rule valid_request, rule valid_return)
      (simp add: get_spec_def keeps_origin_def from_robot_def server_from_def get_error_def holds_nothing_def)
  show list: "valid (do { a \<leftarrow> request RobotList (a_robot_list A); ret (a, r) }) (list_spec (\<lambda>_. True) holds_nothing r)"
    by (rule valid_bind, rule valid_request, rule valid_return)
      (simp add: list_spec_def keeps_origin_def from_robot_def holds_nothing_def)
  show "valid (do { a \<leftarrow> request RobotList (a_robot_list A); ret (a, r) }) (list_spec (\<lambda>_. True) holds_nothing r)"
    by (rule list)
  show "valid (do { a \<leftarrow> request (RobotSetCredentials u p) (a_robot_set_credentials A u p); ret (a, r) })
    (\<lambda>cs a. keeps_origin (\<lambda>_. True) holds_nothing r cs (snd a))"
    by (rule valid_bind, rule valid_request, rule valid_return) (simp add: keeps_origin_def holds_nothing_def)
qed

section \<open>Lookups through any provider\<close>

lemma no_write_robot: "robot_call c \<Longrightarrow> \<not> is_write c"
  by (cases c) auto

lemma limiter_calls:
  "all_calls (\<lambda>c. \<not> is_write c) (IsRateLimitExceeded A obj)" "all_calls (\<lambda>c. \<not> is_write c) (rate_limited op)"
  "all_calls (\<lambda>c. \<not> is_write c) (HandleRateLimitExceededError A e obj)"
  unfolding IsRateLimitExceeded_def rate_limited_def HandleRateLimitExceededError_def SetRateLimit_def request_defs
  by (intro calls_rules; simp)+

lemma from_robot_append: "from_robot holds r cs xs \<or> from_robot holds r ds xs \<Longrightarrow> from_robot holds r (cs @ ds) xs"
  by (auto simp: from_robot_def)

lemma from_robot_step: "keeps_origin okay holds r cs r' \<Longrightarrow> from_robot holds r' ds xs \<Longrightarrow> from_robot holds r (cs @ ds) xs"
  by (auto simp: from_robot_def keeps_origin_def)

lemma server_from_prefix: "server_from holds r i ds s \<Longrightarrow> server_from holds r i (cs @ ds) s"
  by (auto simp: server_from_def from_robot_def)

text \<open>What a lookup of a Robot server by name may answer, and one by number.\<close>

definition name_answer :: "('r \<Rightarrow> robot_server list \<Rightarrow> bool) \<Rightarrow> 'r \<Rightarrow> string \<Rightarrow> api_call list \<Rightarrow> robot_server option \<Rightarrow> bool" where
  "name_answer holds r name cs a \<longleftrightarrow> (\<exists>xs. from_robot holds r cs xs \<and>
     (case a of Some s \<Rightarrow> s \<in> set xs \<and> rs_name s = name | None \<Rightarrow> \<forall>s \<in> set xs. rs_name s \<noteq> name))"

definition absent_number :: "'w api \<Rightarrow> ('r \<Rightarrow> robot_server list \<Rightarrow> bool) \<Rightarrow> 'r \<Rightarrow> int \<Rightarrow> string \<Rightarrow> api_call list \<Rightarrow> bool" where
  "absent_number A holds r i name cs \<longleftrightarrow> unlisted holds r i cs \<or> (\<exists>s. server_from holds r i cs s \<and> rs_name s \<noteq> name) \<or>
     RobotGet i (Inr None) \<in> set cs \<or>
     (\<exists>e. a_is_robot_error A e ErrorCodeServerNotFound \<and> (RobotGet i (Inl e) \<in> set cs \<or> RobotList (Inl e) \<in> set cs))"

definition number_answer :: "'w api \<Rightarrow> ('r \<Rightarrow> robot_server list \<Rightarrow> bool) \<Rightarrow> 'r \<Rightarrow> int \<Rightarrow> string \<Rightarrow> api_call list \<Rightarrow> robot_server option \<Rightarrow> bool" where
  "number_answer A holds r i name cs a \<longleftrightarrow>
     (case a of Some s \<Rightarrow> server_from holds r i cs s \<and> rs_name s = name | None \<Rightarrow> absent_number A holds r i name cs)"

definition robot_lookup :: "('r \<Rightarrow> bool) \<Rightarrow> (api_call list \<Rightarrow> robot_server option \<Rightarrow> bool) \<Rightarrow> api_call list \<Rightarrow> (goerr + robot_server option) \<times> 'r \<Rightarrow> bool" where
  "robot_lookup okay Q cs a \<longleftrightarrow> (\<forall>c \<in> set cs. \<not> is_write c) \<and> okay (snd a) \<and> (\<forall>s. fst a = Inr s \<longrightarrow> Q cs s)"

lemma named_robot_answer: "from_robot holds r cs xs \<Longrightarrow> name_answer holds r n cs (named_robot n xs)"
  unfolding name_answer_def named_robot_def
  by (intro exI [of _ xs]) (auto simp: find_Some_iff find_None_iff split: option.split)

lemma robot_lookup_error: "\<forall>c \<in> set cs. \<not> is_write c \<Longrightarrow> okay r \<Longrightarrow> robot_lookup okay Q cs (Inl e, r)"
  by (simp add: robot_lookup_def)

lemma keeps_origin_same: "okay r \<Longrightarrow> keeps_origin okay holds r cs r"
  by (simp add: keeps_origin_def from_robot_def)

lemma name_answer_step:
  assumes "robot_lookup okay (name_answer holds r' n) ds a" and "keeps_origin okay holds r cs r'" and "\<forall>c \<in> set cs. \<not> is_write c"
  shows "robot_lookup okay (name_answer holds r n) (cs @ ds) a"
proof -
  have "name_answer holds r n (cs @ ds) s" if "name_answer holds r' n ds s" for s
    using that from_robot_step [OF assms(2)] unfolding name_answer_def by blast
  then show ?thesis using assms(1,3) by (auto simp: robot_lookup_def)
qed

lemma number_answer_prefix:
  assumes "robot_lookup okay (number_answer A holds r i n) ds a" and "\<forall>c \<in> set cs. \<not> is_write c"
  shows "robot_lookup okay (number_answer A holds r i n) (cs @ ds) a"
proof -
  have "unlisted holds r i ds \<Longrightarrow> unlisted holds r i (cs @ ds)"
    by (auto simp: unlisted_def from_robot_def)
  then have "number_answer A holds r i n ds s \<Longrightarrow> number_answer A holds r i n (cs @ ds) s" for s
    using server_from_prefix [of holds r i ds _ cs] by (cases s) (auto simp: number_answer_def absent_number_def)
  then show ?thesis using assms by (auto simp: robot_lookup_def)
qed

lemma failed_call:
  assumes "okay r" and "\<forall>c \<in> set cs. \<not> is_write c"
  shows "valid (do { _ \<leftarrow> HandleRateLimitExceededError A e obj; ret (Inl e', r) }) (\<lambda>ds. robot_lookup okay Q (cs @ ds))"
  using assms by (intro valid_bind valid_reads [OF limiter_calls(3)] valid_return robot_lookup_error) auto

context robot_provider
begin

lemma forced_name:
  assumes ok: "okay r"
  shows "valid (do {
      (xs, r) \<leftarrow> r_ServerGetListForceRefresh C n r;
      case xs of
        Inl e \<Rightarrow> do { _ \<leftarrow> HandleRateLimitExceededError A e obj; ret (Inl (wrap op e), r) }
      | Inr xs \<Rightarrow> ret (Inr (named_robot n xs), r)
    }) (robot_lookup okay (name_answer holds r n))"
proof (rule valid_bind, rule valid_mono [OF force_law [OF ok]], goal_cases)
  case (1 cs a)
  obtain xs r' where a: "a = (xs, r')" by (cases a)
  have st: "\<forall>c \<in> set cs. \<not> is_write c" "okay r'" using 1 a no_write_robot by (auto simp: list_spec_def keeps_origin_def)
  show ?case
  proof (cases xs)
    case (Inl e)
    then show ?thesis using failed_call [of okay, OF st(2) st(1)] by (simp add: a)
  next
    case (Inr ys)
    then have "from_robot holds r cs ys" using 1 a by (simp add: list_spec_def)
    then show ?thesis using st named_robot_answer [of holds r cs ys n] by (simp add: a Inr valid_return robot_lookup_def)
  qed
qed

lemma listed_name:
  assumes ok: "okay r"
  shows "valid (do {
      (xs, r) \<leftarrow> r_ServerGetList C r;
      case xs of
        Inl e \<Rightarrow> do { _ \<leftarrow> HandleRateLimitExceededError A e obj; ret (Inl (wrap op e), r) }
      | Inr xs \<Rightarrow>
          (case named_robot n xs of
             Some s \<Rightarrow> ret (Inr (Some s), r)
           | None \<Rightarrow> do {
               (xs, r) \<leftarrow> r_ServerGetListForceRefresh C n r;
               case xs of
                 Inl e \<Rightarrow> do { _ \<leftarrow> HandleRateLimitExceededError A e obj; ret (Inl (wrap op' e), r) }
               | Inr xs \<Rightarrow> ret (Inr (named_robot n xs), r)
             })
    }) (robot_lookup okay (name_answer holds r n))"
proof (rule valid_bind, rule valid_mono [OF list_law [OF ok]], goal_cases)
  case (1 cs a)
  obtain xs r' where a: "a = (xs, r')" by (cases a)
  have st: "\<forall>c \<in> set cs. \<not> is_write c" "okay r'" "keeps_origin okay holds r cs r'"
    using 1 a no_write_robot by (auto simp: list_spec_def keeps_origin_def)
  show ?case
  proof (cases xs)
    case (Inl e)
    then show ?thesis using failed_call [of okay, OF st(2) st(1)] by (simp add: a)
  next
    case (Inr ys)
    then have ys: "from_robot holds r cs ys" using 1 a by (simp add: list_spec_def)
    show ?thesis
    proof (cases "named_robot n ys")
      case (Some s)
      then show ?thesis using st named_robot_answer [OF ys, of n] by (simp add: a Inr valid_return robot_lookup_def)
    next
      case None
      show ?thesis
        unfolding a Inr None prod.case sum.case option.case
        by (rule valid_mono [OF forced_name [OF st(2)]]) (rule name_answer_step [OF _ st(3,1)])
    qed
  qed
qed

lemma by_name:
  assumes ok: "okay r"
  shows "valid (getRobotServerByName A (Some C) node r) (robot_lookup okay (name_answer holds r (nd_name node)))"
  unfolding getRobotServerByName_def option.case Let_def
proof (rule valid_bind, rule valid_reads [OF limiter_calls(1)], goal_cases)
  case (1 cs b)
  show ?case
  proof (cases b)
    case True
    then show ?thesis
      using 1 ok by (auto intro!: valid_bind valid_reads [OF limiter_calls(2)] valid_return robot_lookup_error)
  next
    case False
    show ?thesis
      by (simp only: False if_False, rule valid_mono [OF listed_name [OF ok]]) (rule name_answer_step [OF _ keeps_origin_same [of okay, OF ok] 1])
  qed
qed

lemma by_number:
  assumes ok: "okay r"
  shows "valid (getRobotServerByID A (Some C) i node r) (robot_lookup okay (number_answer A holds r i (nd_name node)))"
proof (cases "nd_name node = ''''")
  case True
  then show ?thesis using ok by (simp add: getRobotServerByID_def valid_return robot_lookup_error)
next
  case named: False
  let ?get = "do {
      (s, r) \<leftarrow> r_ServerGet C i r;
      case s of
        Inl e \<Rightarrow>
          if a_is_robot_error A e ErrorCodeServerNotFound then ret (Inr None, r)
          else do { _ \<leftarrow> HandleRateLimitExceededError A e (nd_name node); ret (Inl (wrap ''robot/getServerByID'' e), r) }
      | Inr None \<Rightarrow> ret (Inr None, r)
      | Inr (Some s) \<Rightarrow> ret (Inr (if rs_name s \<noteq> nd_name node then None else Some s), r)
    }"
  have get: "valid ?get (robot_lookup okay (number_answer A holds r i (nd_name node)))"
  proof (rule valid_bind, rule valid_mono [OF get_law [OF ok]], goal_cases)
    case (1 cs a)
    obtain s r' where a: "a = (s, r')" by (cases a)
    have st: "\<forall>c \<in> set cs. \<not> is_write c" "okay r'" using 1 a no_write_robot by (auto simp: get_spec_def keeps_origin_def)
    consider (error) e where "s = Inl e" | (nil) "s = Inr None" | (found) x where "s = Inr (Some x)"
      by (metis sum.exhaust option.exhaust)
    then show ?case
    proof cases
      case error
      show ?thesis
      proof (cases "a_is_robot_error A e ErrorCodeServerNotFound")
        case True
        have "get_error holds r i cs e" using 1 a error by (simp add: get_spec_def)
        with True have "absent_number A holds r i (nd_name node) cs" by (auto simp: get_error_def absent_number_def)
        with True st show ?thesis by (simp add: a error valid_return robot_lookup_def number_answer_def)
      next
        case False
        then show ?thesis using failed_call [of okay, OF st(2) st(1)] by (simp add: a error)
      qed
    next
      case nil
      with 1 a st show ?thesis by (simp add: valid_return robot_lookup_def number_answer_def absent_number_def get_spec_def)
    next
      case found
      then have "server_from holds r i cs x" using 1 a by (simp add: get_spec_def)
      with st have "robot_lookup okay (number_answer A holds r i (nd_name node)) cs (Inr (if rs_name x \<noteq> nd_name node then None else Some x), r')"
        by (auto simp: robot_lookup_def number_answer_def absent_number_def)
      then show ?thesis by (simp only: a found prod.case sum.case option.case) (rule valid_return, simp)
    qed
  qed
  show ?thesis
    unfolding getRobotServerByID_def option.case Let_def if_not_P [OF named]
  proof (rule valid_bind, rule valid_reads [OF limiter_calls(1)], goal_cases)
    case (1 cs b)
    show ?case
    proof (cases b)
      case True
      then show ?thesis
        using 1 ok by (auto intro!: valid_bind valid_reads [OF limiter_calls(2)] valid_return robot_lookup_error)
    next
      case False
      show ?thesis
        by (simp only: False if_False, rule valid_mono [OF get]) (rule number_answer_prefix [OF _ 1])
    qed
  qed
qed

end

end
