(* ===== verification/InstancesCorrect.thy ===== *)
theory InstancesCorrect
  imports RobotInterface ServerCache
begin

text \<open>
  Correctness of the instance handlers: what an answer rests on, what the metadata of a server says, and
  which values reach the labels of a node.
\<close>

section \<open>What an answer rests on\<close>

text \<open>
  The evidence in the log for a server found or missing: a node with a provider ID is looked up by the ID, any other
  by its name, at the API that the ID or the name points to.
\<close>

definition instance_answer :: "('w, 'r) instances \<Rightarrow> ('r \<Rightarrow> robot_server list \<Rightarrow> bool) \<Rightarrow> 'r \<Rightarrow> node \<Rightarrow> api_call list \<Rightarrow> found_server \<Rightarrow> bool" where
  "instance_answer I holds r node cs f \<longleftrightarrow>
     (case f of
        CloudServer s \<Rightarrow>
          if nd_provider_id node \<noteq> '''' then \<exists>i. ToServerID (nd_provider_id node) = Inr (i, True) \<and> ServerGetByID i (Inr s) \<in> set cs
          else isHCloudServerByName (nd_name node) \<and> ServerGetByName (nd_name node) (Inr s) \<in> set cs
      | RobotServer s \<Rightarrow>
          if nd_provider_id node \<noteq> '''' then \<exists>i. ToServerID (nd_provider_id node) = Inr (i, False) \<and>
            number_answer (in_api I) holds r i (nd_name node) cs s
          else \<not> isHCloudServerByName (nd_name node) \<and> name_answer holds r (nd_name node) cs s)"

definition looked_up :: "('w, 'r) instances \<Rightarrow> ('r \<Rightarrow> bool) \<Rightarrow> ('r \<Rightarrow> robot_server list \<Rightarrow> bool) \<Rightarrow> 'r \<Rightarrow> node \<Rightarrow> api_call list \<Rightarrow> (goerr + found_server) \<times> 'r \<Rightarrow> bool" where
  "looked_up I okay holds r node cs a \<longleftrightarrow> (\<forall>c \<in> set cs. \<not> is_write c) \<and> okay (snd a) \<and>
     (\<forall>f. fst a = Inr f \<longrightarrow> instance_answer I holds r node cs f)"

lemma robot_found:
  assumes "robot_lookup okay Q cs (s, r')" and "\<And>x. Q cs x \<Longrightarrow> instance_answer I holds r node cs (RobotServer x)"
  shows "looked_up I okay holds r node cs (case s of Inl e \<Rightarrow> Inl (f e) | Inr x \<Rightarrow> Inr (RobotServer x), r')"
  using assms by (auto simp: looked_up_def robot_lookup_def split: sum.split)

context robot_provider
begin

lemma lookup:
  assumes ok: "okay r" and client: "in_robot I = None \<or> in_robot I = Some C"
  shows "valid (lookupServer I node r) (looked_up I okay holds r node)"
proof (cases "nd_provider_id node = ''''")
  case True
  show ?thesis
  proof (cases "isHCloudServerByName (nd_name node)")
    case cloud: True
    show ?thesis
      using True cloud ok unfolding lookupServer_def getHCloudServerByName_def request_defs
      by (auto intro!: valid_rules simp: looked_up_def instance_answer_def split: sum.split dest: sym)
  next
    case False
    have "valid (do { (s, r) \<leftarrow> getRobotServerByName (in_api I) (Some C) node r;
        ret (case s of Inl e \<Rightarrow> Inl (wrap (''failed to get robot server '' @ nd_name node) e) | Inr s \<Rightarrow> Inr (RobotServer s), r) })
      (looked_up I okay holds r node)"
    proof (rule valid_bind, rule valid_mono [OF by_name [OF ok]], goal_cases)
      case (1 cs a)
      then show ?case
        using robot_found [of okay "name_answer holds r (nd_name node)" cs "fst a" "snd a" I holds r node] True False
        by (cases a) (simp add: valid_return instance_answer_def)
    qed
    then show ?thesis
      using True False client ok by (auto simp: lookupServer_def valid_return looked_up_def)
  qed
next
  case False
  consider (bad) e where "ToServerID (nd_provider_id node) = Inl e" | (cloud) i where "ToServerID (nd_provider_id node) = Inr (i, True)"
    | (robot) i where "ToServerID (nd_provider_id node) = Inr (i, False)"
    by (metis (full_types) sum.exhaust prod.exhaust)
  then show ?thesis
  proof cases
    case bad
    with False ok show ?thesis by (simp add: lookupServer_def valid_return looked_up_def)
  next
    case cloud
    with False ok show ?thesis
      unfolding lookupServer_def getHCloudServerByID_def request_defs
      by (auto intro!: valid_rules simp: looked_up_def instance_answer_def split: sum.split)
  next
    case robot
    have "valid (do { (s, r) \<leftarrow> getRobotServerByID (in_api I) (Some C) i node r;
        ret (case s of Inl e \<Rightarrow> Inl (wrap (''failed to get robot server '' @ format_int i) e) | Inr s \<Rightarrow> Inr (RobotServer s), r) })
      (looked_up I okay holds r node)"
    proof (rule valid_bind, rule valid_mono [OF by_number [OF ok]], goal_cases)
      case (1 cs a)
      then show ?case
        using robot_found [of okay "number_answer (in_api I) holds r i (nd_name node)" cs "fst a" "snd a" I holds r node] False robot
        by (cases a) (simp add: valid_return instance_answer_def)
    qed
    then show ?thesis
      using robot False client ok by (auto simp: lookupServer_def valid_return looked_up_def)
  qed
qed

end

lemma valid_exists:
  assumes "robot_provider C okay holds" and "okay r" and "in_robot I = None \<or> in_robot I = Some C"
  shows "valid (InstanceExists I node r) (\<lambda>cs a. (\<forall>c \<in> set cs. \<not> is_write c) \<and>
    (\<forall>b. fst a = Inr b \<longrightarrow> (\<exists>f. instance_answer I holds r node cs f \<and> (b \<longleftrightarrow> f \<notin> {CloudServer None, RobotServer None}))))"
  unfolding InstanceExists_def
proof (rule valid_bind, rule valid_mono [OF robot_provider.lookup [OF assms]], goal_cases)
  case (1 cs a)
  then show ?case
    by (cases a) (auto intro!: valid_return simp: looked_up_def split: sum.splits found_server.splits)
qed

text \<open>C9: Whatever the APIs answer, \<open>InstanceExists\<close> with the cached Robot client writes nothing, and both of its answers rest
  on an answer of the API that the node's provider ID, or else its name, points to. "Exists" needs a server the
  cloud API returned for the ID or the name, or a Robot server of the node's name. "Gone", on which Kubernetes
  deletes the node, needs the cloud API's answer that there is none; or a list of the Robot API, cached or
  fresh, without it, a server of the number with another name, or an error that says not found.\<close>

theorem instance_exists_evidence:
  fixes c :: robot_cache
  assumes "cache_ok c" and "in_robot I = None \<or> in_robot I = Some (cached_client A)"
    and "runs (InstanceExists I node c) cs (Inr b, c')"
  shows "(\<forall>x \<in> set cs. \<not> is_write x) \<and>
    (\<exists>f. instance_answer I cached_list c node cs f \<and> (b \<longleftrightarrow> f \<notin> {CloudServer None, RobotServer None}))"
  using valid_runs [OF valid_exists [OF cached.robot_provider_axioms assms(1,2)] assms(3)] by simp

section \<open>Metadata\<close>

definition metadata_of :: "('w, 'r) instances \<Rightarrow> node \<Rightarrow> found_server \<Rightarrow> goerr + instance_metadata" where
  "metadata_of I node f =
     (case f of CloudServer (Some s) \<Rightarrow> cloud_metadata I s | RobotServer (Some s) \<Rightarrow> robot_metadata I node s
      | _ \<Rightarrow> Inl errServerNotFound)"

lemma valid_metadata:
  assumes "robot_provider C okay holds" and "okay r" and "in_robot I = None \<or> in_robot I = Some C"
  shows "valid (InstanceMetadata I node r) (\<lambda>cs a. (\<forall>c \<in> set cs. \<not> is_write c) \<and>
    (\<forall>md. fst a = Inr md \<longrightarrow> (\<exists>f. instance_answer I holds r node cs f \<and> metadata_of I node f = Inr md)))"
  unfolding InstanceMetadata_def
proof (rule valid_bind, rule valid_mono [OF robot_provider.lookup [OF assms]], goal_cases)
  case (1 cs a)
  then show ?case
    by (cases a) (auto intro!: valid_return simp: looked_up_def metadata_of_def split: sum.splits found_server.splits option.splits)
qed

text \<open>The ID and the side that a provider ID names for a server.\<close>

definition server_id :: "found_server \<Rightarrow> (int \<times> bool) option" where
  "server_id f = (case f of CloudServer s \<Rightarrow> map_option (\<lambda>s. (cs_id s, True)) s | RobotServer s \<Rightarrow> map_option (\<lambda>s. (rs_number s, False)) s)"

lemma metadata_provider_id:
  assumes "metadata_of I node f = Inr md" and "server_id f = Some (i, cloud)" and "int64 i" and "nd_provider_id node = '''' \<or> cloud"
  shows "ToServerID (md_provider_id md) = Inr (i, cloud)"
proof (cases f)
  case (CloudServer s)
  with assms show ?thesis
    by (auto simp: metadata_of_def server_id_def cloud_metadata_def ToServerID_cloud map_sum_def split: option.splits sum.splits)
next
  case (RobotServer s)
  with assms show ?thesis
    by (auto simp: metadata_of_def server_id_def robot_metadata_def GetBaremetalProviderID_def ToServerID_robot_new
        ToServerID_robot_legacy map_sum_def split: option.splits sum.splits)
qed

text \<open>C25: The metadata of a node without a provider ID describes the server that the APIs named for it, and its provider ID
  reads back as that server's number on the same side, cloud or Robot: the ID under which the node is looked
  up from then on names the same server. A cloud server's ID reads back also for a node that had one.\<close>

theorem metadata_reads_back:
  fixes c :: robot_cache
  assumes "cache_ok c" and "in_robot I = None \<or> in_robot I = Some (cached_client A)"
    and "runs (InstanceMetadata I node c) cs (Inr md, c')"
  shows "\<exists>f i cloud. instance_answer I cached_list c node cs f \<and> metadata_of I node f = Inr md \<and> server_id f = Some (i, cloud) \<and>
    (int64 i \<and> (nd_provider_id node = '''' \<or> cloud) \<longrightarrow> ToServerID (md_provider_id md) = Inr (i, cloud))"
proof -
  obtain f where f: "instance_answer I cached_list c node cs f" "metadata_of I node f = Inr md"
    using valid_runs [OF valid_metadata [OF cached.robot_provider_axioms assms(1,2)] assms(3)] by auto
  then obtain i cloud where "server_id f = Some (i, cloud)"
    by (cases f) (auto simp: metadata_of_def server_id_def split: option.splits)
  with f metadata_provider_id [OF f(2) this] show ?thesis by blast
qed

text \<open>C39: The metadata of a dedicated server panics exactly when the first four letters of its data centre, in lower case,
  are none of the four known zones. The zone \<open>ash\<close> needs a data centre that is called so and nothing more.\<close>

theorem robot_metadata_panics:
  "(robot_metadata I node s = Inl (GoPanic ''zoneToRegionMap: unknown zone'') \<longleftrightarrow>
     to_lower (take 4 (rs_dc s)) \<notin> {''nbg1'', ''fsn1'', ''hel1'', ''ash''}) \<and>
   (getZoneOfRobotServer s = ''ash'' \<longleftrightarrow> to_lower (rs_dc s) = ''ash'')"
proof
  show "robot_metadata I node s = Inl (GoPanic ''zoneToRegionMap: unknown zone'') \<longleftrightarrow>
      to_lower (take 4 (rs_dc s)) \<notin> {''nbg1'', ''fsn1'', ''hel1'', ''ash''}"
    by (auto simp: robot_metadata_def getRegionOfRobotServer_def getZoneOfRobotServer_def zoneToRegionMap_def)
  have "take 4 (rs_dc s) = rs_dc s" if "to_lower (take 4 (rs_dc s)) = ''ash''"
    using arg_cong [OF that, of length] by (simp add: to_lower_def min_def split: if_splits)
  moreover have "take 4 (rs_dc s) = rs_dc s" if "to_lower (rs_dc s) = ''ash''"
    using arg_cong [OF that, of length] by (simp add: to_lower_def)
  ultimately show "getZoneOfRobotServer s = ''ash'' \<longleftrightarrow> to_lower (rs_dc s) = ''ash''"
    unfolding getZoneOfRobotServer_def by metis
qed

section \<open>Label values\<close>

definition alnum :: "char \<Rightarrow> bool" where
  "alnum c \<longleftrightarrow> (let n = of_char c :: nat in (97 \<le> n \<and> n \<le> 122) \<or> (65 \<le> n \<and> n \<le> 90) \<or> (48 \<le> n \<and> n \<le> 57))"

text \<open>The form Kubernetes requires of a label value, apart from its length.\<close>

definition label_value :: "string \<Rightarrow> bool" where
  "label_value s \<longleftrightarrow> s = '''' \<or> alnum (hd s) \<and> alnum (last s) \<and> (\<forall>c \<in> set s. alnum c \<or> c \<in> set ''-_.'')"

lemma label_char_cases: "label_char c \<longleftrightarrow> alnum c \<or> c = CHR ''_'' \<or> c = CHR ''.''"
proof -
  have "c = CHR ''_'' \<longleftrightarrow> of_char c = (95 :: nat)" "c = CHR ''.'' \<longleftrightarrow> of_char c = (46 :: nat)"
    using of_char_eq_iff [of c "CHR ''_''", where 'a = nat] of_char_eq_iff [of c "CHR ''.''", where 'a = nat] by simp_all
  then show ?thesis by (auto simp: label_char_def alnum_def Let_def)
qed

lemma replace_runs_chars: "c \<in> set (replace_runs s) \<Longrightarrow> label_char c \<or> c = CHR ''-''"
  by (induction s rule: replace_runs.induct) (auto split: if_splits)

definition no_runs :: "string \<Rightarrow> bool" where
  "no_runs s \<longleftrightarrow> successively (\<lambda>a b. label_char a \<or> label_char b) s \<and> (\<forall>c \<in> set s. label_char c \<or> c = CHR ''-'')"

lemma replace_runs_no_runs: "no_runs (replace_runs s)"
proof (induction s rule: replace_runs.induct)
  case (2 c s)
  show ?case
  proof (cases "label_char c")
    case True
    with 2(1) show ?thesis by (auto simp: no_runs_def successively_Cons)
  next
    case False
    let ?t = "dropWhile (\<lambda>d. \<not> label_char d) s"
    have "label_char (hd (replace_runs ?t))" if "replace_runs ?t \<noteq> []"
      using that hd_dropWhile [of "\<lambda>d. \<not> label_char d" s] by (cases ?t) auto
    with 2(2) False show ?thesis by (auto simp: no_runs_def successively_Cons)
  qed
qed (simp add: no_runs_def)

lemma replace_runs_fixed: "no_runs s \<Longrightarrow> replace_runs s = s"
proof (induction s)
  case (Cons c s)
  then have s: "no_runs s" by (auto simp: no_runs_def successively_Cons)
  show ?case
  proof (cases "label_char c")
    case False
    then have "c = CHR ''-''" "s = [] \<or> label_char (hd s)" using Cons.prems by (auto simp: no_runs_def successively_Cons)
    moreover have "dropWhile (\<lambda>d. \<not> label_char d) s = s" using calculation(2) by (cases s) auto
    ultimately show ?thesis using False Cons.IH [OF s] by simp
  qed (use Cons.IH [OF s] in simp)
qed simp

lemma trim_infix: "\<exists>u v. s = u @ trim P s @ v"
proof -
  have "s = takeWhile P s @ dropWhile P s" by simp
  moreover have "dropWhile P s = trim P s @ rev (takeWhile P (rev (dropWhile P s)))"
    unfolding trim_def by (metis rev_append rev_rev_ident takeWhile_dropWhile_id)
  ultimately show ?thesis by metis
qed

lemma no_runs_trim: "no_runs s \<Longrightarrow> no_runs (trim P s)"
  using trim_infix [of s P] trim_subset [of P s] unfolding no_runs_def by (metis subsetD successively_append_iff)

text \<open>C40: The product of a dedicated server becomes a well-formed label value: empty, or beginning and ending with a letter or
  a digit, with nothing but letters, digits, dash, underscore and dot between. A second application changes
  nothing.\<close>

theorem product_label_wellformed:
  "label_value (stringToLabelValue s) \<and> stringToLabelValue (stringToLabelValue s) = stringToLabelValue s"
proof
  let ?t = "stringToLabelValue s"
  have chars: "alnum c \<or> c \<in> set ''-_.''" if "c \<in> set ?t" for c
    using that trim_subset [of trim_chars "replace_runs s"] replace_runs_chars [of c s]
    by (auto simp: stringToLabelValue_def label_char_cases)
  have "\<not> trim_chars (hd ?t) \<and> \<not> trim_chars (last ?t)" if "?t \<noteq> []"
    using that trim_hd [of trim_chars "replace_runs s"] trim_last [of trim_chars "replace_runs s"] by (simp add: stringToLabelValue_def)
  then show "label_value ?t"
    using chars chars [OF hd_in_set] chars [OF last_in_set] by (cases "?t = []") (auto simp: label_value_def trim_chars_def)
  show "stringToLabelValue ?t = ?t"
    using no_runs_trim [OF replace_runs_no_runs, of trim_chars s] replace_runs_fixed
    by (simp add: stringToLabelValue_def)
qed

section \<open>A missing Robot server\<close>

text \<open>The clock shows a time in the window of a refresh that the name forced before.\<close>

definition within_window :: "robot_cache \<Rightarrow> string \<Rightarrow> api_call list \<Rightarrow> bool" where
  "within_window c n cs \<longleftrightarrow> n \<noteq> '''' \<and> (case rc_forced c n of None \<Rightarrow> False
     | Some t0 \<Rightarrow> \<exists>t. Now t \<in> set cs \<and> t \<le> t0 + forceRefreshTimeout c)"

definition fresh_without :: "robot_cache \<Rightarrow> string \<Rightarrow> api_call list \<Rightarrow> (goerr + robot_server option) \<times> robot_cache \<Rightarrow> bool" where
  "fresh_without c n cs a \<longleftrightarrow> (fst a = Inr None \<longrightarrow>
     (\<exists>xs. RobotList (Inr xs) \<in> set cs \<and> (\<forall>s \<in> set xs. rs_name s \<noteq> n)) \<or> within_window c n cs)"

lemma fresh_without_error: "fresh_without c n cs (Inl e, c')"
  by (simp add: fresh_without_def)

lemma fresh_without_prefix: "fresh_without c n ds a \<Longrightarrow> fresh_without c n (cs @ ds) a"
  by (auto simp: fresh_without_def within_window_def split: option.splits)

lemma fresh_without_frame:
  "rc_forced c' = rc_forced c \<Longrightarrow> rc_timeout c' = rc_timeout c \<Longrightarrow> fresh_without c' n cs a = fresh_without c n cs a"
proof -
  assume same: "rc_forced c' = rc_forced c" "rc_timeout c' = rc_timeout c"
  then have "forceRefreshTimeout c' = forceRefreshTimeout c" by (simp add: forceRefreshTimeout_def)
  with same show ?thesis by (simp add: fresh_without_def within_window_def cong: option.case_cong)
qed

lemma error_fresh: "valid (do { _ \<leftarrow> HandleRateLimitExceededError A e obj; ret (Inl e', c') }) (\<lambda>ds. fresh_without c n (cs @ ds))"
  by (intro valid_bind valid_reads [OF limiter_calls(3)] valid_return fresh_without_error)

lemma forced_fresh:
  "valid (do {
      (xs, c) \<leftarrow> ServerGetListForceRefresh B n c;
      case xs of
        Inl e \<Rightarrow> do { _ \<leftarrow> HandleRateLimitExceededError A e obj; ret (Inl (wrap op e), c) }
      | Inr xs \<Rightarrow> ret (Inr (named_robot n xs), c)
    }) (fresh_without c n)"
proof (rule valid_bind, rule valid_mono [OF valid_force], goal_cases)
  case (1 cs a)
  obtain xs c' where a: "a = (xs, c')" by (cases a)
  show ?case
  proof (cases xs)
    case (Inl e)
    then show ?thesis using error_fresh [of A e obj] by (simp add: a)
  next
    case (Inr ys)
    have "suppressed c n cs a \<Longrightarrow> within_window c n cs" by (auto simp: suppressed_def within_window_def)
    moreover have "forced c n cs a \<Longrightarrow> RobotList (Inr ys) \<in> set cs" using a Inr by (auto simp: forced_def)
    ultimately have "fresh_without c n cs (Inr (named_robot n ys), c')"
      using 1 by (auto simp: fresh_without_def named_robot_def find_None_iff)
    then show ?thesis by (simp add: a Inr valid_return)
  qed
qed

lemma lookup_fresh: "valid (getRobotServerByName A (Some (cached_client B)) node c) (fresh_without c (nd_name node))"
  unfolding getRobotServerByName_def option.case Let_def
proof (rule valid_bind, rule valid_reads [OF limiter_calls(1)], goal_cases)
  case (1 cs b)
  show ?case
  proof (cases b)
    case True
    then show ?thesis by (auto intro!: valid_bind valid_reads [OF limiter_calls(2)] valid_return fresh_without_error)
  next
    case False
    show ?thesis
      unfolding cached_client_def robot_client.simps
    proof (simp only: False if_False, rule valid_bind, rule valid_mono [OF valid_ServerGetList], goal_cases)
      case (1 ds a)
      obtain xs c' where a: "a = (xs, c')" by (cases a)
      note same = fresh_without_frame [OF answered_frame(2,1) [OF 1 [unfolded a]]]
      note forced = forced_fresh [of B "nd_name node" c' A "nd_name node", unfolded same]
      show ?case
      proof (cases xs)
        case (Inl e)
        then show ?thesis using error_fresh [of A e _ _ _ _ _ "cs @ ds"] by (simp add: a)
      next
        case (Inr ys)
        show ?thesis
        proof (cases "named_robot (nd_name node) ys")
          case (Some s)
          then show ?thesis by (simp add: a Inr valid_return fresh_without_def)
        next
          case None
          show ?thesis
            unfolding a Inr None prod.case sum.case option.case
            by (rule valid_mono [OF forced]) (intro fresh_without_prefix)
        qed
      qed
    qed
  qed
qed

text \<open>C21: The lookup by name reports a dedicated server as missing only after it has loaded a new list of the Robot API,
  during the call, that has no server of the name. The one exception is a name that forced a refresh
  before, whose window is still open by a clock that this call has read: within the window the cached list answers. A
  name that never forced a refresh, or whose window is over, gets a new list, so a server renamed since the
  list was cached is found at once.\<close>

theorem missing_only_after_fresh_list:
  assumes "runs (getRobotServerByName A (Some (cached_client B)) node c) cs (Inr None, c')"
    and "\<And>t0 t. rc_forced c (nd_name node) = Some t0 \<Longrightarrow> Now t \<in> set cs \<Longrightarrow> t0 + forceRefreshTimeout c < t"
  shows "\<exists>xs. RobotList (Inr xs) \<in> set cs \<and> (\<forall>s \<in> set xs. rs_name s \<noteq> nd_name node)"
  using valid_runs [OF lookup_fresh assms(1)] assms(2) by (fastforce simp: fresh_without_def within_window_def split: option.splits)

section \<open>The theorems at concrete inputs\<close>

definition cluster :: "unit api \<Rightarrow> (unit, robot_cache) instances" where
  "cluster A = \<lparr>in_api = A, in_robot = Some (cached_client A), in_family = DualStack, in_network_id = 4,
     in_use_hrobot = True, in_no_ipv4 = (\<lambda>x. x = []), in_no_ipv6 = (\<lambda>x. x = [])\<rparr>"

lemma fresh_client_ok: "cache_ok (fresh_client d)"
  by (simp add: cache_ok_def fresh_client_def)

theorem instance_exists_evidence_witness:
  "\<exists>cs c'. runs (InstanceExists (cluster one_robot_api) (node_of ''bm-1'' '''') (fresh_client 60)) cs (Inr True, c') \<and>
     (\<exists>f. instance_answer (cluster one_robot_api) cached_list (fresh_client 60) (node_of ''bm-1'' '''') cs f \<and>
       f \<notin> {CloudServer None, RobotServer None})"
proof -
  let ?m = "InstanceExists (cluster one_robot_api) (node_of ''bm-1'' '''') (fresh_client 60)"
  have "fst (fst (outcome ?m sample_globals ())) = Inr True" by code_simp
  then obtain c' where "fst (outcome ?m sample_globals ()) = (Inr True, c')" by (metis prod.collapse)
  note r = runs_outcome [OF this]
  have I: "in_robot (cluster one_robot_api) = None \<or> in_robot (cluster one_robot_api) = Some (cached_client one_robot_api)"
    by (simp add: cluster_def)
  from instance_exists_evidence [OF fresh_client_ok I r] r show ?thesis by blast
qed

definition named_server_api :: "unit api" where
  "named_server_api = quiet_api\<lparr>a_server_get_by_name := \<lambda>n w. (Inr (Some sample_server), w)\<rparr>"

lemma named_server_lookup:
  "snd (outcome (InstanceMetadata (cluster named_server_api) (node_of ''node-1'' '''') c) g w) =
     [ServerGetByName ''node-1'' (Inr (Some sample_server))]"
proof -
  have "isHCloudServerByName ''node-1''" by code_simp
  then show ?thesis
    by (simp add: InstanceMetadata_def lookupServer_def getHCloudServerByName_def cluster_def named_server_api_def
        request_defs request_def outcome_def)
qed

theorem metadata_reads_back_witness:
  "\<exists>md cs c'. runs (InstanceMetadata (cluster named_server_api) (node_of ''node-1'' '''') (fresh_client 60)) cs (Inr md, c') \<and>
     md_zone md = ''fsn1-dc14'' \<and> ToServerID (md_provider_id md) = Inr (1, True)"
proof -
  let ?n = "node_of ''node-1'' ''''"
  let ?m = "InstanceMetadata (cluster named_server_api) ?n (fresh_client 60)"
  have "case fst (fst (outcome ?m sample_globals ())) of Inl e \<Rightarrow> False | Inr md \<Rightarrow> md_zone md = ''fsn1-dc14''" by code_simp
  then obtain md c' where o: "fst (outcome ?m sample_globals ()) = (Inr md, c')" and zone: "md_zone md = ''fsn1-dc14''"
    by (cases "fst (outcome ?m sample_globals ())") (auto split: sum.splits)
  note r = runs_outcome [OF o]
  have I: "in_robot (cluster named_server_api) = None \<or> in_robot (cluster named_server_api) = Some (cached_client named_server_api)"
    by (simp add: cluster_def)
  obtain f i cloud where f: "instance_answer (cluster named_server_api) cached_list (fresh_client 60) ?n (snd (outcome ?m sample_globals ())) f"
    "server_id f = Some (i, cloud)" "int64 i \<and> (nd_provider_id ?n = '''' \<or> cloud) \<longrightarrow> ToServerID (md_provider_id md) = Inr (i, cloud)"
    using metadata_reads_back [OF fresh_client_ok I r] by blast
  have "isHCloudServerByName ''node-1''" by code_simp
  with f(1,2) have "i = 1" "cloud"
    by (auto simp: instance_answer_def named_server_lookup server_id_def sample_server_def split: found_server.splits)
  with f(3) have "ToServerID (md_provider_id md) = Inr (1, True)" by (simp add: int64_def)
  with r zone show ?thesis by blast
qed

text \<open>A young list in the cache, and a refresh that the name forced long ago.\<close>

definition expired_client :: robot_cache where
  "expired_client = stored [sample_robot] 0 (fresh_client 60)\<lparr>rc_forced := [''bm-2'' \<mapsto> -100]\<rparr>"

fun clock_after :: "time \<Rightarrow> api_call \<Rightarrow> bool" where
  "clock_after t0 (Now t) = (t0 < t)"
| "clock_after t0 c = True"

theorem missing_only_after_fresh_list_witness:
  "\<exists>cs c' xs. runs (getRobotServerByName one_robot_api (Some (cached_client one_robot_api)) (node_of ''bm-2'' '''') expired_client) cs (Inr None, c') \<and>
     rc_forced expired_client ''bm-2'' \<noteq> None \<and> RobotList (Inr xs) \<in> set cs"
proof -
  let ?m = "getRobotServerByName one_robot_api (Some (cached_client one_robot_api)) (node_of ''bm-2'' '''') expired_client"
  have "case fst (fst (outcome ?m sample_globals ())) of Inl e \<Rightarrow> False | Inr None \<Rightarrow> True | Inr (Some s) \<Rightarrow> False" by code_simp
  then obtain c' where "fst (outcome ?m sample_globals ()) = (Inr None, c')"
    by (cases "fst (outcome ?m sample_globals ())") (auto split: sum.splits option.splits)
  note r = runs_outcome [OF this]
  have old: "rc_forced expired_client (nd_name (node_of ''bm-2'' '''')) = Some (-100)" by (simp add: expired_client_def)
  have "list_all (clock_after (-100 + forceRefreshTimeout expired_client)) (snd (outcome ?m sample_globals ()))" by code_simp
  then have "-100 + forceRefreshTimeout expired_client < t" if "Now t \<in> set (snd (outcome ?m sample_globals ()))" for t
    using that by (auto simp: list_all_iff)
  then obtain xs where "RobotList (Inr xs) \<in> set (snd (outcome ?m sample_globals ()))"
    using missing_only_after_fresh_list [OF r] old by (metis option.inject)
  moreover have "rc_forced expired_client ''bm-2'' \<noteq> None" by (simp add: expired_client_def)
  ultimately show ?thesis using r by blast
qed

end
