(* ===== verification/GlobalRuns.thy ===== *)
theory GlobalRuns
  imports Prelude
begin

text \<open>
  Validity with the package variables: what a program that starts with the globals \<open>g\<close> logs and returns, and with
  which globals it ends. The rules decompose a goal along the program as those of \<open>valid\<close> do.
\<close>

definition gvalid :: "'g \<Rightarrow> ('c, 'g, 'w, 'a) prog \<Rightarrow> ('c list \<Rightarrow> 'a \<Rightarrow> 'g \<Rightarrow> bool) \<Rightarrow> bool" where
  "gvalid g m Q \<longleftrightarrow> (\<forall>s. globals s = g \<longrightarrow> (\<exists>cs. trace (snd (run_state m s)) = trace s @ cs \<and>
     Q cs (fst (run_state m s)) (globals (snd (run_state m s)))))"

named_theorems gvalid_rules \<open>rules that decompose a goal about the globals along the program\<close>

lemma gvalid_return [gvalid_rules]: "Q [] a g \<Longrightarrow> gvalid g (ret a) Q"
  by (simp add: gvalid_def)

lemma gvalid_request [gvalid_rules]: "(\<And>a. Q [c a] a g) \<Longrightarrow> gvalid g (request c f) Q"
  by (simp add: gvalid_def request_def split: prod.splits)

lemma gvalid_read [gvalid_rules]: "Q [] (f g) g \<Longrightarrow> gvalid g (read_globals f) Q"
  by (simp add: gvalid_def read_globals_def)

lemma gvalid_modify [gvalid_rules]: "Q [] () (f g) \<Longrightarrow> gvalid g (modify_globals f) Q"
  by (simp add: gvalid_def modify_globals_def)

lemma gvalid_bind [gvalid_rules]:
  fixes m :: "('c, 'g, 'w, 'a) prog"
  assumes "gvalid g m (\<lambda>cs a g1. gvalid g1 (f a) (\<lambda>ds b g2. Q (cs @ ds) b g2))"
  shows "gvalid g (State_Monad.bind m f) Q"
  unfolding gvalid_def
proof (intro allI impI)
  fix s :: "('c, 'g, 'w) world"
  assume g: "globals s = g"
  obtain a s1 where m: "run_state m s = (a, s1)" by (cases "run_state m s")
  with assms g obtain cs where cs: "trace s1 = trace s @ cs" "gvalid (globals s1) (f a) (\<lambda>ds b g2. Q (cs @ ds) b g2)"
    unfolding gvalid_def by (metis fst_conv snd_conv)
  from cs(2) obtain ds where "trace (snd (run_state (f a) s1)) = trace s1 @ ds"
    "Q (cs @ ds) (fst (run_state (f a) s1)) (globals (snd (run_state (f a) s1)))"
    unfolding gvalid_def by blast
  with m cs(1) show "\<exists>cs. trace (snd (run_state (State_Monad.bind m f) s)) = trace s @ cs \<and>
      Q cs (fst (run_state (State_Monad.bind m f) s)) (globals (snd (run_state (State_Monad.bind m f) s)))"
    by (intro exI [of _ "cs @ ds"]) simp
qed

lemma gvalid_mono: "gvalid g m P \<Longrightarrow> (\<And>cs a g'. P cs a g' \<Longrightarrow> Q cs a g') \<Longrightarrow> gvalid g m Q"
  unfolding gvalid_def by metis

lemma gvalid_cases:
  "(\<And>a. v = Inl a \<Longrightarrow> gvalid g (f a) Q) \<Longrightarrow> (\<And>b. v = Inr b \<Longrightarrow> gvalid g (h b) Q) \<Longrightarrow> gvalid g (case v of Inl a \<Rightarrow> f a | Inr b \<Rightarrow> h b) Q"
  "(u = None \<Longrightarrow> gvalid g m Q) \<Longrightarrow> (\<And>x. u = Some x \<Longrightarrow> gvalid g (k x) Q) \<Longrightarrow> gvalid g (case u of None \<Rightarrow> m | Some x \<Rightarrow> k x) Q"
  "(\<And>x y. w = (x, y) \<Longrightarrow> gvalid g (l x y) Q) \<Longrightarrow> gvalid g (case w of (x, y) \<Rightarrow> l x y) Q"
  "(b \<Longrightarrow> gvalid g m Q) \<Longrightarrow> (\<not> b \<Longrightarrow> gvalid g m' Q) \<Longrightarrow> gvalid g (if b then m else m') Q"
  by (auto split: sum.split option.split prod.split)

lemma gvalid_run:
  "gvalid (globals s) m Q \<Longrightarrow> run_state m s = (a, s') \<Longrightarrow> \<exists>cs. trace s' = trace s @ cs \<and> Q cs a (globals s')"
  by (auto simp: gvalid_def)

end
