(* ===== verification/RobotBackoff.thy ===== *)
theory RobotBackoff
  imports GlobalRuns RobotInterface Samples
begin

text \<open>
  The handlers of nodes and the rate limit of the Robot API: a report of the limit goes into the package variable
  of \<open>ratelimit.go\<close>, and until the waiting time is over no handler of a node asks the Robot API anything.
\<close>

section \<open>Requests, failures and clocks in a log\<close>

fun robot_request :: "api_call \<Rightarrow> bool" where
  "robot_request (RobotList r) = True"
| "robot_request (RobotGet i r) = True"
| "robot_request c = False"

fun robot_failure :: "api_call \<Rightarrow> goerr list" where
  "robot_failure (RobotList (Inl e)) = [e]"
| "robot_failure (RobotGet i (Inl e)) = [e]"
| "robot_failure c = []"

fun clock_call :: "api_call \<Rightarrow> time list" where
  "clock_call (Now t) = [t]"
| "clock_call c = []"

definition robot_failures :: "api_call list \<Rightarrow> goerr list" where
  "robot_failures cs = concat (map robot_failure cs)"

definition clocks :: "api_call list \<Rightarrow> time list" where
  "clocks cs = concat (map clock_call cs)"

definition robot_quiet :: "api_call list \<Rightarrow> bool" where
  "robot_quiet cs \<longleftrightarrow> (\<forall>c \<in> set cs. \<not> robot_request c)"

lemma log_simps [simp]:
  "robot_failures [] = []" "robot_failures (c # cs) = robot_failure c @ robot_failures cs"
  "robot_failures (cs @ ds) = robot_failures cs @ robot_failures ds"
  "clocks [] = []" "clocks (c # cs) = clock_call c @ clocks cs" "clocks (cs @ ds) = clocks cs @ clocks ds"
  "robot_quiet []" "robot_quiet (c # cs) \<longleftrightarrow> \<not> robot_request c \<and> robot_quiet cs"
  "robot_quiet (cs @ ds) \<longleftrightarrow> robot_quiet cs \<and> robot_quiet ds"
  by (auto simp: robot_failures_def clocks_def robot_quiet_def)

lemma clocks_Now: "t \<in> set (clocks cs) \<longleftrightarrow> Now t \<in> set cs"
proof (induction cs)
  case (Cons c cs)
  then show ?case by (cases c) auto
qed simp

section \<open>Clients that report the failures of the Robot API\<close>

text \<open>The globals stay, and an error of the Robot API is the error of the call.\<close>

definition told :: "go_globals \<Rightarrow> api_call list \<Rightarrow> (goerr + 'a) \<times> 'r \<Rightarrow> go_globals \<Rightarrow> bool" where
  "told g cs a g' \<longleftrightarrow> g' = g \<and> (\<forall>e \<in> set (robot_failures cs). fst a = Inl e)"

locale robot_reporter =
  fixes C :: "('w, 'r) robot_client"
  assumes get_told: "gvalid g (r_ServerGet C i r) (told g)"
    and list_told: "gvalid g (r_ServerGetList C r) (told g)"
    and force_told: "gvalid g (r_ServerGetListForceRefresh C n r) (told g)"

lemma sync_told:
  "gvalid g (syncIfNeeded A c) (\<lambda>cs a g'. g' = g \<and> (\<forall>e \<in> set (robot_failures cs). fst a = Some e))"
  unfolding syncIfNeeded_def shouldSync_def request_defs
  by (intro gvalid_bind gvalid_cases gvalid_request gvalid_return) (auto intro!: gvalid_rules gvalid_cases)

interpretation cached_reports: robot_reporter "cached_client A" for A
proof (unfold_locales, unfold cached_client_def robot_client.simps)
  fix g and i :: int and r :: robot_cache and n :: string
  show "gvalid g (ServerGet A i r) (told g)"
    unfolding ServerGet_def
    by (rule gvalid_bind, rule gvalid_mono [OF sync_told]) (auto intro!: gvalid_cases gvalid_return simp: told_def)
  show "gvalid g (ServerGetList A r) (told g)"
    unfolding ServerGetList_def
    by (rule gvalid_bind, rule gvalid_mono [OF sync_told]) (auto intro!: gvalid_cases gvalid_return simp: told_def)
  have already: "gvalid g (nodeHasAlreadyForcedRefresh A n c) (\<lambda>cs a g'. g' = g \<and> robot_failures cs = [])" for c
    unfolding nodeHasAlreadyForcedRefresh_def request_defs by (intro gvalid_bind gvalid_cases gvalid_request gvalid_return) auto
  have first: "gvalid g (if n = '''' then ret (False, r) else nodeHasAlreadyForcedRefresh A n r) (\<lambda>cs a g'. g' = g \<and> robot_failures cs = [])"
    by (rule gvalid_cases(4)) (auto intro: gvalid_return already)
  show "gvalid g (ServerGetListForceRefresh A n r) (told g)"
    unfolding ServerGetListForceRefresh_def Let_def request_defs
  proof (rule gvalid_bind, rule gvalid_mono [OF first], goal_cases)
    case (1 cs a g1)
    show ?case
      by (cases a, simp only: prod.case, rule gvalid_bind, rule gvalid_mono [OF sync_told])
        (use 1 in \<open>auto intro!: gvalid_cases gvalid_rules simp: told_def\<close>)
  qed
qed

lemma failure_of_answer:
  "e \<in> set (robot_failure (RobotGet i a)) \<Longrightarrow> a = Inl e" "e \<in> set (robot_failure (RobotList b)) \<Longrightarrow> b = Inl e"
  by ((cases a; simp), (cases b; simp))

interpretation plain_reports: robot_reporter "adapter A" for A
proof (unfold_locales, unfold adapter_def plain_def request_defs robot_client.simps)
  fix g and r :: unit and i :: int and n :: string
  show "gvalid g (do { a \<leftarrow> request (RobotGet i) (a_robot_get A i); ret (a, r) }) (told g)"
    by (intro gvalid_bind gvalid_request gvalid_return) (simp add: told_def failure_of_answer)
  show list: "gvalid g (do { a \<leftarrow> request RobotList (a_robot_list A); ret (a, r) }) (told g)"
    by (intro gvalid_bind gvalid_request gvalid_return) (simp add: told_def failure_of_answer)
  then show "gvalid g (do { a \<leftarrow> request RobotList (a_robot_list A); ret (a, r) }) (told g)" .
qed

section \<open>The limiter along a lookup\<close>

definition blocked_until :: "time \<Rightarrow> go_globals \<Rightarrow> bool" where
  "blocked_until T g \<longleftrightarrow> exceeded (g_rate_limit g) \<and> lastChecked (g_rate_limit g) + waitTime (g_rate_limit g) = T"

text \<open>A report of the limit: the Robot API has one code for an error, so it is not the code of a missing server.\<close>

definition limit_report :: "'w api \<Rightarrow> goerr \<Rightarrow> bool" where
  "limit_report A e \<longleftrightarrow> is_rate_limit_error A e \<and> \<not> a_is_robot_error A e ErrorCodeServerNotFound"

definition backs_off :: "'w api \<Rightarrow> go_globals \<Rightarrow> api_call list \<Rightarrow> go_globals \<Rightarrow> bool" where
  "backs_off A g cs g' \<longleftrightarrow> waitTime (g_rate_limit g') = waitTime (g_rate_limit g) \<and>
     (\<forall>e \<in> set (robot_failures cs). limit_report A e \<longrightarrow>
        clocks cs \<noteq> [] \<and> blocked_until (last (clocks cs) + waitTime (g_rate_limit g)) g') \<and>
     (\<forall>T. blocked_until T g \<and> (\<forall>t \<in> set (clocks cs). t < T) \<longrightarrow> robot_quiet cs \<and> blocked_until T g')"

lemma limiter_answer:
  "gvalid g (IsRateLimitExceeded A obj) (\<lambda>cs b g'. robot_failures cs = [] \<and> robot_quiet cs \<and>
     waitTime (g_rate_limit g') = waitTime (g_rate_limit g) \<and>
     (\<forall>T. blocked_until T g \<and> (\<forall>t \<in> set (clocks cs). t < T) \<longrightarrow> b \<and> blocked_until T g'))"
  unfolding IsRateLimitExceeded_def request_defs
  by (intro gvalid_bind gvalid_read gvalid_cases gvalid_request gvalid_modify gvalid_return)
    (auto simp: isExceeded_def blocked_until_def split: if_splits)

lemma limiter_report:
  "gvalid g (HandleRateLimitExceededError A e obj) (\<lambda>cs u g'. robot_failures cs = [] \<and>
     waitTime (g_rate_limit g') = waitTime (g_rate_limit g) \<and>
     (is_rate_limit_error A e \<longrightarrow> clocks cs \<noteq> [] \<and> blocked_until (last (clocks cs) + waitTime (g_rate_limit g)) g'))"
  unfolding HandleRateLimitExceededError_def SetRateLimit_def request_defs
  by (intro gvalid_cases gvalid_bind gvalid_request gvalid_modify gvalid_return) (auto simp: rl_set_def blocked_until_def)


lemma gvalid_bool: "(b \<Longrightarrow> gvalid g m Q) \<Longrightarrow> (\<not> b \<Longrightarrow> gvalid g m' Q) \<Longrightarrow> gvalid g (case b of True \<Rightarrow> m | False \<Rightarrow> m') Q"
  by (cases b) simp_all

lemma backs_off_quiet: "robot_failures cs = [] \<Longrightarrow> robot_quiet cs \<Longrightarrow> backs_off A g cs g"
  by (simp add: backs_off_def)

text \<open>The limiter lets a lookup through: what the lookup logs after that only has to report failures.\<close>

definition reports :: "'w api \<Rightarrow> go_globals \<Rightarrow> api_call list \<Rightarrow> go_globals \<Rightarrow> bool" where
  "reports A g cs g' \<longleftrightarrow> waitTime (g_rate_limit g') = waitTime (g_rate_limit g) \<and>
     (\<forall>e \<in> set (robot_failures cs). limit_report A e \<longrightarrow>
        clocks cs \<noteq> [] \<and> blocked_until (last (clocks cs) + waitTime (g_rate_limit g)) g')"

lemma reports_none: "robot_failures cs = [] \<Longrightarrow> reports A g cs g"
  by (simp add: reports_def)

lemma reports_failure:
  assumes "\<forall>e' \<in> set (robot_failures cs). e' = e" and "robot_failures ds = []"
    and "waitTime (g_rate_limit g') = waitTime (g_rate_limit g)"
    and "limit_report A e \<Longrightarrow> clocks ds \<noteq> [] \<and> blocked_until (last (clocks ds) + waitTime (g_rate_limit g)) g'"
  shows "reports A g (cs @ ds) g'"
  using assms by (auto simp: reports_def)

lemma reports_after: "robot_failures cs = [] \<Longrightarrow> reports A g ds g' \<Longrightarrow> reports A g (cs @ ds) g'"
  by (auto simp: reports_def)

lemma guarded:
  assumes pass: "\<And>g1. gvalid g1 m (\<lambda>cs a g2. reports A g1 cs g2)"
  shows "gvalid g (do { b \<leftarrow> IsRateLimitExceeded A obj; if b then do { e \<leftarrow> rate_limited op; ret (Inl e, r) } else m })
    (\<lambda>cs a g2. backs_off A g cs g2)"
proof (rule gvalid_bind, rule gvalid_mono [OF limiter_answer], rule gvalid_cases(4), goal_cases)
  case (1 cs b g1)
  then show ?case
    unfolding rate_limited_def by (intro gvalid_bind gvalid_read gvalid_return) (auto simp: backs_off_def)
next
  case (2 cs b g1)
  then show ?case
    by (intro gvalid_mono [OF pass]) (auto simp: backs_off_def reports_def)
qed

lemma failed_lookup:
  assumes "\<forall>e' \<in> set (robot_failures cs). e' = e"
  shows "gvalid g (do { _ \<leftarrow> HandleRateLimitExceededError A e obj; ret (Inl e', r) }) (\<lambda>ds a g'. reports A g (cs @ ds) g')"
  by (rule gvalid_bind, rule gvalid_mono [OF limiter_report], rule gvalid_return)
    (use assms in \<open>auto intro!: reports_failure simp: limit_report_def\<close>)

context robot_reporter
begin

lemma name_backs_off:
  assumes "client = None \<or> client = Some C"
  shows "gvalid g (getRobotServerByName A client node r) (\<lambda>cs a g'. backs_off A g cs g')"
proof (cases client)
  case (Some C')
  then have C: "C' = C" using assms by simp
  show ?thesis
    unfolding getRobotServerByName_def Some option.case Let_def C
  proof (rule guarded, rule gvalid_bind, rule gvalid_mono [OF list_told], rule gvalid_cases(3), goal_cases)
    case (1 g1 cs a g2 xs r1)
    then have g2: "g2 = g1" and fail: "\<forall>e \<in> set (robot_failures cs). xs = Inl e" by (auto simp: told_def)
    show ?case
    proof (rule gvalid_cases(1), goal_cases)
      case (1 e)
      then show ?case unfolding g2 by (intro failed_lookup) (use fail in auto)
    next
      case (2 ys)
      then have none: "robot_failures cs = []" using fail by (cases "robot_failures cs") auto
      show ?case
      proof (rule gvalid_cases(2), goal_cases)
        case 1
        show ?case
        proof (rule gvalid_bind, rule gvalid_mono [OF force_told], rule gvalid_cases(3), goal_cases)
          case (1 ds b g3 zs r2)
          then have g3: "g3 = g1" and fail2: "\<forall>e \<in> set (robot_failures ds). zs = Inl e" by (auto simp: told_def g2)
          show ?case
          proof (rule gvalid_cases(1), goal_cases)
            case (1 e)
            then show ?case
              unfolding g3 append_assoc [symmetric] by (intro failed_lookup) (use fail2 none in auto)
          next
            case (2 ws)
            then have "robot_failures ds = []" using fail2 by (cases "robot_failures ds") auto
            then show ?case unfolding g3 by (intro gvalid_return reports_none) (simp add: none)
          qed
        qed
      next
        case (2 s)
        show ?case unfolding g2 by (intro gvalid_return reports_none) (simp add: none)
      qed
    qed
  qed
qed (simp add: getRobotServerByName_def gvalid_return backs_off_quiet)

lemma number_backs_off:
  assumes "client = None \<or> client = Some C"
  shows "gvalid g (getRobotServerByID A client i node r) (\<lambda>cs a g'. backs_off A g cs g')"
proof (cases "nd_name node = '''' \<or> client = None")
  case False
  then have C: "client = Some C" and n: "nd_name node \<noteq> ''''" using assms by auto
  show ?thesis
    unfolding getRobotServerByID_def C option.case Let_def
  proof (rule gvalid_cases(4), simp add: n, intro guarded, rule gvalid_bind, rule gvalid_mono [OF get_told], rule gvalid_cases(3), goal_cases)
    case (1 g1 cs a g2 s r1)
    then have g2: "g2 = g1" and fail: "\<forall>e \<in> set (robot_failures cs). s = Inl e" by (auto simp: told_def)
    show ?case
    proof (rule gvalid_cases(1), goal_cases)
      case (1 e)
      show ?case
      proof (rule gvalid_cases(4), goal_cases)
        case 2
        then show ?case unfolding g2 by (intro failed_lookup) (use fail 1 in auto)
      next
        case missing: 1
        then have "\<not> limit_report A e" by (simp add: limit_report_def)
        then show ?case unfolding g2 by (intro gvalid_return) (use fail 1 in \<open>auto simp: reports_def\<close>)
      qed
    next
      case (2 s')
      then have "robot_failures cs = []" using fail by (cases "robot_failures cs") auto
      then show ?case unfolding g2 by (auto intro!: gvalid_cases gvalid_return reports_none)
    qed
  qed
qed (auto simp: getRobotServerByID_def gvalid_return backs_off_quiet Let_def)

lemma lookup_backs_off:
  assumes "in_robot I = None \<or> in_robot I = Some C"
  shows "gvalid g (lookupServer I node r) (\<lambda>cs a g'. backs_off (in_api I) g cs g')"
  unfolding lookupServer_def getHCloudServerByID_def getHCloudServerByName_def request_defs
  by (intro gvalid_cases gvalid_bool gvalid_bind gvalid_request gvalid_return
      gvalid_mono [OF name_backs_off [OF assms]] gvalid_mono [OF number_backs_off [OF assms]])
    (auto intro!: backs_off_quiet)

end

section \<open>Histories of handlers\<close>

datatype node_op = Exists node | Shutdown node | Metadata node

fun node_step :: "('w, 'r) instances \<Rightarrow> node_op \<Rightarrow> 'r \<Rightarrow> ('w, 'r) go" where
  "node_step I (Exists node) r = do { (a, r) \<leftarrow> InstanceExists I node r; ret r }"
| "node_step I (Shutdown node) r = do { (a, r) \<leftarrow> InstanceShutdown I node r; ret r }"
| "node_step I (Metadata node) r = do { (a, r) \<leftarrow> InstanceMetadata I node r; ret r }"

fun node_steps :: "('w, 'r) instances \<Rightarrow> node_op list \<Rightarrow> 'r \<Rightarrow> ('w, 'r) go" where
  "node_steps I [] r = ret r"
| "node_steps I (op # ops) r = do { r \<leftarrow> node_step I op r; node_steps I ops r }"

context robot_reporter
begin

lemma step_backs_off:
  assumes "in_robot I = None \<or> in_robot I = Some C"
  shows "gvalid g (node_step I op r) (\<lambda>cs a g'. backs_off (in_api I) g cs g')"
  by (cases op)
    (simp_all only: node_step.simps InstanceExists_def InstanceShutdown_def InstanceMetadata_def,
      (intro gvalid_bind gvalid_mono [OF lookup_backs_off [OF assms]] gvalid_cases gvalid_return; simp)+)

lemma steps_quiet:
  assumes "in_robot I = None \<or> in_robot I = Some C"
  shows "gvalid g (node_steps I ops r) (\<lambda>cs a g'. blocked_until T g \<and> (\<forall>t \<in> set (clocks cs). t < T) \<longrightarrow> robot_quiet cs)"
proof (induction ops arbitrary: g r)
  case (Cons op ops)
  show ?case
    unfolding node_steps.simps
    by (rule gvalid_bind, rule gvalid_mono [OF step_backs_off [OF assms]], rule gvalid_mono [OF Cons.IH])
      (auto simp: backs_off_def)
qed (simp add: gvalid_return)

lemma backoff:
  assumes "in_robot I = None \<or> in_robot I = Some C"
    and "run_state (node_step I op r) s = (r1, s1)" and "trace s1 = trace s @ cs"
    and "e \<in> set (robot_failures cs)" and "limit_report (in_api I) e"
    and "run_state (node_steps I ops r1) s1 = (r2, s2)" and "trace s2 = trace s1 @ ds"
    and "\<forall>t. Now t \<in> set ds \<longrightarrow> t < last (clocks cs) + waitTime (g_rate_limit (globals s))"
  shows "Now (last (clocks cs)) \<in> set cs \<and> robot_quiet ds"
proof -
  have "backs_off (in_api I) (globals s) cs (globals s1)"
    using gvalid_run [OF step_backs_off [OF assms(1)] assms(2)] assms(3) by auto
  with assms(4,5) have first: "clocks cs \<noteq> []"
    "blocked_until (last (clocks cs) + waitTime (g_rate_limit (globals s))) (globals s1)"
    by (auto simp: backs_off_def)
  moreover have "robot_quiet ds"
    using gvalid_run [OF steps_quiet [OF assms(1), of _ _ _ "last (clocks cs) + waitTime (g_rate_limit (globals s))"] assms(6)]
      assms(7,8) first(2) by (auto simp: clocks_Now)
  ultimately show ?thesis using clocks_Now [of "last (clocks cs)" cs] by simp
qed

end

text \<open>C10: Once a handler of a node has seen the Robot API report its rate limit, no handler of any node asks the Robot API
  anything, neither for the list nor for a server, as long as the clock that the handlers read has not reached the time of
  the report, the last the reporting handler read, plus the waiting time.\<close>

theorem robot_backoff:
  fixes c :: robot_cache
  assumes "in_robot I = None \<or> in_robot I = Some (cached_client B)"
    and "run_state (node_step I op c) s = (c1, s1)" and "trace s1 = trace s @ cs"
    and "e \<in> set (robot_failures cs)" and "limit_report (in_api I) e"
    and "run_state (node_steps I ops c1) s1 = (c2, s2)" and "trace s2 = trace s1 @ ds"
    and "\<forall>t. Now t \<in> set ds \<longrightarrow> t < last (clocks cs) + waitTime (g_rate_limit (globals s))"
  shows "Now (last (clocks cs)) \<in> set cs \<and> robot_quiet ds"
  using assms by (rule cached_reports.backoff)

section \<open>A concrete history\<close>

text \<open>A Robot API at its limit and a clock that runs.\<close>

definition limited_api :: "time api" where
  "limited_api = still_api\<lparr>a_now := \<lambda>t. (t, t + 1), a_robot_list := \<lambda>t. (Inl (Ext ''robot'' ''limit''), t),
     a_is_robot_error := \<lambda>e c. c = ErrorCodeRateLimitExceeded\<rparr>"

definition limited_instances :: "(time, robot_cache) instances" where
  "limited_instances = \<lparr>in_api = limited_api, in_robot = Some (cached_client limited_api), in_family = IPv4, in_network_id = 0,
     in_use_hrobot = False, in_no_ipv4 = (\<lambda>x. False), in_no_ipv6 = (\<lambda>x. False)\<rparr>"

definition noon :: "(api_call, go_globals, time) world" where
  "noon = \<lparr>trace = [], globals = sample_globals, ext = 12 * Hour\<rparr>"

theorem robot_backoff_witness:
  "\<exists>c1 s1 c2 (s2 :: (api_call, go_globals, time) world) ds.
     run_state (node_step limited_instances (Exists (node_of ''bm-1'' '''')) (fresh_client 60)) noon = (c1, s1) \<and>
     robot_failures (trace s1) = [Ext ''robot'' ''limit''] \<and>
     run_state (node_steps limited_instances [Metadata (node_of ''bm-1'' ''''), Exists (node_of ''bm-2'' '''')] c1) s1 = (c2, s2) \<and>
     trace s2 = trace s1 @ ds \<and> length ds = 4 \<and> robot_quiet ds"
proof -
  let ?I = limited_instances and ?op = "Exists (node_of ''bm-1'' '''')" and ?ops = "[Metadata (node_of ''bm-1'' ''''), Exists (node_of ''bm-2'' '''')]"
  let ?first = "run_state (node_step ?I ?op (fresh_client 60)) noon"
  let ?log = "trace (snd (run_state (node_steps ?I (?op # ?ops) (fresh_client 60)) noon))"
  obtain c1 s1 where r1: "?first = (c1, s1)" by (metis prod.collapse)
  obtain c2 s2 where r2: "run_state (node_steps ?I ?ops c1) s1 = (c2, s2)" by (metis prod.collapse)
  have "map (\<lambda>c. (robot_failure c, clock_call c)) (trace (snd ?first)) = [([Ext ''robot'' ''limit''], []), ([], []), ([], [12 * Hour])]"
    by code_simp
  then have t1: "map (\<lambda>c. (robot_failure c, clock_call c)) (trace s1) = [([Ext ''robot'' ''limit''], []), ([], []), ([], [12 * Hour])]"
    by (simp only: r1 snd_conv)
  then have s1: "robot_failures (trace s1) = [Ext ''robot'' ''limit'']" "clocks (trace s1) = [12 * Hour]" "length (trace s1) = 3"
    by (auto simp: robot_failures_def clocks_def)
  have "map clock_call ?log = [[], [], [12 * Hour], [12 * Hour + 1], [], [12 * Hour + 2], []]" by code_simp
  moreover have "?log = trace s2" by (simp only: node_steps.simps(2) [of ?I ?op] run_state_bind r1 r2 prod.case snd_conv)
  ultimately have "map clock_call (trace s2) = [[], [], [12 * Hour], [12 * Hour + 1], [], [12 * Hour + 2], []]" by simp
  then have s2: "clocks (trace s2) = [12 * Hour, 12 * Hour + 1, 12 * Hour + 2]" "length (trace s2) = 7"
    by (auto simp: clocks_def)
  have I: "in_robot ?I = None \<or> in_robot ?I = Some (cached_client limited_api)" by (simp add: limited_instances_def)
  obtain ds where ds: "trace s2 = trace s1 @ ds" using gvalid_run [OF cached_reports.steps_quiet [OF I] r2] by blast
  have later: "\<forall>t. Now t \<in> set ds \<longrightarrow> t < last (clocks (trace s1)) + waitTime (g_rate_limit (globals noon))"
    using s1(2) s2(1) unfolding ds clocks_Now [symmetric]
    by (auto simp: noon_def sample_globals_def Minute_def Second_def Millisecond_def Microsecond_def)
  have report: "limit_report (in_api ?I) (Ext ''robot'' ''limit'')"
    by (simp add: limit_report_def is_rate_limit_error_def limited_instances_def limited_api_def)
  have "trace s1 = trace noon @ trace s1" by (simp add: noon_def)
  from robot_backoff [OF I r1 this _ report r2 ds later] s1(1) have "robot_quiet ds" by simp
  with r1 r2 s1(1,3) s2(2) ds show ?thesis by auto
qed

end
