(* ===== verification/Credentials.thy ===== *)
theory Credentials
  imports RobotCache
begin

text \<open>
  \<open>internal/credentials/hotreload.go\<close>: the credentials in mounted files and their reload while the program runs. The
  package variables are part of the program's globals; the two mutexes make a reload atomic. Quotation marks
  are left out of error texts.
\<close>

section \<open>Paths (path/filepath)\<close>

text \<open>\<open>filepath.Clean\<close> on the components of a path: empty ones and dots are dropped, a double dot takes the
  component before it away. The components are collected in reverse.\<close>

fun clean_components :: "bool \<Rightarrow> string list \<Rightarrow> string list \<Rightarrow> string list" where
  "clean_components rooted acc [] = rev acc"
| "clean_components rooted acc (x # xs) =
     (if x = '''' \<or> x = ''.'' then clean_components rooted acc xs
      else if x = ''..'' then
        (case acc of
           [] \<Rightarrow> clean_components rooted (if rooted then [] else [x]) xs
         | y # ys \<Rightarrow> clean_components rooted (if y = ''..'' then x # acc else ys) xs)
      else clean_components rooted (x # acc) xs)"

definition clean_path :: "string \<Rightarrow> string" where
  "clean_path p =
     (let rooted = has_prefix ''/'' p; t = (if rooted then ''/'' else '''') @ join ''/'' (clean_components rooted [] (split_on CHR ''/'' p))
      in if t = '''' then ''.'' else t)"

definition path_join :: "string list \<Rightarrow> string" where
  "path_join xs = (let ys = filter (\<lambda>x. x \<noteq> '''') xs in if ys = [] then '''' else clean_path (join ''/'' ys))"

definition path_base :: "string \<Rightarrow> string" where
  "path_base p =
     (if p = '''' then ''.''
      else let q = rev (dropWhile (\<lambda>c. c = CHR ''/'') (rev p))
           in if q = '''' then ''/'' else last (split_on CHR ''/'' q))"

definition GetDirectory :: "string \<Rightarrow> string" where
  "GetDirectory rootDir = path_join [rootDir, ''etc'', ''hetzner-secret'']"

section \<open>Reading the files\<close>

definition readRobotCredentials :: "'w api \<Rightarrow> string \<Rightarrow> ('w, goerr + string \<times> string) go" where
  "readRobotCredentials A dir = (let uf = path_join [dir, ''robot-user'']; pf = path_join [dir, ''robot-password''] in do {
     u \<leftarrow> read_file A uf;
     case u of
       Inl e \<Rightarrow> ret (Inl (wrap (''reading robot user name from '' @ uf @ '' failed'') e))
     | Inr u \<Rightarrow> do {
         p \<leftarrow> read_file A pf;
         ret (case p of
                Inl e \<Rightarrow> Inl (wrap (''reading robot password from '' @ pf @ '' failed'') e)
              | Inr p \<Rightarrow> Inr (trim_space u, trim_space p))
       }
   })"

text \<open>\<open>errors.Join\<close>: the texts, one per line.\<close>

definition errors_join :: "goerr list \<Rightarrow> goerr" where
  "errors_join es = Msg (join [CHR 0x0A] (map err_text es))"

definition token_body :: "'w api \<Rightarrow> string \<Rightarrow> string \<Rightarrow> goerr list \<Rightarrow> ('w, string + goerr list) go" where
  "token_body A dir key es = (let f = path_join [dir, key] in do {
     data \<leftarrow> read_file A f;
     ret (case data of
            Inl e \<Rightarrow> Inr (es @ [wrap (''reading hcloud token from '' @ f @ '' failed'') e])
          | Inr t \<Rightarrow> Inl (trim_space t))
   })"

definition readHcloudCredentials :: "'w api \<Rightarrow> string \<Rightarrow> ('w, goerr + string) go" where
  "readHcloudCredentials A dir = do {
     r \<leftarrow> range_loop (token_body A dir) [''hcloud'', ''token''] [];
     ret (case r of Inl t \<Rightarrow> Inr t | Inr es \<Rightarrow> Inl (errors_join es))
   }"

section \<open>Initial credentials and reloads\<close>

definition set_old_robot :: "string \<Rightarrow> string \<Rightarrow> go_globals \<Rightarrow> go_globals" where
  "set_old_robot u p g = g\<lparr>g_credentials := (g_credentials g)\<lparr>oldRobotUser := u, oldRobotPassword := p\<rparr>\<rparr>"

definition set_old_token :: "string \<Rightarrow> go_globals \<Rightarrow> go_globals" where
  "set_old_token t g = g\<lparr>g_credentials := (g_credentials g)\<lparr>oldHcloudToken := t\<rparr>\<rparr>"

definition GetInitialRobotCredentials :: "'w api \<Rightarrow> string \<Rightarrow> ('w, goerr + string \<times> string) go" where
  "GetInitialRobotCredentials A dir = do {
     r \<leftarrow> readRobotCredentials A dir;
     case r of
       Inl e \<Rightarrow> ret (Inl (wrap ''readRobotCredentials'' e))
     | Inr (u, p) \<Rightarrow> do {
         _ \<leftarrow> modify_globals (set_old_robot u p);
         ret (Inr (u, p))
       }
   }"

definition GetInitialHcloudCredentialsFromDirectory :: "'w api \<Rightarrow> string \<Rightarrow> ('w, goerr + string) go" where
  "GetInitialHcloudCredentialsFromDirectory A dir = do {
     r \<leftarrow> readHcloudCredentials A dir;
     case r of
       Inl e \<Rightarrow> ret (Inl (wrap ''getting initial credentials: readHcloudCredentials'' e))
     | Inr t \<Rightarrow> do {
         _ \<leftarrow> modify_globals (set_old_token t);
         ret (Inr t)
       }
   }"

definition nil_dereference :: goerr where
  "nil_dereference = GoPanic ''invalid memory address or nil pointer dereference''"

definition count_robot_reload :: "go_globals \<Rightarrow> go_globals" where
  "count_robot_reload g = g\<lparr>g_credentials := (g_credentials g)\<lparr>robotReloadCounter := robotReloadCounter (g_credentials g) + 1\<rparr>\<rparr>"

definition count_token_reload :: "go_globals \<Rightarrow> go_globals" where
  "count_token_reload g = g\<lparr>g_credentials := (g_credentials g)\<lparr>hcloudTokenReloadCounter := hcloudTokenReloadCounter (g_credentials g) + 1\<rparr>\<rparr>"

definition GetRobotReloadCounter :: "('w, 64 word) go" where
  "GetRobotReloadCounter = read_globals (\<lambda>g. robotReloadCounter (g_credentials g))"

definition GetHcloudReloadCounter :: "('w, 64 word) go" where
  "GetHcloudReloadCounter = read_globals (\<lambda>g. hcloudTokenReloadCounter (g_credentials g))"

text \<open>The client is \<open>None\<close> when it is nil; a call of a method of the nil client panics.\<close>

definition loadRobotCredentials :: "'w api \<Rightarrow> string \<Rightarrow> ('w, 'r) robot_client option \<Rightarrow> 'r \<Rightarrow> ('w, goerr option \<times> 'r) go" where
  "loadRobotCredentials A dir client r = do {
     up \<leftarrow> readRobotCredentials A dir;
     case up of
       Inl e \<Rightarrow> ret (Some (wrap ''reading robot credentials from secret failed'' e), r)
     | Inr (u, p) \<Rightarrow> do {
         same \<leftarrow> read_globals (\<lambda>g. u = oldRobotUser (g_credentials g) \<and> p = oldRobotPassword (g_credentials g));
         if same then ret (None, r)
         else do {
           _ \<leftarrow> modify_globals (\<lambda>g. count_robot_reload (set_old_robot u p g));
           case client of
             None \<Rightarrow> ret (Some nil_dereference, r)
           | Some C \<Rightarrow> do {
               (err, r) \<leftarrow> r_SetCredentials C u p r;
               ret (map_option (wrap ''SetCredentials'') err, r)
             }
         }
       }
   }"

definition loadHcloudCredentials :: "'w api \<Rightarrow> string \<Rightarrow> bool \<Rightarrow> ('w, goerr option) go" where
  "loadHcloudCredentials A dir has_client = do {
     t \<leftarrow> readHcloudCredentials A dir;
     case t of
       Inl e \<Rightarrow> ret (Some (wrap ''loadHcloudCredentials'' e))
     | Inr t \<Rightarrow>
         if length t \<noteq> 64 then ret (Some (Msg (''loadHcloudCredentials: entered token ('' @ take 5 t @ ''...) is invalid (must be exactly 64 characters long)'')))
         else do {
           same \<leftarrow> read_globals (\<lambda>g. t = oldHcloudToken (g_credentials g));
           if same then ret None
           else do {
             _ \<leftarrow> modify_globals (\<lambda>g. count_token_reload (set_old_token t g));
             if has_client then do { _ \<leftarrow> set_token A t; ret None }
             else ret (Some nil_dereference)
           }
         }
   }"

section \<open>Events of the watcher\<close>

text \<open>An event of fsnotify: its path, and what \<open>Has\<close> answers for the two operations the code asks for.\<close>

record fs_event =
  ev_name :: string
  ev_write :: bool
  ev_create :: bool

definition isValidEvent :: "fs_event \<Rightarrow> bool" where
  "isValidEvent ev \<longleftrightarrow> \<not> (has_prefix ''..'' (path_base (ev_name ev)) \<and> path_base (ev_name ev) \<noteq> ''..data'') \<and>
     (ev_write ev \<or> ev_create ev)"

definition handleEvent :: "'w api \<Rightarrow> string \<Rightarrow> string \<Rightarrow> bool \<Rightarrow> ('w, 'r) robot_client option \<Rightarrow> 'r \<Rightarrow> ('w, goerr option \<times> 'r) go" where
  "handleEvent A dir baseName has_hcloud robot r =
     (if baseName = ''robot-user'' \<or> baseName = ''robot-password'' then loadRobotCredentials A dir robot r
      else if baseName = ''hcloud'' \<or> baseName = ''token'' then do {
        err \<leftarrow> loadHcloudCredentials A dir has_hcloud;
        ret (map_option (wrap ''handleEvent hcloud'') err, r)
      }
      else if baseName = ''..data'' then do {
        err \<leftarrow> (if has_hcloud then loadHcloudCredentials A dir has_hcloud else ret None);
        case err of
          Some e \<Rightarrow> ret (Some (wrap ''handleEvent ..data loadHcloudCredentials'' e), r)
        | None \<Rightarrow>
            if robot = None then ret (None, r)
            else do {
              (err, r) \<leftarrow> loadRobotCredentials A dir robot r;
              ret (map_option (wrap ''handleEvent ..data loadRobotCredentials'') err, r)
            }
      }
      else ret (None, r))"

text \<open>The goroutine of \<open>Watch\<close>: it handles what the watcher delivers, one after the other. Errors are only logged; a
  panic ends the program, and with it the loop.\<close>

datatype watch_item = FsEvent fs_event | FsError goerr

fun is_panic :: "goerr \<Rightarrow> bool" where
  "is_panic (GoPanic m) = True"
| "is_panic e = False"

fun watch_loop :: "'w api \<Rightarrow> string \<Rightarrow> bool \<Rightarrow> ('w, 'r) robot_client option \<Rightarrow> watch_item list \<Rightarrow> 'r \<Rightarrow> ('w, goerr option \<times> 'r) go" where
  "watch_loop A dir has_hcloud robot [] r = ret (None, r)"
| "watch_loop A dir has_hcloud robot (FsError e # items) r = watch_loop A dir has_hcloud robot items r"
| "watch_loop A dir has_hcloud robot (FsEvent ev # items) r =
     (if \<not> isValidEvent ev then watch_loop A dir has_hcloud robot items r
      else do {
        (err, r) \<leftarrow> handleEvent A dir (path_base (ev_name ev)) has_hcloud robot r;
        if err \<noteq> None \<and> is_panic (the err) then ret (err, r)
        else watch_loop A dir has_hcloud robot items r
      })"

text \<open>\<open>Watch\<close> itself; that fsnotify cannot start ends the program and is not modelled.\<close>

definition Watch :: "'w api \<Rightarrow> string \<Rightarrow> ('w, goerr option) go" where
  "Watch A dir = do {
     err \<leftarrow> watch_dir A dir;
     ret (map_option (wrap ''watcher.Add'') err)
   }"

section \<open>NewCachedRobotClient\<close>

text \<open>The client for the Robot API: \<open>None\<close> without credentials. The HTTP client is a pointer that may be nil.\<close>

definition NewCachedRobotClient :: "'w api \<Rightarrow> environ \<Rightarrow> string \<Rightarrow> bool \<Rightarrow> ('w, goerr + robot_cache option) go" where
  "NewCachedRobotClient A env rootDir has_http = (let op = ''hcloud/newRobotClient'' in
     if \<not> has_http then ret (Inl (Msg (op @ '': httpClient is nil'')))
     else case GetEnvDuration env ''CACHE_TIMEOUT'' of
            Inl e \<Rightarrow> ret (Inl (wrap op e))
          | Inr d \<Rightarrow> do {
              let timeout = (if d = 0 then defaultCacheTimeout else d);
              let dir = GetDirectory rootDir;
              st \<leftarrow> stat A dir;
              up \<leftarrow> (if st \<noteq> None then ret (Inr (getenv env ''ROBOT_USER_NAME'', getenv env ''ROBOT_PASSWORD''))
                    else GetInitialRobotCredentials A dir);
              ret (case up of
                     Inl e \<Rightarrow> Inl (wrap op e)
                   | Inr (u, p) \<Rightarrow>
                       if u = '''' \<or> p = '''' then Inr None
                       else Inr (Some \<lparr>rc_timeout = timeout, rc_last_update = 0, rc_list = [], rc_map = None, rc_forced = Map.empty\<rparr>))
            })"

end
