(* ===== verification/CredentialsCorrect.thy ===== *)
theory CredentialsCorrect
  imports Credentials GlobalRuns
begin

text \<open>
  Correctness of the reload of credentials: which credentials reach the clients, how the reload counters count them,
  and two ways in which a reload goes wrong.
\<close>

section \<open>What a reload sends\<close>

text \<open>The credentials in a log: what was handed to the clients, and what the files said.\<close>

fun token_set :: "api_call \<Rightarrow> string list" where
  "token_set (SetToken t) = [t]"
| "token_set c = []"

fun robot_set_call :: "api_call \<Rightarrow> (string \<times> string) list" where
  "robot_set_call (RobotSetCredentials u p e) = [(u, p)]"
| "robot_set_call c = []"

definition tokens_set :: "api_call list \<Rightarrow> string list" where
  "tokens_set cs = concat (map token_set cs)"

definition robot_sets :: "api_call list \<Rightarrow> (string \<times> string) list" where
  "robot_sets cs = concat (map robot_set_call cs)"

lemma sets_simps [simp]:
  "tokens_set [] = []" "tokens_set (c # cs) = token_set c @ tokens_set cs" "tokens_set (cs @ ds) = tokens_set cs @ tokens_set ds"
  "robot_sets [] = []" "robot_sets (c # cs) = robot_set_call c @ robot_sets cs" "robot_sets (cs @ ds) = robot_sets cs @ robot_sets ds"
  by (simp_all add: tokens_set_def robot_sets_def)

definition file_says :: "api_call list \<Rightarrow> string \<Rightarrow> bool" where
  "file_says cs x \<longleftrightarrow> (\<exists>f t. ReadFile f (Inr t) \<in> set cs \<and> x = trim_space t)"

lemma file_says_simps [simp]:
  "\<not> file_says [] x" "file_says (cs @ ds) x \<longleftrightarrow> file_says cs x \<or> file_says ds x"
  "file_says (c # cs) x \<longleftrightarrow> (\<exists>f t. c = ReadFile f (Inr t) \<and> x = trim_space t) \<or> file_says cs x"
  by (auto simp: file_says_def)

definition token_of :: "go_globals \<Rightarrow> string" where
  "token_of g = oldHcloudToken (g_credentials g)"

definition robot_of :: "go_globals \<Rightarrow> string \<times> string" where
  "robot_of g = (oldRobotUser (g_credentials g), oldRobotPassword (g_credentials g))"

text \<open>
  A piece of a run with both clients: only contents of the files reach the clients, as a token only 64
  characters, nothing is sent twice in a row, the package variables have what was sent last and the counters
  count what was sent.
\<close>

definition tokens_follow :: "go_globals \<Rightarrow> api_call list \<Rightarrow> go_globals \<Rightarrow> bool" where
  "tokens_follow g cs g' \<longleftrightarrow> (\<forall>t \<in> set (tokens_set cs). length t = 64 \<and> file_says cs t) \<and>
     distinct_adj (token_of g # tokens_set cs) \<and> token_of g' = last (token_of g # tokens_set cs) \<and>
     hcloudTokenReloadCounter (g_credentials g') = hcloudTokenReloadCounter (g_credentials g) + of_nat (length (tokens_set cs))"

definition robots_follow :: "go_globals \<Rightarrow> api_call list \<Rightarrow> go_globals \<Rightarrow> bool" where
  "robots_follow g cs g' \<longleftrightarrow> (\<forall>(u, p) \<in> set (robot_sets cs). file_says cs u \<and> file_says cs p) \<and>
     distinct_adj (robot_of g # robot_sets cs) \<and> robot_of g' = last (robot_of g # robot_sets cs) \<and>
     robotReloadCounter (g_credentials g') = robotReloadCounter (g_credentials g) + of_nat (length (robot_sets cs))"

definition reloaded :: "go_globals \<Rightarrow> api_call list \<Rightarrow> go_globals \<Rightarrow> bool" where
  "reloaded g cs g' \<longleftrightarrow> tokens_follow g cs g' \<and> robots_follow g cs g'"

lemma distinct_adj_chain:
  "distinct_adj (x # xs) \<Longrightarrow> distinct_adj (last (x # xs) # ys) \<Longrightarrow> distinct_adj (x # xs @ ys)"
  by (cases ys) (auto simp: distinct_adj_append_iff simp flip: append_Cons)

lemma last_chain: "last (last (x # xs) # ys) = last (x # xs @ ys)"
  by (cases ys) simp_all

lemma reloaded_append:
  assumes "reloaded g cs g1" and "reloaded g1 ds g2"
  shows "reloaded g (cs @ ds) g2"
proof -
  have "tokens_follow g (cs @ ds) g2"
    using assms distinct_adj_chain [of "token_of g" "tokens_set cs" "tokens_set ds"] last_chain [of "token_of g" "tokens_set cs" "tokens_set ds"]
    by (auto simp: reloaded_def tokens_follow_def)
  moreover have "robots_follow g (cs @ ds) g2"
    using assms distinct_adj_chain [of "robot_of g" "robot_sets cs" "robot_sets ds"] last_chain [of "robot_of g" "robot_sets cs" "robot_sets ds"]
    by (auto simp: reloaded_def robots_follow_def)
  ultimately show ?thesis by (simp add: reloaded_def)
qed

lemma reloaded_quiet: "tokens_set cs = [] \<Longrightarrow> robot_sets cs = [] \<Longrightarrow> reloaded g cs g"
  by (simp add: reloaded_def tokens_follow_def robots_follow_def)

lemma valid_readRobot:
  "gvalid g (readRobotCredentials A dir) (\<lambda>cs r g'. g' = g \<and> tokens_set cs = [] \<and> robot_sets cs = [] \<and>
     (\<forall>u p. r = Inr (u, p) \<longrightarrow> file_says cs u \<and> file_says cs p))"
  unfolding readRobotCredentials_def Let_def request_defs
  by (intro gvalid_bind gvalid_request gvalid_cases gvalid_return) (auto split: sum.split)

lemma token_loop:
  "gvalid g (range_loop (token_body A dir) ks es) (\<lambda>cs r g'. g' = g \<and> tokens_set cs = [] \<and> robot_sets cs = [] \<and>
     (\<forall>t. r = Inl t \<longrightarrow> file_says cs t))"
proof (induction ks arbitrary: es)
  case Nil
  show ?case by (simp add: gvalid_return)
next
  case (Cons k ks)
  show ?case
    unfolding range_loop.simps token_body_def Let_def request_defs
  proof (rule gvalid_bind, rule gvalid_bind, rule gvalid_request, rule gvalid_return, goal_cases)
    case (1 a)
    show ?case
    proof (cases a)
      case (Inl e)
      then show ?thesis
        using gvalid_mono [OF Cons.IH [of "es @ [wrap (''reading hcloud token from '' @ path_join [dir, k] @ '' failed'') e]"]]
        by (simp add: token_body_def [abs_def] request_defs Let_def)
    next
      case (Inr t)
      then show ?thesis by (auto intro!: gvalid_return)
    qed
  qed
qed

lemma valid_readHcloud:
  "gvalid g (readHcloudCredentials A dir) (\<lambda>cs r g'. g' = g \<and> tokens_set cs = [] \<and> robot_sets cs = [] \<and>
     (\<forall>t. r = Inr t \<longrightarrow> file_says cs t))"
  unfolding readHcloudCredentials_def
  by (rule gvalid_bind, rule gvalid_mono [OF token_loop]) (auto intro!: gvalid_return split: sum.splits)

lemma valid_set_cached:
  "gvalid g (SetCredentials A u p c) (\<lambda>cs r g'. g' = g \<and> cs = [RobotSetCredentials u p (fst r)])"
  unfolding SetCredentials_def request_defs
  by (intro gvalid_bind gvalid_request gvalid_return) (simp split: option.split)

lemma valid_loadRobot:
  "gvalid g (loadRobotCredentials A dir (Some (cached_client B)) c) (\<lambda>cs r g'. reloaded g cs g')"
  unfolding loadRobotCredentials_def option.case
proof (rule gvalid_bind, rule gvalid_mono [OF valid_readRobot], goal_cases)
  case (1 cs up g')
  show ?case
  proof (cases up)
    case (Inl e)
    with 1 show ?thesis by (auto intro!: gvalid_return reloaded_quiet)
  next
    case (Inr q)
    obtain u p where q: "q = (u, p)" by (cases q)
    show ?thesis
      unfolding Inr q sum.case prod.case cached_client_def robot_client.simps
      using 1 Inr q
      by (auto intro!: gvalid_rules gvalid_cases gvalid_mono [OF valid_set_cached]
          simp: reloaded_def tokens_follow_def robots_follow_def token_of_def robot_of_def count_robot_reload_def set_old_robot_def)
  qed
qed

lemma valid_loadHcloud: "gvalid g (loadHcloudCredentials A dir True) (\<lambda>cs r g'. reloaded g cs g')"
  unfolding loadHcloudCredentials_def
proof (rule gvalid_bind, rule gvalid_mono [OF valid_readHcloud], goal_cases)
  case (1 cs t g')
  show ?case
  proof (cases t)
    case (Inl e)
    with 1 show ?thesis by (auto intro!: gvalid_return reloaded_quiet)
  next
    case (Inr x)
    then show ?thesis
      unfolding Inr sum.case request_defs
      using 1 Inr
      by (auto intro!: gvalid_rules gvalid_cases
          simp: reloaded_def tokens_follow_def robots_follow_def token_of_def robot_of_def count_token_reload_def set_old_token_def)
  qed
qed

lemma valid_handle:
  "gvalid g (handleEvent A dir b True (Some (cached_client B)) c) (\<lambda>cs r g'. reloaded g cs g')"
proof -
  have data: "gvalid g (do {
      err \<leftarrow> loadHcloudCredentials A dir True;
      case err of
        Some e \<Rightarrow> ret (Some (wrap ''handleEvent ..data loadHcloudCredentials'' e), c)
      | None \<Rightarrow> do {
          (err, r) \<leftarrow> loadRobotCredentials A dir (Some (cached_client B)) c;
          ret (map_option (wrap ''handleEvent ..data loadRobotCredentials'') err, r)
        }
    }) (\<lambda>cs r g'. reloaded g cs g')"
  proof (rule gvalid_bind, rule gvalid_mono [OF valid_loadHcloud], goal_cases)
    case (1 cs err g1)
    show ?case
    proof (cases err)
      case None
      then show ?thesis
        using reloaded_append [OF 1]
        by (auto intro!: gvalid_bind gvalid_mono [OF valid_loadRobot] gvalid_return split: prod.splits)
    next
      case (Some e)
      then show ?thesis using 1 by (simp add: gvalid_return)
    qed
  qed
  have token: "gvalid g (do { err \<leftarrow> loadHcloudCredentials A dir True; ret (map_option (wrap ''handleEvent hcloud'') err, c) }) (\<lambda>cs r g'. reloaded g cs g')"
    by (rule gvalid_bind, rule gvalid_mono [OF valid_loadHcloud], rule gvalid_return) simp
  show ?thesis
    using data token valid_loadRobot [of g A dir B c]
    by (simp add: handleEvent_def gvalid_return reloaded_quiet cong: option.case_cong)
qed

lemma valid_watch: "gvalid g (watch_loop A dir True (Some (cached_client B)) items c) (\<lambda>cs r g'. reloaded g cs g')"
proof (induction items arbitrary: g c)
  case Nil
  show ?case by (simp add: gvalid_return reloaded_quiet)
next
  case (Cons item items)
  show ?case
  proof (cases item)
    case (FsError e)
    then show ?thesis using Cons.IH by simp
  next
    case (FsEvent ev)
    have "gvalid g (do {
        (err, r) \<leftarrow> handleEvent A dir (path_base (ev_name ev)) True (Some (cached_client B)) c;
        if err \<noteq> None \<and> is_panic (the err) then ret (err, r)
        else watch_loop A dir True (Some (cached_client B)) items r
      }) (\<lambda>cs r g'. reloaded g cs g')"
    proof (rule gvalid_bind, rule gvalid_mono [OF valid_handle], goal_cases)
      case (1 cs a g1)
      obtain err c1 where a: "a = (err, c1)" by (cases a)
      show ?case
        unfolding a prod.case
      proof (rule gvalid_cases(4), goal_cases)
        case 1
        show ?case using \<open>reloaded g cs g1\<close> by (simp add: gvalid_return)
      next
        case 2
        show ?case by (rule gvalid_mono [OF Cons.IH]) (rule reloaded_append [OF \<open>reloaded g cs g1\<close>])
      qed
    qed
    then show ?thesis using Cons.IH [of g c] FsEvent by simp
  qed
qed

text \<open>C19: Whatever the watcher delivers and whatever the files say at each read, with both clients present: every token
  handed to the cloud client is the trimmed content of a file read before and has 64 characters, every pair handed
  to the Robot client is such content, the same credentials are never handed over twice in a row, the package
  variables hold what was handed over last, and the reload counters grow by the number of the calls.\<close>

theorem reloads_follow_files:
  assumes "run_state (watch_loop A dir True (Some (cached_client B)) items c) s = (r, s')"
  shows "\<exists>cs. trace s' = trace s @ cs \<and> tokens_follow (globals s) cs (globals s') \<and> robots_follow (globals s) cs (globals s')"
  using gvalid_run [OF valid_watch assms] by (simp add: reloaded_def)

section \<open>Two reloads that go wrong\<close>

lemma read_globals_kept: "run_state (readRobotCredentials A dir) s = (up, s0) \<Longrightarrow> globals s0 = globals s"
  using gvalid_run [OF valid_readRobot] by blast

lemma load_after_read:
  assumes "run_state (readRobotCredentials A dir) s = (Inr (u, p), s0)"
  shows "run_state (loadRobotCredentials A dir client r) s =
    run_state (if robot_of (globals s) = (u, p) then ret (None, r)
      else do {
        _ \<leftarrow> modify_globals (\<lambda>g. count_robot_reload (set_old_robot u p g));
        case client of
          None \<Rightarrow> ret (Some nil_dereference, r)
        | Some C \<Rightarrow> do { (err, r) \<leftarrow> r_SetCredentials C u p r; ret (map_option (wrap ''SetCredentials'') err, r) }
      }) s0"
  using assms read_globals_kept [OF assms]
  by (auto simp: loadRobotCredentials_def read_globals_def robot_of_def)

text \<open>C37: A failed reload of the Robot credentials is lost. The package variables take the new credentials before the client
  does; when the client refuses them, the next event with the same files is taken for no change, reports
  success and does not call the client.\<close>

theorem failed_reload_not_retried:
  assumes "run_state (readRobotCredentials A dir) s = (Inr (u, p), s0)"
    and "run_state (loadRobotCredentials A dir (Some (cached_client B)) c) s = ((Some e, c1), s1)"
    and "run_state (readRobotCredentials A dir) s1 = (Inr (u, p), s2)"
  shows "run_state (loadRobotCredentials A dir (Some (cached_client B)) c1) s1 = ((None, c1), s2) \<and>
    (\<exists>cs. trace s2 = trace s1 @ cs \<and> robot_sets cs = [])"
proof -
  have new: "robot_of (globals s) \<noteq> (u, p)"
    using assms(2) unfolding load_after_read [OF assms(1)] by auto
  let ?set = "do { (err, r) \<leftarrow> SetCredentials B u p c; ret (map_option (wrap ''SetCredentials'') err, r) }"
  let ?g = "count_robot_reload (set_old_robot u p (globals s0))"
  have run: "run_state ?set (s0\<lparr>globals := ?g\<rparr>) = ((Some e, c1), s1)"
    using assms(2) new unfolding load_after_read [OF assms(1)] by (simp add: modify_globals_def cached_client_def)
  have "gvalid (globals (s0\<lparr>globals := ?g\<rparr>)) ?set (\<lambda>cs r g'. g' = ?g)"
    by (rule gvalid_bind, rule gvalid_mono [OF valid_set_cached]) (auto intro!: gvalid_return split: prod.splits)
  from gvalid_run [OF this run] have "globals s1 = ?g" by blast
  then have "robot_of (globals s1) = (u, p)" by (simp add: robot_of_def count_robot_reload_def set_old_robot_def)
  moreover have "\<exists>cs. trace s2 = trace s1 @ cs \<and> robot_sets cs = []" using gvalid_run [OF valid_readRobot assms(3)] by blast
  ultimately show ?thesis unfolding load_after_read [OF assms(3)] by simp
qed

text \<open>C38: Without a Robot client, which the comment on \<open>Watch\<close> allows, an event for one of the two Robot files that brings
  new credentials calls a method of the nil client, and the program crashes.\<close>

theorem nil_robot_client_panics:
  assumes "isValidEvent ev" and "path_base (ev_name ev) \<in> {''robot-user'', ''robot-password''}"
    and "run_state (readRobotCredentials A dir) s = (Inr (u, p), s0)" and "robot_of (globals s) \<noteq> (u, p)"
  shows "fst (fst (run_state (watch_loop A dir has_hcloud None (FsEvent ev # items) r) s)) = Some nil_dereference"
proof -
  have "handleEvent A dir (path_base (ev_name ev)) has_hcloud None r = loadRobotCredentials A dir None r"
    using assms(2) by (auto simp: handleEvent_def)
  moreover have "is_panic nil_dereference" by (simp add: nil_dereference_def)
  ultimately show ?thesis
    using assms(1,4) load_after_read [OF assms(3), of None r] by (simp add: modify_globals_def split: prod.split)
qed

section \<open>The theorems at concrete files\<close>

definition sample_token :: string where
  "sample_token = replicate 64 CHR ''t''"

text \<open>Files with new credentials, and a Robot client that refuses them.\<close>

definition secrets_api :: "goerr option \<Rightarrow> unit api" where
  "secrets_api e = quiet_api\<lparr>
     a_read_file := \<lambda>n w. (Inr (if path_base n = ''hcloud'' then sample_token @ [CHR 0x0A] else path_base n), w),
     a_robot_set_credentials := \<lambda>u p w. (e, w)\<rparr>"

definition first_world :: "(api_call, go_globals, unit) world" where
  "first_world = \<lparr>trace = [], globals = sample_globals, ext = ()\<rparr>"

definition data_event :: watch_item where
  "data_event = FsEvent \<lparr>ev_name = ''/etc/hetzner-secret/..data'', ev_write = False, ev_create = True\<rparr>"

theorem reloads_follow_files_witness:
  "\<exists>cs (s' :: (api_call, go_globals, unit) world). trace s' = cs \<and> tokens_set cs = [sample_token] \<and> robot_sets cs = [(''robot-user'', ''robot-password'')] \<and>
     tokens_follow sample_globals cs (globals s') \<and> robots_follow sample_globals cs (globals s')"
proof -
  let ?A = "secrets_api None"
  let ?m = "watch_loop ?A ''/etc/hetzner-secret'' True (Some (cached_client ?A)) [data_event, data_event] (fresh_client 60)"
  obtain r s' where r: "run_state ?m first_world = (r, s')" by (cases "run_state ?m first_world")
  have "tokens_set (trace (snd (run_state ?m first_world))) = [sample_token]"
    "robot_sets (trace (snd (run_state ?m first_world))) = [(''robot-user'', ''robot-password'')]"
    by code_simp+
  then have "tokens_set (trace s') = [sample_token]" "robot_sets (trace s') = [(''robot-user'', ''robot-password'')]" using r by simp_all
  with reloads_follow_files [OF r] show ?thesis by (auto simp: first_world_def)
qed

theorem failed_reload_not_retried_witness:
  "\<exists>s1 s2 c. run_state (loadRobotCredentials (secrets_api (Some ErrInvalid)) '''' (Some (cached_client (secrets_api (Some ErrInvalid)))) (fresh_client 60)) first_world =
      ((Some (wrap ''SetCredentials'' ErrInvalid), c), s1) \<and>
    run_state (loadRobotCredentials (secrets_api (Some ErrInvalid)) '''' (Some (cached_client (secrets_api (Some ErrInvalid)))) c) s1 = ((None, c), s2)"
proof -
  let ?A = "secrets_api (Some ErrInvalid)"
  let ?read = "readRobotCredentials ?A ''''"
  have read: "run_state ?read s = (Inr (''robot-user'', ''robot-password''), snd (run_state ?read s))" for s
  proof -
    have n: "path_base (path_join ['''', ''robot-user'']) = ''robot-user''" "path_base (path_join ['''', ''robot-password'']) = ''robot-password''"
      "trim_space ''robot-user'' = ''robot-user''" "trim_space ''robot-password'' = ''robot-password''" by code_simp+
    show ?thesis by (simp add: readRobotCredentials_def Let_def request_defs request_def secrets_api_def n)
  qed
  let ?load = "loadRobotCredentials ?A '''' (Some (cached_client ?A))"
  have "fst (fst (run_state (?load (fresh_client 60)) first_world)) = Some (wrap ''SetCredentials'' ErrInvalid)" by code_simp
  then obtain c s1 where run: "run_state (?load (fresh_client 60)) first_world = ((Some (wrap ''SetCredentials'' ErrInvalid), c), s1)"
    by (metis prod.collapse)
  from failed_reload_not_retried [OF read run read] run show ?thesis by blast
qed

theorem nil_robot_client_panics_witness:
  "fst (fst (run_state (watch_loop (secrets_api None) '''' True (None :: (unit, robot_cache) robot_client option)
     [FsEvent \<lparr>ev_name = ''robot-user'', ev_write = True, ev_create = False\<rparr>] (fresh_client 60)) first_world)) = Some nil_dereference"
proof -
  let ?ev = "\<lparr>ev_name = ''robot-user'', ev_write = True, ev_create = False\<rparr>"
  have v: "isValidEvent ?ev" and b: "path_base (ev_name ?ev) = ''robot-user''" by code_simp+
  let ?read = "readRobotCredentials (secrets_api None) ''''"
  have "fst (run_state ?read first_world) = Inr (''robot-user'', ''robot-password'')" by code_simp
  then obtain s0 where read: "run_state ?read first_world = (Inr (''robot-user'', ''robot-password''), s0)" by (metis prod.collapse)
  have new: "robot_of (globals first_world) \<noteq> (''robot-user'', ''robot-password'')" by code_simp
  show ?thesis by (rule nil_robot_client_panics [OF v _ read new]) (simp only: b insertI1)
qed

end
