(* ===== verification/Cloud.thy ===== *)
theory Cloud
  imports Credentials Instances LoadBalancers Routes
begin

text \<open>
  \<open>hcloud/cloud.go\<close>: the start of the provider from the environment, and the sub-providers it offers. The environment is
  read as a value. Quotation marks are left out of error texts.
\<close>

section \<open>Reading the environment\<close>

definition getEnvBool :: "environ \<Rightarrow> string \<Rightarrow> goerr + bool" where
  "getEnvBool env key =
     (case env key of
        None \<Rightarrow> Inr False
      | Some v \<Rightarrow> (case parse_bool v of
                     None \<Rightarrow> Inl (Msg (key @ '': strconv.ParseBool: parsing '' @ v @ '': invalid syntax''))
                   | Some b \<Rightarrow> Inr b))"

definition family_from_env :: "environ \<Rightarrow> string \<Rightarrow> goerr + family" where
  "family_from_env env key =
     (case env key of
        None \<Rightarrow> Inr IPv4
      | Some v \<Rightarrow> map_sum (wrap (''failed to parse '' @ key)) id (Parse v))"

definition addressFamilyFromEnv :: "environ \<Rightarrow> goerr + family" where
  "addressFamilyFromEnv env = family_from_env env ''HCLOUD_INSTANCES_ADDRESS_FAMILY''"

definition robotTargetFamilyFromEnv :: "environ \<Rightarrow> goerr + family" where
  "robotTargetFamilyFromEnv env = family_from_env env ''HCLOUD_LOAD_BALANCERS_ROBOT_TARGET_ADDRESS_FAMILY''"

text \<open>The defaults, and whether private ingress and IPv6 are disabled. The robot target family is set later.\<close>

definition loadBalancerDefaultsFromEnv :: "environ \<Rightarrow> goerr + lb_defaults \<times> bool \<times> bool" where
  "loadBalancerDefaultsFromEnv env =
     (let loc = getenv env ''HCLOUD_LOAD_BALANCERS_LOCATION''; zone = getenv env ''HCLOUD_LOAD_BALANCERS_NETWORK_ZONE''
      in if loc \<noteq> '''' \<and> zone \<noteq> '''' then
           Inl (Msg ''HCLOUD_LOAD_BALANCERS_LOCATION/HCLOUD_LOAD_BALANCERS_NETWORK_ZONE: Only one of these can be set'')
         else case getEnvBool env ''HCLOUD_LOAD_BALANCERS_DISABLE_PRIVATE_INGRESS'' of
                Inl e \<Rightarrow> Inl e
              | Inr priv \<Rightarrow>
                  (case getEnvBool env ''HCLOUD_LOAD_BALANCERS_DISABLE_IPV6'' of
                     Inl e \<Rightarrow> Inl e
                   | Inr v6 \<Rightarrow>
                       (case getEnvBool env ''HCLOUD_LOAD_BALANCERS_USE_PRIVATE_IP'' of
                          Inl e \<Rightarrow> Inl e
                        | Inr use \<Rightarrow> Inr (\<lparr>d_location = loc, d_network_zone = zone, d_use_private_ip = use, d_robot_target_family = DualStack\<rparr>, priv, v6))))"

section \<open>The clients\<close>

text \<open>A call with an error result: an error returns from the function, wrapped.\<close>

definition or_return :: "(goerr \<Rightarrow> goerr) \<Rightarrow> ('w, goerr + 'a) go \<Rightarrow> ('a \<Rightarrow> ('w, goerr + 'b) go) \<Rightarrow> ('w, goerr + 'b) go" where
  "or_return w m f = do {
     r \<leftarrow> m;
     case r of Inl e \<Rightarrow> ret (Inl (w e)) | Inr a \<Rightarrow> f a
   }"

text \<open>The token of the cloud client; the options for metrics, debugging and the endpoint do not come back in the code.\<close>

definition newHcloudClient :: "'w api \<Rightarrow> environ \<Rightarrow> string \<Rightarrow> ('w, goerr + string) go" where
  "newHcloudClient A env rootDir = (let dir = GetDirectory rootDir; v = getenv env ''HCLOUD_TOKEN'' in do {
     r \<leftarrow> GetInitialHcloudCredentialsFromDirectory A dir;
     ret (let t = (case r of Inl e \<Rightarrow> v | Inr t \<Rightarrow> t)
          in if isl r \<and> v = '''' then
               Inl (Msg (''either token from directory '' @ dir @ '' or environment variable HCLOUD_TOKEN is required''))
             else if length t \<noteq> 64 then Inl (Msg ''entered token is invalid (must be exactly 64 characters long)'')
             else Inr t)
   })"

definition serverIsAttachedToNetwork :: "'w api \<Rightarrow> int \<Rightarrow> ('w, goerr + bool) go" where
  "serverIsAttachedToNetwork A i = do {
     r \<leftarrow> metadata_networks A;
     ret (case r of
            Inl e \<Rightarrow> Inl (flatten ''serverIsAttachedToNetwork'' e)
          | Inr nets \<Rightarrow> Inr (contains nets (''network_id: '' @ format_int i @ [CHR 0x0A])))
   }"

text \<open>The part of \<open>newCloud\<close> that finds the network: 0 when the environment names none.\<close>

definition network_from_env :: "'w api \<Rightarrow> environ \<Rightarrow> ('w, goerr + int) go" where
  "network_from_env A env = (let op = ''hcloud/newCloud''; failed = wrap (op @ '': checking if server is in Network not possible'') in
     case env ''HCLOUD_NETWORK'' of
       None \<Rightarrow> ret (Inr 0)
     | Some v \<Rightarrow> or_return (wrap op) (network_lookup A v) (\<lambda>n.
         (case n of
            None \<Rightarrow> ret (Inl (Msg (op @ '': Network '' @ v @ '' not found'')))
          | Some n \<Rightarrow> or_return failed (ret (getEnvBool env ''HCLOUD_NETWORK_DISABLE_ATTACHED_CHECK'')) (\<lambda>disabled.
              if disabled then ret (Inr (nw_id n))
              else or_return failed (serverIsAttachedToNetwork A (nw_id n)) (\<lambda>attached.
                ret (if attached then Inr (nw_id n)
                     else Inl (Msg (op @ '': This node is not attached to Network '' @ v))))))))"

section \<open>The provider\<close>

text \<open>
  What the program takes from foreign code without naming it: the iteration orders of Go's maps, client-go's retry, and
  hcloud-go's tests for a missing address.
\<close>

record 'w runtime =
  rn_ord_hcloud :: "int \<Rightarrow> nat"
  rn_ord_robot :: "int \<Rightarrow> nat"
  rn_ord_ports :: "int \<Rightarrow> nat"
  rn_retry :: "('w, goerr option) go \<Rightarrow> ('w, goerr option) go"
  rn_no_ipv4 :: "ip \<Rightarrow> bool"
  rn_no_ipv6 :: "ip \<Rightarrow> bool"

record 'w cloud =
  cl_instances :: "('w, robot_cache) instances"
  cl_load_balancer :: "'w load_balancers option"
  cl_network_id :: int

definition newInstances :: "'w runtime \<Rightarrow> 'w api \<Rightarrow> bool \<Rightarrow> family \<Rightarrow> int \<Rightarrow> bool \<Rightarrow> ('w, robot_cache) instances" where
  "newInstances R A has_robot f i use_hrobot = \<lparr>in_api = A, in_robot = (if has_robot then Some (cached_client A) else None),
     in_family = f, in_network_id = i, in_use_hrobot = use_hrobot, in_no_ipv4 = rn_no_ipv4 R, in_no_ipv6 = rn_no_ipv6 R\<rparr>"

definition newLBOps :: "'w runtime \<Rightarrow> 'w api \<Rightarrow> bool \<Rightarrow> int \<Rightarrow> lb_defaults \<Rightarrow> 'w lb_ops" where
  "newLBOps R A has_robot i d = \<lparr>l_api = A, l_has_robot = has_robot, l_retry_delay = 0, l_network_id = i, l_defaults = d,
     l_ord_hcloud = rn_ord_hcloud R, l_ord_robot = rn_ord_robot R, l_ord_ports = rn_ord_ports R\<rparr>"

definition newLoadBalancers :: "'w runtime \<Rightarrow> 'w lb_ops \<Rightarrow> bool \<Rightarrow> bool \<Rightarrow> bool \<Rightarrow> 'w load_balancers" where
  "newLoadBalancers R L priv v6 restrict = \<lparr>lbs_ops = hcops_iface L, lbs_api = l_api L, lbs_disable_private_ingress = priv,
     lbs_disable_ipv6 = v6, lbs_restrict_node_port = restrict, lbs_has_k8s_client = False, lbs_retry = rn_retry R\<rparr>"

text \<open>
  The end of \<open>newCloud\<close>: the configuration of the sub-providers, a value of the environment, and the watch of the
  secrets directory.
\<close>

definition cloud_from_env :: "'w runtime \<Rightarrow> 'w api \<Rightarrow> environ \<Rightarrow> bool \<Rightarrow> int \<Rightarrow> goerr + 'w cloud" where
  "cloud_from_env R A env has_robot i =
     (case loadBalancerDefaultsFromEnv env of
        Inl e \<Rightarrow> Inl e
      | Inr (d, priv, v6) \<Rightarrow>
     (case robotTargetFamilyFromEnv env of
        Inl e \<Rightarrow> Inl e
      | Inr target \<Rightarrow>
     (case getEnvBool env ''HCLOUD_LOAD_BALANCERS_RESTRICT_NODE_PORT_SOURCE'' of
        Inl e \<Rightarrow> Inl e
      | Inr restrict \<Rightarrow>
     (case addressFamilyFromEnv env of
        Inl e \<Rightarrow> Inl e
      | Inr f \<Rightarrow>
     (case getEnvBool env ''HCLOUD_USE_HROBOT_PROVIDER_ID_FOR_BAREMETAL'' of
        Inl e \<Rightarrow> Inl e
      | Inr use_hrobot \<Rightarrow>
          Inr \<lparr>cl_instances = newInstances R A has_robot f i use_hrobot,
            cl_load_balancer =
              (if getenv env ''HCLOUD_LOAD_BALANCERS_ENABLED'' = ''false'' then None
               else Some (newLoadBalancers R (newLBOps R A has_robot i (d\<lparr>d_robot_target_family := target\<rparr>)) priv v6 restrict)),
            cl_network_id = i\<rparr>)))))"

definition newCloud :: "'w runtime \<Rightarrow> 'w api \<Rightarrow> environ \<Rightarrow> ('w, goerr + 'w cloud \<times> robot_cache option) go" where
  "newCloud R A env = (let op = wrap ''hcloud/newCloud'' in
     or_return op (getwd A) (\<lambda>rootDir.
     or_return op (newHcloudClient A env rootDir) (\<lambda>token.
     or_return op (NewCachedRobotClient A env rootDir True) (\<lambda>robot.
     or_return id (network_from_env A env) (\<lambda>i. do {
       listed \<leftarrow> server_list A;
       case listed of
         Some e \<Rightarrow> ret (Inl (op e))
       | None \<Rightarrow> or_return op (ret (cloud_from_env R A env (robot \<noteq> None) i)) (\<lambda>c. do {
           st \<leftarrow> stat A (GetDirectory rootDir);
           err \<leftarrow> (if st = None then Watch A (GetDirectory rootDir) else ret None);
           ret (case err of Some e \<Rightarrow> Inl (op e) | None \<Rightarrow> Inr (c, robot))
         })
     })))))"

section \<open>The interface of the provider\<close>

definition Initialize :: "bool \<Rightarrow> 'w cloud \<Rightarrow> 'w cloud" where
  "Initialize has_builder c =
     (case cl_load_balancer c of
        None \<Rightarrow> c
      | Some M \<Rightarrow> if \<not> has_builder then c else c\<lparr>cl_load_balancer := Some (M\<lparr>lbs_has_k8s_client := True\<rparr>)\<rparr>)"

definition InstancesV2 :: "'w cloud \<Rightarrow> ('w, robot_cache) instances option" where
  "InstancesV2 c = Some (cl_instances c)"

definition LoadBalancer :: "'w cloud \<Rightarrow> 'w load_balancers option" where
  "LoadBalancer c = cl_load_balancer c"

definition cloud_routes :: "'w api \<Rightarrow> environ \<Rightarrow> 'w cloud \<Rightarrow> ('w, routes option) go" where
  "cloud_routes A env c =
     (if 0 < cl_network_id c \<and> getenv env ''HCLOUD_NETWORK_ROUTES_ENABLED'' \<noteq> ''false'' then do {
        r \<leftarrow> newRoutes A (cl_network_id c);
        ret (case r of Inl e \<Rightarrow> None | Inr rt \<Rightarrow> Some rt)
      } else ret None)"

definition ProviderName :: string where "ProviderName = ''hcloud''"

definition HasClusterID :: bool where "HasClusterID = False"

text \<open>The interfaces that the provider does not offer.\<close>

definition legacy_Instances :: "'w cloud \<Rightarrow> unit option" where "legacy_Instances c = None"

definition Zones :: "'w cloud \<Rightarrow> unit option" where "Zones c = None"

definition Clusters :: "'w cloud \<Rightarrow> unit option" where "Clusters c = None"

end
