(* ===== verification/CloudCorrect.thy ===== *)
theory CloudCorrect
  imports Cloud LoadBalancersSafety
begin

text \<open>
  Correctness of the start: a provider that started has a well-formed configuration, the same in all its parts, and
  the load balancers it creates are placed where the configuration and the annotations say.
\<close>

section \<open>Starting\<close>

lemma valid_or_return:
  assumes "valid m (\<lambda>cs r. case r of Inl e \<Rightarrow> Q cs (Inl (w e)) | Inr a \<Rightarrow> valid (f a) (\<lambda>ds b. Q (cs @ ds) b))"
  shows "valid (or_return w m f) Q"
  unfolding or_return_def
  by (rule valid_bind, rule valid_mono [OF assms]) (auto intro!: valid_return split: sum.splits)

text \<open>The switches of the environment have boolean values and the address families are known.\<close>

definition switches :: "string list" where
  "switches = [''HCLOUD_LOAD_BALANCERS_DISABLE_PRIVATE_INGRESS'', ''HCLOUD_LOAD_BALANCERS_DISABLE_IPV6'',
     ''HCLOUD_LOAD_BALANCERS_USE_PRIVATE_IP'', ''HCLOUD_LOAD_BALANCERS_RESTRICT_NODE_PORT_SOURCE'',
     ''HCLOUD_USE_HROBOT_PROVIDER_ID_FOR_BAREMETAL'']"

definition switch_ok :: "environ \<Rightarrow> string \<Rightarrow> bool" where
  "switch_ok env k \<longleftrightarrow> (case env k of None \<Rightarrow> True | Some v \<Rightarrow> parse_bool v \<noteq> None)"

definition family_ok :: "environ \<Rightarrow> string \<Rightarrow> bool" where
  "family_ok env k \<longleftrightarrow> (case env k of None \<Rightarrow> True | Some v \<Rightarrow> to_lower v \<in> {''ipv4'', ''ipv6'', ''dualstack''})"

definition env_ok :: "environ \<Rightarrow> bool" where
  "env_ok env \<longleftrightarrow> list_all (switch_ok env) switches \<and>
     family_ok env ''HCLOUD_INSTANCES_ADDRESS_FAMILY'' \<and> family_ok env ''HCLOUD_LOAD_BALANCERS_ROBOT_TARGET_ADDRESS_FAMILY'' \<and>
     (getenv env ''HCLOUD_LOAD_BALANCERS_LOCATION'' = '''' \<or> getenv env ''HCLOUD_LOAD_BALANCERS_NETWORK_ZONE'' = '''')"

lemma getEnvBool_ok: "(\<exists>b. getEnvBool env k = Inr b) \<longleftrightarrow> switch_ok env k"
  by (auto simp: getEnvBool_def switch_ok_def split: option.split)

lemma family_from_env_ok: "(\<exists>f. family_from_env env k = Inr f) \<longleftrightarrow> family_ok env k"
proof -
  have "(\<exists>f. Parse v = Inr f) \<longleftrightarrow> to_lower v \<in> {''ipv4'', ''ipv6'', ''dualstack''}" for v
    by (auto simp: Parse_def Let_def)
  then show ?thesis
    by (cases "env k") (simp_all add: family_from_env_def family_ok_def)
qed

lemma cloud_from_env_ok: "(\<exists>c. cloud_from_env R A env has_robot i = Inr c) \<longleftrightarrow> env_ok env"
proof -
  have "(\<exists>x. loadBalancerDefaultsFromEnv env = Inr x) \<longleftrightarrow> list_all (switch_ok env) (take 3 switches) \<and>
      (getenv env ''HCLOUD_LOAD_BALANCERS_LOCATION'' = '''' \<or> getenv env ''HCLOUD_LOAD_BALANCERS_NETWORK_ZONE'' = '''')"
    unfolding loadBalancerDefaultsFromEnv_def Let_def switches_def by (auto simp flip: getEnvBool_ok split: sum.split)
  then show ?thesis
    unfolding env_ok_def switches_def cloud_from_env_def addressFamilyFromEnv_def robotTargetFamilyFromEnv_def
    by (auto simp flip: getEnvBool_ok family_from_env_ok split: sum.splits prod.splits)
qed

lemma cloud_from_env_cases:
  assumes "cloud_from_env R A env has_robot i = Inr c"
  obtains d priv v6 target restrict f use_hrobot where "loadBalancerDefaultsFromEnv env = Inr (d, priv, v6)"
    "c = \<lparr>cl_instances = newInstances R A has_robot f i use_hrobot,
       cl_load_balancer = (if getenv env ''HCLOUD_LOAD_BALANCERS_ENABLED'' = ''false'' then None
         else Some (newLoadBalancers R (newLBOps R A has_robot i (d\<lparr>d_robot_target_family := target\<rparr>)) priv v6 restrict)),
       cl_network_id = i\<rparr>"
  using assms unfolding cloud_from_env_def by (auto split: sum.splits prod.splits)

lemma defaults_place:
  "loadBalancerDefaultsFromEnv env = Inr (d, priv, v6) \<Longrightarrow>
     d_location d = getenv env ''HCLOUD_LOAD_BALANCERS_LOCATION'' \<and> d_network_zone d = getenv env ''HCLOUD_LOAD_BALANCERS_NETWORK_ZONE''"
  unfolding loadBalancerDefaultsFromEnv_def Let_def by (auto split: sum.splits if_splits)

text \<open>A provider with the same network and the same Robot client in all its parts.\<close>

definition configured_balancers :: "'w runtime \<Rightarrow> 'w api \<Rightarrow> environ \<Rightarrow> bool \<Rightarrow> int \<Rightarrow> 'w load_balancers \<Rightarrow> bool" where
  "configured_balancers R A env has_robot i M \<longleftrightarrow>
     (\<exists>d. lbs_ops M = hcops_iface (newLBOps R A has_robot i d) \<and> lbs_api M = A \<and> lbs_retry M = rn_retry R \<and>
        d_location d = getenv env ''HCLOUD_LOAD_BALANCERS_LOCATION'' \<and> d_network_zone d = getenv env ''HCLOUD_LOAD_BALANCERS_NETWORK_ZONE'')"

definition configured :: "'w runtime \<Rightarrow> 'w api \<Rightarrow> environ \<Rightarrow> bool \<Rightarrow> int \<Rightarrow> 'w cloud \<Rightarrow> bool" where
  "configured R A env has_robot i c \<longleftrightarrow> cl_network_id c = i \<and> in_network_id (cl_instances c) = i \<and> in_api (cl_instances c) = A \<and>
     in_robot (cl_instances c) = (if has_robot then Some (cached_client A) else None) \<and>
     (cl_load_balancer c = None \<longleftrightarrow> getenv env ''HCLOUD_LOAD_BALANCERS_ENABLED'' = ''false'') \<and>
     (\<forall>M. cl_load_balancer c = Some M \<longrightarrow> configured_balancers R A env has_robot i M)"

lemma cloud_from_env_configured:
  assumes "cloud_from_env R A env has_robot i = Inr c"
  shows "configured R A env has_robot i c"
proof (rule cloud_from_env_cases [OF assms], goal_cases)
  case (1 d priv v6 target restrict f use_hrobot)
  have "configured_balancers R A env has_robot i
      (newLoadBalancers R (newLBOps R A has_robot i (d\<lparr>d_robot_target_family := target\<rparr>)) priv v6 restrict)"
    unfolding configured_balancers_def newLoadBalancers_def using defaults_place [OF 1(1)]
    by (intro exI [of _ "d\<lparr>d_robot_target_family := target\<rparr>"]) (simp add: newLBOps_def)
  then show ?case
    unfolding 1(2) by (simp add: configured_def newInstances_def)
qed

text \<open>\<open>Initialize\<close> only hands a Kubernetes client to the load balancers.\<close>

lemma Initialize_configured: "configured R A env has_robot i c \<Longrightarrow> configured R A env has_robot i (Initialize b c)"
  by (auto simp: configured_def configured_balancers_def Initialize_def split: option.splits if_splits)

text \<open>What the log of a start shows of the network.\<close>

definition network_known :: "environ \<Rightarrow> int \<Rightarrow> api_call list \<Rightarrow> bool" where
  "network_known env i cs \<longleftrightarrow>
     (case env ''HCLOUD_NETWORK'' of
        None \<Rightarrow> i = 0
      | Some v \<Rightarrow> (\<exists>n. NetworkGet v (Inr (Some n)) \<in> set cs \<and> i = nw_id n) \<and>
          (getEnvBool env ''HCLOUD_NETWORK_DISABLE_ATTACHED_CHECK'' = Inr True \<or>
           (\<exists>nets. MetadataNetworks (Inr nets) \<in> set cs \<and> contains nets (''network_id: '' @ format_int i @ [CHR 0x0A]))))"

lemma valid_network_from_env:
  "valid (network_from_env A env) (\<lambda>cs r. (\<forall>c \<in> set cs. \<not> is_write c) \<and> (\<forall>i. r = Inr i \<longrightarrow> network_known env i cs))"
  unfolding network_from_env_def Let_def serverIsAttachedToNetwork_def request_defs
  by (auto intro!: valid_rules valid_or_return simp: network_known_def split: option.split sum.splits)

lemma initial_token_calls: "all_calls (\<lambda>c. \<not> is_write c) (GetInitialHcloudCredentialsFromDirectory A dir)"
  unfolding GetInitialHcloudCredentialsFromDirectory_def readHcloudCredentials_def token_body_def Let_def request_defs
  by (intro calls_rules; simp)

lemma start_calls:
  "all_calls (\<lambda>c. \<not> is_write c) (newHcloudClient A env dir)" "all_calls (\<lambda>c. \<not> is_write c) (NewCachedRobotClient A env dir b)"
  unfolding newHcloudClient_def NewCachedRobotClient_def GetInitialRobotCredentials_def readRobotCredentials_def Let_def request_defs
  by (intro calls_rules initial_token_calls; simp)+

definition token_ok :: "api_call list \<Rightarrow> goerr + string \<Rightarrow> bool" where
  "token_ok cs r \<longleftrightarrow> (\<forall>c \<in> set cs. \<not> is_write c) \<and> (\<forall>t. r = Inr t \<longrightarrow> length t = 64)"

lemma valid_token: "valid (newHcloudClient A env dir) token_ok"
  unfolding newHcloudClient_def Let_def
  by (rule valid_bind, rule valid_reads [OF initial_token_calls], rule valid_return) (auto simp: token_ok_def)

text \<open>What a start that succeeds has established.\<close>

definition started :: "'w runtime \<Rightarrow> 'w api \<Rightarrow> environ \<Rightarrow> api_call list \<Rightarrow> (goerr + 'w cloud \<times> robot_cache option) \<Rightarrow> bool" where
  "started R A env cs r \<longleftrightarrow> (\<forall>c \<in> set cs. \<not> is_write c) \<and>
     (\<forall>c robot. r = Inr (c, robot) \<longrightarrow> env_ok env \<and> configured R A env (robot \<noteq> None) (cl_network_id c) c \<and>
        network_known env (cl_network_id c) cs \<and> ServerList None \<in> set cs)"

lemma started_error: "\<forall>c \<in> set cs. \<not> is_write c \<Longrightarrow> started R A env cs (Inl e)"
  by (simp add: started_def)

lemma valid_finish:
  assumes "\<forall>c \<in> set cs. \<not> is_write c" and "network_known env i cs"
  shows "valid (do {
      listed \<leftarrow> server_list A;
      case listed of
        Some e \<Rightarrow> ret (Inl (op e))
      | None \<Rightarrow> or_return op (ret (cloud_from_env R A env (robot \<noteq> None) i)) (\<lambda>c. do {
          st \<leftarrow> stat A dir;
          err \<leftarrow> (if st = None then Watch A dir else ret None);
          ret (case err of Some e \<Rightarrow> Inl (op e) | None \<Rightarrow> Inr (c, robot))
        })
    }) (\<lambda>ds. started R A env (cs @ ds))"
proof -
  have known: "network_known env i (cs @ ds)" for ds
    using assms(2) by (auto simp: network_known_def split: option.splits)
  have ok: "started R A env (cs @ ds) (Inr (c, robot))"
    if "cloud_from_env R A env (robot \<noteq> None) i = Inr c" "ServerList None \<in> set ds" "\<forall>c \<in> set ds. \<not> is_write c" for c ds
  proof -
    have "configured R A env (robot \<noteq> None) i c" by (rule cloud_from_env_configured [OF that(1)])
    moreover have "env_ok env" using that(1) cloud_from_env_ok by metis
    ultimately show ?thesis using known [of ds] that(2,3) assms(1) by (auto simp: started_def configured_def)
  qed
  show ?thesis
    unfolding Watch_def request_defs
    using assms(1)
    by (auto intro!: valid_rules valid_or_return started_error ok split: option.split sum.split)
qed

lemma valid_newCloud: "valid (newCloud R A env) (started R A env)"
  unfolding newCloud_def Let_def
proof (rule valid_or_return, simp only: getwd_def, rule valid_request, goal_cases)
  case (1 wd)
  show ?case
  proof (cases wd)
    case (Inr dir)
    show ?thesis
      unfolding Inr sum.case
    proof (rule valid_or_return, rule valid_mono [OF valid_token], goal_cases)
      case (1 cs t)
      show ?case
      proof (cases t)
        case (Inr token)
        show ?thesis
          unfolding Inr sum.case
        proof (rule valid_or_return, rule valid_reads [OF start_calls(2)], goal_cases)
          case (1 ds robot)
          show ?case
          proof (cases robot)
            case (Inr rc)
            show ?thesis
              unfolding Inr sum.case
            proof (rule valid_or_return, rule valid_mono [OF valid_network_from_env], goal_cases)
              case (1 es n)
              let ?log = "[Getwd wd] @ cs @ ds @ es"
              have reads: "\<forall>c \<in> set ?log. \<not> is_write c"
                using 1 \<open>token_ok cs t\<close> \<open>\<forall>c \<in> set ds. \<not> is_write c\<close> by (auto simp: token_ok_def)
              show ?case
              proof (cases n)
                case (Inl e)
                then show ?thesis using reads by (simp add: started_error)
              next
                case (Inr i)
                then have "network_known env i ?log" using 1 by (auto simp: network_known_def split: option.splits)
                from valid_finish [OF reads this, of A "wrap ''hcloud/newCloud''" R rc] show ?thesis
                  unfolding Inr \<open>wd = Inr dir\<close> by (simp only: sum.case append_assoc append_Cons append_Nil)
              qed
            qed
          qed (use 1 \<open>token_ok cs t\<close> in \<open>auto intro!: started_error simp: token_ok_def\<close>)
        qed
      qed (use 1 in \<open>auto intro!: started_error simp: token_ok_def\<close>)
    qed
  qed (simp add: started_error)
qed


text \<open>A provider that started was configured from a well-formed environment: every switch is a boolean, the address
  families are known and location and network zone are not both set. Its parts agree: the instances, the load balancers and
  the routes share one network, the network that the API gave for the configured name, to which the node is attached unless
  that check is switched off, and one Robot client, present exactly when there are Robot credentials. The servers were listed, and nothing was
  written.\<close>

theorem newCloud_configured:
  assumes "runs (newCloud R A env) cs (Inr (c, robot))"
  shows "env_ok env \<and> configured R A env (robot \<noteq> None) (cl_network_id c) c \<and> network_known env (cl_network_id c) cs \<and>
    ServerList None \<in> set cs \<and> (\<forall>c \<in> set cs. \<not> is_write c)"
  using valid_runs [OF valid_newCloud assms] by (simp add: started_def)

section \<open>Where load balancers are created\<close>

lemma valid_run: "valid m Q \<Longrightarrow> valid m (\<lambda>cs a. Q cs a \<and> runs m cs a)"
  unfolding valid_def runs_def by (metis prod.collapse)

text \<open>A log in which every creation belongs to a run of the interface's \<open>Create\<close>.\<close>

definition creates_by :: "'w lb_iface \<Rightarrow> string \<Rightarrow> service \<Rightarrow> api_call list \<Rightarrow> bool" where
  "creates_by I n svc cs \<longleftrightarrow> (\<forall>opts q. LbCreate opts q \<in> set cs \<longrightarrow>
     (\<exists>ds r. runs (i_Create I n svc) ds r \<and> set ds \<subseteq> set cs \<and> LbCreate opts q \<in> set ds))"

lemma creates_by_Nil [simp]: "creates_by I n svc []"
  by (simp add: creates_by_def)

lemma creates_by_none: "\<forall>c \<in> set cs. \<not> is_create c \<Longrightarrow> creates_by I n svc cs"
  by (auto simp: creates_by_def)

lemma creates_by_append: "creates_by I n svc cs \<Longrightarrow> creates_by I n svc ds \<Longrightarrow> creates_by I n svc (cs @ ds)"
  unfolding creates_by_def by (metis Un_iff le_supI1 le_supI2 set_append)

lemma creates_by_run: "runs (i_Create I n svc) cs r \<Longrightarrow> creates_by I n svc cs"
  by (auto simp: creates_by_def)

lemma read_no_create: "reads_only cs \<Longrightarrow> creates_by I n svc cs"
  using reads_no_create by (auto simp: filter_empty_conv intro: creates_by_none)

context lb_lookup
begin

lemma find_or_create_creates:
  assumes "lbs_ops M = I"
  shows "valid (find_or_create M op svc) (\<lambda>cs r. creates_by I (GetLoadBalancerName M svc) svc cs)"
proof -
  have uid: "valid (i_GetByK8SServiceUID I svc) (\<lambda>cs r. creates_by I n svc cs)"
    and name: "valid (i_GetByName I m) (\<lambda>cs r. creates_by I n svc cs)" for n m
    by (rule valid_mono [OF uid_lookup] valid_mono [OF name_lookup], simp add: read_no_create)+
  have new: "valid (i_Create I n svc) (\<lambda>cs r. creates_by I n svc cs)" for n
    by (rule valid_mono [OF valid_run [OF creation]]) (blast intro: creates_by_run)
  show ?thesis
    unfolding find_or_create_def assms
    by (auto intro!: valid_bind valid_mono [OF uid] valid_mono [OF name] valid_mono [OF new] valid_return creates_by_append
      split: sum.split)
qed

lemma ensure_creates:
  assumes "lbs_ops M = I" and "retries_conflicts M"
  shows "valid (EnsureLoadBalancer M svc nodes) (\<lambda>cs r. creates_by I (GetLoadBalancerName M svc) svc cs)"
proof (cases "matchNodeSelector M svc nodes")
  case (Inr selected)
  show ?thesis
    unfolding EnsureLoadBalancer_def Let_def Inr sum.case
  proof (rule valid_bind, rule valid_mono [OF find_or_create_creates [OF assms(1)]], goal_cases)
    case (1 cs r)
    show ?case
    proof (cases r)
      case (Inr lb)
      show ?thesis
        unfolding Inr sum.case
        by (rule valid_mono [OF after_lookup_calls [OF assms, unfolded all_calls_def]])
          (use 1 ensure_call_no_create in \<open>blast intro: creates_by_append creates_by_none\<close>)
    qed (use 1 in \<open>simp add: valid_return\<close>)
  qed
qed (auto simp: EnsureLoadBalancer_def creates_by_def intro!: valid_return)

end

text \<open>
  The place that a service asks for: its annotations, or else the environment. An annotated empty location
  takes back the location of the environment.
\<close>

definition wanted :: "environ \<Rightarrow> annot \<Rightarrow> string \<Rightarrow> service \<Rightarrow> string" where
  "wanted env a key svc = (case svc_annotations svc (name_str a) of Some v \<Rightarrow> v | None \<Rightarrow> getenv env key)"

definition placed :: "string \<Rightarrow> string \<Rightarrow> int \<Rightarrow> lb_create_opts \<Rightarrow> api_call list \<Rightarrow> bool" where
  "placed loc zone i opts cs \<longleftrightarrow>
     (if loc \<noteq> '''' then co_location opts = Some loc \<and> co_network_zone opts = ''''
      else co_location opts = None \<and> co_network_zone opts = zone \<and> zone \<noteq> '''') \<and>
     (if 0 < i then \<exists>nw. NetworkGetByID i (Inr (Some nw)) \<in> set cs \<and> co_network opts = Some (nw_id nw)
      else co_network opts = None)"

lemma create_opts_placed:
  assumes "create_opts L n svc = Inr opts" and "d_location (l_defaults L) = getenv env ''HCLOUD_LOAD_BALANCERS_LOCATION''"
    and "d_network_zone (l_defaults L) = getenv env ''HCLOUD_LOAD_BALANCERS_NETWORK_ZONE''"
  shows "placed (wanted env LBLocation ''HCLOUD_LOAD_BALANCERS_LOCATION'' svc)
    (wanted env LBNetworkZone ''HCLOUD_LOAD_BALANCERS_NETWORK_ZONE'' svc) 0 opts cs"
  using assms
  by (auto simp: create_opts_def create_location_def create_zone_def wanted_def placed_def StringFromService_def Let_def
      split: if_splits sum.splits option.splits)

lemma create_network_placed:
  assumes "placed loc zone 0 opts []"
  shows "valid (create_network L opts) (\<lambda>cs r. reads_only cs \<and> (\<forall>opts'. r = Inr opts' \<longrightarrow> placed loc zone (l_network_id L) opts' cs))"
  using assms unfolding create_network_def request_defs Let_def
  by (auto intro!: valid_rules simp: reads_only_def placed_def split: sum.splits option.splits if_splits)

lemma create_public_placed: "create_public svc opts = Inr opts' \<Longrightarrow> placed loc zone i opts cs \<Longrightarrow> placed loc zone i opts' cs"
  by (auto simp: create_public_def placed_def split: sum.splits if_splits)

lemma placed_more: "placed loc zone i opts cs \<Longrightarrow> set cs \<subseteq> set ds \<Longrightarrow> placed loc zone i opts ds"
  by (auto simp: placed_def split: if_splits)

lemma Create_placed:
  assumes "\<And>opts. create_opts L n svc = Inr opts \<Longrightarrow> placed loc zone 0 opts []"
  shows "valid (Create L n svc) (\<lambda>cs r. \<forall>opts q. LbCreate opts q \<in> set cs \<longrightarrow> placed loc zone (l_network_id L) opts cs)"
proof (cases "create_opts L n svc")
  case (Inr opts)
  show ?thesis
    unfolding Create_def Let_def Inr sum.case
  proof (rule valid_bind, rule valid_mono [OF create_network_placed [OF assms [OF Inr]]], goal_cases)
    case (1 cs r)
    then have none: "LbCreate o' q \<notin> set cs" for o' q by (auto simp: reads_only_def)
    show ?case
    proof (cases "\<exists>opts1 opts2. r = Inr opts1 \<and> create_public svc opts1 = Inr opts2")
      case True
      then obtain opts1 opts2 where r: "r = Inr opts1" "create_public svc opts1 = Inr opts2" by blast
      with 1 have "placed loc zone (l_network_id L) opts2 cs" by (blast intro: create_public_placed)
      then have all: "placed loc zone (l_network_id L) opts2 (cs @ ds)" for ds by (rule placed_more) simp
      show ?thesis
        unfolding r sum.case GetByID_def request_defs
        by (auto intro!: valid_rules all simp: none split: sum.split option.split prod.split)
    qed (use none in \<open>auto intro!: valid_return split: sum.split\<close>)
  qed
qed (simp add: Create_def valid_return)

lemma created_placed:
  assumes "configured_balancers R A env has_robot i M" and "retry_law (a_is_kube_conflict A) (rn_retry R)"
    and "runs (EnsureLoadBalancer M svc nodes) ds res" and "LbCreate opts q \<in> set ds"
  shows "placed (wanted env LBLocation ''HCLOUD_LOAD_BALANCERS_LOCATION'' svc)
    (wanted env LBNetworkZone ''HCLOUD_LOAD_BALANCERS_NETWORK_ZONE'' svc) i opts ds" (is "placed ?loc ?zone i opts ds")
proof -
  obtain d where d: "lbs_ops M = hcops_iface (newLBOps R A has_robot i d)" "lbs_api M = A" "lbs_retry M = rn_retry R"
      "d_location d = getenv env ''HCLOUD_LOAD_BALANCERS_LOCATION''" "d_network_zone d = getenv env ''HCLOUD_LOAD_BALANCERS_NETWORK_ZONE''"
    using assms(1) unfolding configured_balancers_def by blast
  let ?L = "newLBOps R A has_robot i d"
  have L: "l_defaults ?L = d" "l_network_id ?L = i" by (simp_all add: newLBOps_def)
  have "retry_law (a_is_kube_conflict (lbs_api M)) (lbs_retry M)" using assms(2) d by simp
  from valid_runs [OF hcops_lookup.ensure_creates [OF d(1) this] assms(3)] assms(4)
  obtain es r where es: "runs (Create ?L (GetLoadBalancerName M svc) svc) es r" "set es \<subseteq> set ds" "LbCreate opts q \<in> set es"
    unfolding creates_by_def hcops_iface_def lb_iface.simps by blast
  have "placed ?loc ?zone 0 opts []" if "create_opts ?L (GetLoadBalancerName M svc) svc = Inr opts" for opts
    by (rule create_opts_placed [OF that]) (simp_all only: L d)
  from valid_runs [OF Create_placed [OF this] es(1)] es(3)
  have "placed ?loc ?zone (l_network_id ?L) opts es" by blast
  then show ?thesis using es(2) L by (simp add: placed_more)
qed

text \<open>C16: Every load balancer that a started provider creates is placed where the service's annotations say or, where they say
  nothing, where the environment of the provider says: at a location or in a network zone, never both and
  never neither, and in the provider's network, as the API gave it just before, exactly when there is one.\<close>

theorem created_where_configured:
  assumes "runs (newCloud R A env) cs (Inr (c, robot))" and "LoadBalancer (Initialize b c) = Some M"
    and "retry_law (a_is_kube_conflict A) (rn_retry R)"
    and "runs (EnsureLoadBalancer M svc nodes) ds res" and "LbCreate opts q \<in> set ds"
  shows "placed (wanted env LBLocation ''HCLOUD_LOAD_BALANCERS_LOCATION'' svc)
    (wanted env LBNetworkZone ''HCLOUD_LOAD_BALANCERS_NETWORK_ZONE'' svc) (cl_network_id c) opts ds"
proof -
  have "configured R A env (robot \<noteq> None) (cl_network_id c) (Initialize b c)"
    using valid_runs [OF valid_newCloud assms(1)] by (auto simp: started_def intro: Initialize_configured)
  then have "configured_balancers R A env (robot \<noteq> None) (cl_network_id c) M"
    using assms(2) unfolding configured_def LoadBalancer_def by blast
  then show ?thesis by (rule created_placed) (use assms in auto)
qed

section \<open>Concrete runs\<close>

text \<open>An outside with a secrets directory, one network and a node in it and one dedicated server, which refuses to create load balancers.\<close>

definition start_api :: "unit api" where
  "start_api = still_api\<lparr>
     a_read_file := \<lambda>n w. (Inr (if path_base n = ''hcloud'' then replicate 64 CHR ''t'' else path_base n), w),
     a_network_lookup := \<lambda>n w. (Inr (Some \<lparr>nw_id = 4, nw_name = n, nw_routes = []\<rparr>), w),
     a_metadata_networks := \<lambda>w. (Inr (''- network_id: 4'' @ [CHR 0x0A]), w),
     a_lb_get_by_name := \<lambda>n w. (Inr None, w), a_lb_create := \<lambda>opts w. (Inl (Msg ''full''), w),
     a_robot_list := \<lambda>w. (Inr [sample_robot], w)\<rparr>"

definition start_runtime :: "unit runtime" where
  "start_runtime = \<lparr>rn_ord_hcloud = (\<lambda>_. 0), rn_ord_robot = (\<lambda>_. 0), rn_ord_ports = (\<lambda>_. 0),
     rn_retry = retry_upto (a_is_kube_conflict start_api) 5, rn_no_ipv4 = (\<lambda>x. x = ''''), rn_no_ipv6 = (\<lambda>x. x = '''')\<rparr>"

definition start_env :: environ where
  "start_env = [''HCLOUD_NETWORK'' \<mapsto> ''nw'', ''HCLOUD_LOAD_BALANCERS_NETWORK_ZONE'' \<mapsto> ''eu-central'',
     ''HCLOUD_LOAD_BALANCERS_DISABLE_IPV6'' \<mapsto> ''true'', ''HCLOUD_USE_HROBOT_PROVIDER_ID_FOR_BAREMETAL'' \<mapsto> ''true'']"

definition start_defaults :: lb_defaults where
  "start_defaults = \<lparr>d_location = '''', d_network_zone = ''eu-central'', d_use_private_ip = False, d_robot_target_family = IPv4\<rparr>"

definition start_balancers :: "unit load_balancers" where
  "start_balancers = newLoadBalancers start_runtime (newLBOps start_runtime start_api True 4 start_defaults) False True False"

definition start_cloud :: "unit cloud" where
  "start_cloud = \<lparr>cl_instances = newInstances start_runtime start_api True IPv4 4 True,
     cl_load_balancer = Some start_balancers, cl_network_id = 4\<rparr>"

definition ensure_run :: "(service \<times> (goerr + ingress list)) \<times> api_call list" where
  "ensure_run = outcome (EnsureLoadBalancer (start_balancers\<lparr>lbs_has_k8s_client := True\<rparr>) (annotated [(LBLocation, ''fsn1'')]) []) sample_globals ()"

lemma start_configuration: "cloud_from_env start_runtime start_api start_env True 4 = Inr start_cloud"
proof -
  have "loadBalancerDefaultsFromEnv start_env = Inr (start_defaults\<lparr>d_robot_target_family := DualStack\<rparr>, False, True)"
    "robotTargetFamilyFromEnv start_env = Inr IPv4" "addressFamilyFromEnv start_env = Inr IPv4"
    "getEnvBool start_env ''HCLOUD_LOAD_BALANCERS_RESTRICT_NODE_PORT_SOURCE'' = Inr False"
    "getEnvBool start_env ''HCLOUD_USE_HROBOT_PROVIDER_ID_FOR_BAREMETAL'' = Inr True"
    "getenv start_env ''HCLOUD_LOAD_BALANCERS_ENABLED'' \<noteq> ''false''"
    by code_simp+
  then show ?thesis by (simp add: cloud_from_env_def start_cloud_def start_balancers_def start_defaults_def)
qed

lemma or_return_run: "run_state m s = (Inr a, s1) \<Longrightarrow> run_state (or_return w m f) s = run_state (f a) s1"
  by (simp add: or_return_def)

lemma start_parts:
  "fst (run_state (newHcloudClient start_api start_env ''/'') s) = Inr (replicate 64 CHR ''t'')"
  "map_sum id (map_option rc_timeout) (fst (run_state (NewCachedRobotClient start_api start_env ''/'' True) s)) = Inr (Some defaultCacheTimeout)"
  "fst (run_state (network_from_env start_api start_env) s) = Inr 4"
  by code_simp+

lemma start_succeeds:
  "\<exists>rc s1. run_state (newCloud start_runtime start_api start_env) s = (Inr (start_cloud, Some rc), s1)"
proof -
  let ?A = start_api and ?E = start_env
  obtain s0 where r0: "run_state (getwd ?A) s = (Inr ''/'', s0)" by (simp add: getwd_def request_def start_api_def still_api_def)
  obtain t s1 where r1: "run_state (newHcloudClient ?A ?E ''/'') s0 = (Inr t, s1)" using start_parts(1) [of s0] by (metis prod.collapse)
  obtain x s2 where r2: "run_state (NewCachedRobotClient ?A ?E ''/'' True) s1 = (x, s2)" by (metis prod.collapse)
  obtain rc where x: "x = Inr (Some rc)" using start_parts(2) [of s1] r2 by (cases x) auto
  obtain s3 where r3: "run_state (network_from_env ?A ?E) s2 = (Inr 4, s3)" using start_parts(3) [of s2] by (metis prod.collapse)
  have quiet: "a_server_list ?A = (\<lambda>w. (None, w))" "a_stat ?A = (\<lambda>n w. (None, w))" "a_watch_dir ?A = (\<lambda>n w. (None, w))"
    by (simp_all add: start_api_def still_api_def)
  show ?thesis
    unfolding newCloud_def Let_def or_return_run [OF r0] or_return_run [OF r1] or_return_run [OF r2 [unfolded x]] or_return_run [OF r3]
    by (simp add: start_configuration or_return_def Watch_def request_defs request_def quiet)
qed

theorem newCloud_configured_witness:
  "\<exists>cs c rc. runs (newCloud start_runtime start_api start_env) cs (Inr (c, Some rc)) \<and> cl_network_id c = 4 \<and>
     env_ok start_env \<and> network_known start_env 4 cs \<and> in_network_id (cl_instances c) = 4 \<and> cl_load_balancer c \<noteq> None"
proof -
  let ?s = "\<lparr>trace = [], globals = sample_globals, ext = ()\<rparr> :: (api_call, go_globals, unit) world"
  obtain rc s1 where "run_state (newCloud start_runtime start_api start_env) ?s = (Inr (start_cloud, Some rc), s1)"
    using start_succeeds by blast
  then have run: "runs (newCloud start_runtime start_api start_env) (trace s1) (Inr (start_cloud, Some rc))"
    unfolding runs_def by (intro exI [of _ ?s] exI [of _ s1]) simp
  from newCloud_configured [OF this] run show ?thesis
    by (intro exI [of _ "trace s1"] exI [of _ start_cloud] exI [of _ rc]) (simp add: start_cloud_def configured_def)
qed

theorem created_where_configured_witness:
  "\<exists>cs M rc ds res opts q. runs (newCloud start_runtime start_api start_env) cs (Inr (start_cloud, Some rc)) \<and>
     LoadBalancer (Initialize True start_cloud) = Some M \<and>
     runs (EnsureLoadBalancer M (annotated [(LBLocation, ''fsn1'')]) []) ds res \<and> LbCreate opts q \<in> set ds \<and>
     co_location opts = Some ''fsn1'' \<and> co_network_zone opts = '''' \<and> co_network opts = Some 4"
proof -
  let ?s = "\<lparr>trace = [], globals = sample_globals, ext = ()\<rparr> :: (api_call, go_globals, unit) world"
  let ?M = "start_balancers\<lparr>lbs_has_k8s_client := True\<rparr>" and ?svc = "annotated [(LBLocation, ''fsn1'')]"
  obtain rc s1 where "run_state (newCloud start_runtime start_api start_env) ?s = (Inr (start_cloud, Some rc), s1)"
    using start_succeeds by blast
  then have start: "runs (newCloud start_runtime start_api start_env) (trace s1) (Inr (start_cloud, Some rc))"
    unfolding runs_def by (intro exI [of _ ?s] exI [of _ s1]) simp
  have M: "LoadBalancer (Initialize True start_cloud) = Some ?M" by (simp add: LoadBalancer_def Initialize_def start_cloud_def)
  have law: "retry_law (a_is_kube_conflict start_api) (rn_retry start_runtime)"
    by (simp add: start_runtime_def retry_upto_law)
  have run: "runs (EnsureLoadBalancer ?M ?svc []) (snd ensure_run) (fst ensure_run)" unfolding ensure_run_def by (rule runs_self)
  have "list_ex is_create (snd ensure_run)" by code_simp
  then obtain opts q where create: "LbCreate opts q \<in> set (snd ensure_run)" unfolding list_ex_iff is_create_iff by blast
  have place: "wanted start_env LBLocation ''HCLOUD_LOAD_BALANCERS_LOCATION'' ?svc = ''fsn1''" by code_simp
  have nets: "list_all (\<lambda>c. case c of NetworkGetByID i (Inr (Some n)) \<Rightarrow> nw_id n = 4 | _ \<Rightarrow> True) (snd ensure_run)" by code_simp
  have id: "cl_network_id start_cloud = 4" by (simp add: start_cloud_def)
  have "co_location opts = Some ''fsn1'' \<and> co_network_zone opts = '''' \<and> co_network opts = Some 4"
    using created_where_configured [OF start M law run create] nets
    unfolding placed_def place id by (auto simp: list_all_iff)
  with start M run create show ?thesis by blast
qed

end
