(* ===== verification/Controller.thy ===== *)
theory Controller
  imports CloudCorrect CredentialsCorrect RobotBackoff RoutesHistory
begin

text \<open>
  The program as a whole: after a start, the framework calls the handlers of nodes, services and routes and the watcher
  delivers events, in any order. The invariant says what the program may have changed at the Hetzner API
  after any such history.
\<close>

section \<open>Histories of the program\<close>

text \<open>
  A state is the provider, the Robot client, and the routes provider once the framework has asked for it. Each step is a
  whole handler. The history keeps for every step what the framework asked for and the calls of that run. The outside
  may be in any state when a step begins, so whatever else changes between two steps is covered.
\<close>

datatype work =
    Started
  | RoutesAsked
  | NodeHandled
  | ServiceEnsured service
  | ServiceUpdated service
  | ServiceDeleted service
  | RoutesListed
  | RouteCreated k8s_route
  | RouteDeleted k8s_route
  | SecretChanged

type_synonym history = "(work \<times> api_call list) list"

definition calls :: "history \<Rightarrow> api_call list" where
  "calls h = concat (map snd h)"

definition client_of :: "'w api \<Rightarrow> robot_cache option \<Rightarrow> ('w, robot_cache) robot_client option" where
  "client_of A robot = (if robot = None then None else Some (cached_client A))"

definition cache_of :: "robot_cache option \<Rightarrow> robot_cache" where
  "cache_of robot = (case robot of Some r \<Rightarrow> r | None \<Rightarrow> fresh_client 0)"

inductive controller :: "'w runtime \<Rightarrow> 'w api \<Rightarrow> environ \<Rightarrow> history \<Rightarrow> 'w cloud \<Rightarrow> robot_cache option \<Rightarrow> routes option \<Rightarrow> bool"
  for R :: "'w runtime" and A :: "'w api" and env :: environ where
  started_up: "runs (newCloud R A env) cs (Inr (c, robot)) \<Longrightarrow> controller R A env [(Started, cs)] (Initialize b c) robot None"
| asked_for_routes: "controller R A env h c robot rt \<Longrightarrow> runs (cloud_routes A env c) ds (Some rt') \<Longrightarrow>
    controller R A env (h @ [(RoutesAsked, ds)]) c robot (Some rt')"
| node_handled: "controller R A env h c robot rt \<Longrightarrow> InstancesV2 c = Some I \<Longrightarrow> runs (node_step I op (cache_of robot)) ds r \<Longrightarrow>
    controller R A env (h @ [(NodeHandled, ds)]) c (map_option (\<lambda>_. r) robot) rt"
| service_ensured: "controller R A env h c robot rt \<Longrightarrow> LoadBalancer c = Some M \<Longrightarrow>
    runs (EnsureLoadBalancer M svc nodes) ds res \<Longrightarrow> controller R A env (h @ [(ServiceEnsured svc, ds)]) c robot rt"
| service_updated: "controller R A env h c robot rt \<Longrightarrow> LoadBalancer c = Some M \<Longrightarrow>
    runs (UpdateLoadBalancer M svc nodes) ds err \<Longrightarrow> controller R A env (h @ [(ServiceUpdated svc, ds)]) c robot rt"
| service_deleted: "controller R A env h c robot rt \<Longrightarrow> LoadBalancer c = Some M \<Longrightarrow>
    runs (EnsureLoadBalancerDeleted M svc) ds err \<Longrightarrow> controller R A env (h @ [(ServiceDeleted svc, ds)]) c robot rt"
| routes_listed: "controller R A env h c robot (Some rt) \<Longrightarrow> runs (ListRoutes A rt) ds (r, rt') \<Longrightarrow>
    controller R A env (h @ [(RoutesListed, ds)]) c robot (Some rt')"
| route_created: "controller R A env h c robot (Some rt) \<Longrightarrow> runs (CreateRoute A n route rt) ds (e, rt') \<Longrightarrow>
    controller R A env (h @ [(RouteCreated route, ds)]) c robot (Some rt')"
| route_deleted: "controller R A env h c robot (Some rt) \<Longrightarrow> runs (DeleteRoute A n route rt) ds e \<Longrightarrow>
    controller R A env (h @ [(RouteDeleted route, ds)]) c robot (Some rt)"
| secret_changed: "controller R A env h c robot rt \<Longrightarrow>
    runs (watch_loop A dir True (client_of A robot) [item] (cache_of robot)) ds (e, r) \<Longrightarrow>
    controller R A env (h @ [(SecretChanged, ds)]) c (map_option (\<lambda>_. r) robot) rt"

section \<open>What a history may have changed\<close>

text \<open>A deletion is of the unprotected load balancer that the API gave for the service to be deleted.\<close>

definition deletes_justified :: "work \<Rightarrow> api_call list \<Rightarrow> bool" where
  "deletes_justified w cs \<longleftrightarrow> (\<forall>i r. LbDelete i r \<in> set cs \<longrightarrow>
     (\<exists>svc lb. w = ServiceDeleted svc \<and> lb_id lb = i \<and> \<not> lb_protected lb \<and> LbList (uid_selector svc) (Inr [lb]) \<in> set cs))"

text \<open>
  A creation is for the service to be ensured, when it has no load balancer: labelled with its UID and placed
  where its annotations and the environment say.
\<close>

definition place_of :: "environ \<Rightarrow> int \<Rightarrow> service \<Rightarrow> lb_create_opts \<Rightarrow> api_call list \<Rightarrow> bool" where
  "place_of env i svc opts cs \<longleftrightarrow> placed (wanted env LBLocation ''HCLOUD_LOAD_BALANCERS_LOCATION'' svc)
     (wanted env LBNetworkZone ''HCLOUD_LOAD_BALANCERS_NETWORK_ZONE'' svc) i opts cs"

definition creates_justified :: "environ \<Rightarrow> int \<Rightarrow> work \<Rightarrow> api_call list \<Rightarrow> bool" where
  "creates_justified env i w cs \<longleftrightarrow> (\<forall>opts r. LbCreate opts r \<in> set cs \<longrightarrow>
     (\<exists>svc. w = ServiceEnsured svc \<and> co_labels opts LabelServiceUID = Some (svc_uid svc) \<and>
        LbList (uid_selector svc) (Inr []) \<in> set cs \<and> place_of env i svc opts cs))"

text \<open>Routes are added and deleted for the route that the framework asked to create or to delete.\<close>

fun adds_for :: "work \<Rightarrow> network_route \<Rightarrow> bool" where
  "adds_for (RouteCreated route) q = (ParseCIDR (ro_destination route) = Some (nr_destination q))"
| "adds_for w q = False"

fun removes_for :: "work \<Rightarrow> network_route \<Rightarrow> bool" where
  "removes_for (RouteCreated route) q = (destination_text q = ro_destination route)"
| "removes_for (RouteDeleted route) q = (ParseCIDR (ro_destination route) = Some (nr_destination q))"
| "removes_for w q = False"

definition routes_justified :: "environ \<Rightarrow> int \<Rightarrow> work \<Rightarrow> api_call list \<Rightarrow> bool" where
  "routes_justified env i w cs \<longleftrightarrow>
     (\<forall>(j, q, a) \<in> set (adds cs). j = i \<and> adds_for w q) \<and> (\<forall>(j, q, a) \<in> set (removes cs). j = i \<and> removes_for w q) \<and>
     (adds cs \<noteq> [] \<or> removes cs \<noteq> [] \<longrightarrow> 0 < i \<and> getenv env ''HCLOUD_NETWORK_ROUTES_ENABLED'' \<noteq> ''false'')"

definition lb_life :: "api_call \<Rightarrow> bool" where
  "lb_life c \<longleftrightarrow> is_create c \<or> is_delete c"

definition changes_allowed :: "environ \<Rightarrow> int \<Rightarrow> work \<Rightarrow> api_call list \<Rightarrow> bool" where
  "changes_allowed env i w cs \<longleftrightarrow> deletes_justified w cs \<and> creates_justified env i w cs \<and> routes_justified env i w cs \<and>
     ((\<exists>c \<in> set cs. lb_life c) \<longrightarrow> getenv env ''HCLOUD_LOAD_BALANCERS_ENABLED'' \<noteq> ''false'')"

text \<open>A log without creations, deletions and changes of routes is allowed.\<close>

fun route_write :: "api_call \<Rightarrow> bool" where
  "route_write (NetworkAddRoute i q a) = True"
| "route_write (NetworkDeleteRoute i q a) = True"
| "route_write c = False"

lemma no_route_write: "\<forall>c \<in> set cs. \<not> route_write c \<Longrightarrow> adds cs = [] \<and> removes cs = []"
proof (induction cs)
  case (Cons c cs)
  then show ?case by (cases c) auto
qed simp

lemma no_life: "\<forall>c \<in> set cs. \<not> lb_life c \<Longrightarrow> deletes_justified w cs \<and> creates_justified env i w cs \<and> \<not> (\<exists>c \<in> set cs. lb_life c)"
  by (fastforce simp: lb_life_def deletes_justified_def creates_justified_def)

lemma allowed_quiet: "\<forall>c \<in> set cs. \<not> lb_life c \<and> \<not> route_write c \<Longrightarrow> changes_allowed env i w cs"
  using no_life [of cs] no_route_write [of cs] by (simp add: changes_allowed_def routes_justified_def)

lemma quiet_calls:
  "\<not> is_write c \<Longrightarrow> \<not> lb_life c \<and> \<not> route_write c"
  "touches_only i c \<Longrightarrow> \<not> lb_life c \<and> \<not> route_write c"
  "kube_call c \<Longrightarrow> \<not> lb_life c \<and> \<not> route_write c"
  by (cases c; simp add: lb_life_def)+

lemma allowed_reads: "\<forall>c \<in> set cs. \<not> is_write c \<Longrightarrow> changes_allowed env i w cs"
  by (intro allowed_quiet ballI) (simp add: quiet_calls(1))

section \<open>The handlers\<close>

lemma client_reads:
  "all_calls (\<lambda>c. \<not> is_write c) (r_ServerGet (cached_client A) i r)"
  "all_calls (\<lambda>c. \<not> is_write c) (r_ServerGetList (cached_client A) r)"
  "all_calls (\<lambda>c. \<not> is_write c) (r_ServerGetListForceRefresh (cached_client A) n r)"
  "all_calls (\<lambda>c. \<not> is_write c) (r_SetCredentials (cached_client A) u p r)"
  unfolding cached_client_def robot_client.simps ServerGet_def ServerGetList_def ServerGetListForceRefresh_def SetCredentials_def
    syncIfNeeded_def shouldSync_def nodeHasAlreadyForcedRefresh_def request_defs Let_def
  by (intro calls_rules; simp)+

lemma limiter_reads:
  "all_calls (\<lambda>c. \<not> is_write c) (IsRateLimitExceeded A obj)" "all_calls (\<lambda>c. \<not> is_write c) (HandleRateLimitExceededError A e obj)"
  "all_calls (\<lambda>c. \<not> is_write c) (rate_limited op)"
  unfolding IsRateLimitExceeded_def HandleRateLimitExceededError_def SetRateLimit_def rate_limited_def request_defs
  by (intro calls_rules; simp)+

lemma node_reads:
  assumes "in_robot I = None \<or> in_robot I = Some (cached_client B)"
  shows "all_calls (\<lambda>c. \<not> is_write c) (node_step I op r)"
proof -
  have "all_calls (\<lambda>c. \<not> is_write c) (getRobotServerByName A (in_robot I) node r)"
    "all_calls (\<lambda>c. \<not> is_write c) (getRobotServerByID A (in_robot I) i node r)" for A node r i
    using assms unfolding getRobotServerByName_def getRobotServerByID_def Let_def
    by (auto intro!: calls_rules client_reads limiter_reads split: option.split)
  then have "all_calls (\<lambda>c. \<not> is_write c) (lookupServer I node r)" for node
    unfolding lookupServer_def getHCloudServerByID_def getHCloudServerByName_def request_defs
    by (intro calls_rules; simp)
  then show ?thesis
    by (cases op) (simp_all add: InstanceExists_def InstanceShutdown_def InstanceMetadata_def calls_rules)
qed

lemma secret_reads:
  assumes "client = None \<or> client = Some (cached_client B)"
  shows "all_calls (\<lambda>c. \<not> is_write c) (watch_loop A dir h client [item] r)"
proof -
  have token: "all_calls (\<lambda>c. \<not> is_write c) (loadHcloudCredentials A dir h)" for h
    unfolding loadHcloudCredentials_def readHcloudCredentials_def token_body_def Let_def request_defs
    by (intro calls_rules; simp)
  have robot: "all_calls (\<lambda>c. \<not> is_write c) (loadRobotCredentials A dir client r)" for r
    unfolding loadRobotCredentials_def readRobotCredentials_def Let_def request_defs
    using assms by (auto intro!: calls_rules client_reads split: option.split)
  have "all_calls (\<lambda>c. \<not> is_write c) (handleEvent A dir b h client r)" for b r
    unfolding handleEvent_def by (intro calls_rules token robot)
  then show ?thesis
    by (cases item) (simp_all add: calls_rules)
qed

lemma route_calls:
  "all_calls (\<lambda>c. \<not> lb_life c) (CreateRoute A n route rt)" "all_calls (\<lambda>c. \<not> lb_life c) (DeleteRoute A n route rt)"
  "all_calls (\<lambda>c. \<not> lb_life c) (ListRoutes A rt)" "all_calls (\<lambda>c. \<not> lb_life c) (newRoutes A i)"
proof -
  have cache: "all_calls (\<lambda>c. \<not> lb_life c) (getCache A get c)" for get c
    by (rule all_calls_mono [OF getCache_calls]) (auto simp: lb_life_def elim: cache_call.elims)
  show "all_calls (\<lambda>c. \<not> lb_life c) (CreateRoute A n route rt)"
  proof (induction n arbitrary: rt)
    case (Suc n)
    show ?case
      unfolding CreateRoute.simps target_address_def checkIfRouteAlreadyExists_def reloadNetwork_def ByName_def Let_def request_defs
      by (intro calls_rules cache Suc.IH; simp add: lb_life_def)
  qed (simp add: all_calls_return)
  have loop: "all_calls (\<lambda>c. \<not> lb_life c) (deleteRouteFromHcloud A n cidr x rt)" for cidr x
  proof (induction n)
    case (Suc n)
    show ?case
      unfolding deleteRouteFromHcloud.simps Let_def request_defs by (intro calls_rules Suc.IH; simp add: lb_life_def)
  qed (simp add: all_calls_return)
  show "all_calls (\<lambda>c. \<not> lb_life c) (DeleteRoute A n route rt)"
    unfolding DeleteRoute_def Let_def by (intro calls_rules loop)
  show "all_calls (\<lambda>c. \<not> lb_life c) (ListRoutes A rt)" "all_calls (\<lambda>c. \<not> lb_life c) (newRoutes A i)"
    unfolding ListRoutes_def list_body_def hcloudRouteToRoute_def reloadNetwork_def ByPrivateIP_def newRoutes_def Let_def request_defs
    by (intro calls_rules cache; simp add: lb_life_def)+
qed

lemma routes_allowed:
  assumes "all_calls (\<lambda>c. \<not> lb_life c) m" and "runs m ds a"
    and "\<forall>(j, q, a) \<in> set (adds ds). j = i \<and> adds_for w q" and "\<forall>(j, q, a) \<in> set (removes ds). j = i \<and> removes_for w q"
    and "0 < i" and "getenv env ''HCLOUD_NETWORK_ROUTES_ENABLED'' \<noteq> ''false''"
  shows "changes_allowed env i w ds"
  using no_life [of ds w env i] all_calls_runs [OF assms(1,2)] assms(3-6) by (simp add: changes_allowed_def routes_justified_def)

lemma labelled_quiet: "labelled_create n svc c \<Longrightarrow> \<not> is_create c \<Longrightarrow> \<not> lb_life c \<and> \<not> route_write c"
  by (cases c) (auto simp: labelled_create_def lb_life_def)

lemma service_allowed:
  assumes M: "configured_balancers R A env has_robot i M" and retry: "retry_law (a_is_kube_conflict A) (rn_retry R)"
    and on: "getenv env ''HCLOUD_LOAD_BALANCERS_ENABLED'' \<noteq> ''false''"
  shows "runs (EnsureLoadBalancer M svc nodes) ds res \<Longrightarrow> changes_allowed env i (ServiceEnsured svc) ds"
    and "runs (UpdateLoadBalancer M svc nodes) ds err \<Longrightarrow> changes_allowed env i w ds"
    and "runs (EnsureLoadBalancerDeleted M svc) ds err \<Longrightarrow> changes_allowed env i (ServiceDeleted svc) ds"
proof -
  obtain d where d: "lbs_ops M = hcops_iface (newLBOps R A has_robot i d)" "lbs_api M = A" "lbs_retry M = rn_retry R"
    using M unfolding configured_balancers_def by blast
  then have law: "retry_law (a_is_kube_conflict (lbs_api M)) (lbs_retry M)" using retry by simp
  show "changes_allowed env i (ServiceEnsured svc) ds" if run: "runs (EnsureLoadBalancer M svc nodes) ds res"
  proof -
    from valid_runs [OF hcops_lookup.ensure_safe [OF d(1) law] run] obtain pre post j where
      ds: "ds = pre @ post" "created_if_absent (hcops_gone (newLBOps R A has_robot i d)) (GetLoadBalancerName M svc) svc pre"
        "\<forall>c \<in> set post. ensure_call j c"
      by blast
    have post: "\<not> lb_life c \<and> \<not> route_write c" if "c \<in> set post" for c
      using ds(3) that quiet_calls by (auto simp: ensure_call_def)
    have quiet: "\<not> is_delete c \<and> \<not> route_write c" if "c \<in> set ds" for c
      using that post ds(1,2) labelled_quiet labelled_create_kind
      by (fastforce simp: created_if_absent_def lb_life_def elim: is_create.elims)
    have "co_labels opts LabelServiceUID = Some (svc_uid svc) \<and> LbList (uid_selector svc) (Inr []) \<in> set ds" if "LbCreate opts q \<in> set ds" for opts q
    proof -
      have "LbCreate opts q \<in> set pre" using that post [of "LbCreate opts q"] ds(1) by (auto simp: lb_life_def)
      moreover from this have "filter is_create pre \<noteq> []" by (auto simp: filter_empty_conv intro: bexI [of _ "LbCreate opts q"])
      ultimately show ?thesis using ds(1,2) by (auto simp: created_if_absent_def labelled_create_def absent_uid_def)
    qed
    then have "creates_justified env i (ServiceEnsured svc) ds"
      using created_placed [OF M retry run] unfolding creates_justified_def place_of_def by blast
    moreover have "deletes_justified (ServiceEnsured svc) ds" using quiet by (fastforce simp: deletes_justified_def)
    ultimately show ?thesis using no_route_write [of ds] quiet on by (simp add: changes_allowed_def routes_justified_def)
  qed
  show "changes_allowed env i w ds" if "runs (UpdateLoadBalancer M svc nodes) ds err"
  proof -
    from valid_runs [OF hcops_lookup.update_safe [OF d(1)] that]
    have "reads_only ds \<or> (\<exists>j. \<forall>c \<in> set ds. touches_only j c)" by blast
    then show ?thesis using quiet_calls by (intro allowed_quiet) (auto simp: reads_only_def)
  qed
  show "changes_allowed env i (ServiceDeleted svc) ds" if "runs (EnsureLoadBalancerDeleted M svc) ds err"
  proof -
    from valid_runs [OF hcops_lookup.ensure_deleted_safe [OF d(1) law] that]
    have writes: "is_write c \<longrightarrow> kube_call c \<or> (\<exists>lb r. c = LbDelete (lb_id lb) r \<and> \<not> lb_protected lb \<and>
        LbList (uid_selector svc) (Inr [lb]) \<in> set ds)" if "c \<in> set ds" for c
      using that by blast
    then have "\<not> is_create c \<and> \<not> route_write c" if "c \<in> set ds" for c
      using that quiet_calls(1,3) [of c] by (fastforce simp: lb_life_def)
    moreover have "deletes_justified (ServiceDeleted svc) ds" using writes by (fastforce simp: deletes_justified_def)
    ultimately show ?thesis
      using no_route_write [of ds] on by (fastforce simp: changes_allowed_def creates_justified_def routes_justified_def)
  qed
qed

section \<open>The invariant\<close>

definition controller_ok :: "'w runtime \<Rightarrow> 'w api \<Rightarrow> environ \<Rightarrow> history \<Rightarrow> 'w cloud \<Rightarrow> routes option \<Rightarrow> bool" where
  "controller_ok R A env h c rt \<longleftrightarrow> (\<exists>has_robot. configured R A env has_robot (cl_network_id c) c) \<and>
     (\<forall>(w, ds) \<in> set h. changes_allowed env (cl_network_id c) w ds) \<and>
     (\<forall>rt'. rt = Some rt' \<longrightarrow> routes_ok rt' \<and> nw_id (rt_network rt') = cl_network_id c \<and> 0 < cl_network_id c \<and>
        getenv env ''HCLOUD_NETWORK_ROUTES_ENABLED'' \<noteq> ''false'')"

lemma ok_step:
  assumes "controller_ok R A env h c rt" and "changes_allowed env (cl_network_id c) w ds"
  shows "controller_ok R A env (h @ [(w, ds)]) c rt"
  using assms by (auto simp: controller_ok_def)

lemma ok_route_step:
  assumes "controller_ok R A env h c (Some rt)" and "all_calls (\<lambda>c. \<not> lb_life c) m" and "runs m ds a"
    and "\<forall>(j, q, a) \<in> set (adds ds). j = cl_network_id c \<and> adds_for w q"
    and "\<forall>(j, q, a) \<in> set (removes ds). j = cl_network_id c \<and> removes_for w q"
    and "routes_ok rt'" and "nw_id (rt_network rt') = cl_network_id c"
  shows "controller_ok R A env (h @ [(w, ds)]) c (Some rt')"
  using assms routes_allowed [OF assms(2-5)] by (auto simp: controller_ok_def)

lemma ok_service:
  assumes "controller_ok R A env h c rt" and "LoadBalancer c = Some M"
  obtains has_robot where "configured_balancers R A env has_robot (cl_network_id c) M"
    "getenv env ''HCLOUD_LOAD_BALANCERS_ENABLED'' \<noteq> ''false''"
  using assms by (auto simp: controller_ok_def configured_def LoadBalancer_def)

lemma ok_routes:
  assumes "controller_ok R A env h c rt" and "runs (cloud_routes A env c) ds (Some rt')" and "networks_truthful ds"
  shows "controller_ok R A env (h @ [(RoutesAsked, ds)]) c (Some rt')"
proof -
  have on: "0 < cl_network_id c" "getenv env ''HCLOUD_NETWORK_ROUTES_ENABLED'' \<noteq> ''false''"
    using assms(2) by (auto simp: cloud_routes_def dest: runs_return split: if_splits)
  let ?m = "do { r \<leftarrow> newRoutes A (cl_network_id c); ret (case r of Inl e \<Rightarrow> None | Inr rt \<Rightarrow> Some rt) }"
  have run: "runs ?m ds (Some rt')" using assms(2) on by (simp add: cloud_routes_def)
  have calls: "all_calls (\<lambda>c. \<not> lb_life c) ?m" by (intro calls_rules route_calls)
  have "valid ?m (\<lambda>cs r. adds cs = [] \<and> removes cs = [] \<and>
      (\<forall>rt. r = Some rt \<longrightarrow> routes_ok rt \<and> (networks_truthful cs \<longrightarrow> nw_id (rt_network rt) = cl_network_id c)))"
    by (rule valid_bind, rule valid_mono [OF valid_newRoutes], rule valid_return) (auto split: sum.split)
  from valid_runs [OF this run] assms(3)
  have "adds ds = [] \<and> removes ds = []" "routes_ok rt'" "nw_id (rt_network rt') = cl_network_id c" by auto
  then show ?thesis
    using assms(1) on routes_allowed [OF calls run, of "cl_network_id c" RoutesAsked env]
    by (auto simp: controller_ok_def)
qed

lemma created_route:
  assumes "created i route srvs ds r" and "networks_truthful ds"
  shows "\<forall>(j, q, a) \<in> set (adds ds). j = i \<and> adds_for (RouteCreated route) q"
    "\<forall>(j, q, a) \<in> set (removes ds). j = i \<and> removes_for (RouteCreated route) q"
proof -
  have just: "\<exists>pre. justified i route srvs pre c" if "c \<in> set ds" for c
    using split_list [OF that] assms by (auto simp: created_def guarded_def)
  show "\<forall>(j, q, a) \<in> set (adds ds). j = i \<and> adds_for (RouteCreated route) q" using just by (fastforce simp: in_adds)
  show "\<forall>(j, q, a) \<in> set (removes ds). j = i \<and> removes_for (RouteCreated route) q"
    using just route_to_destination by (fastforce simp: in_removes)
qed

lemma controller_invariant:
  assumes "controller R A env h c robot rt" and "retry_law (a_is_kube_conflict A) (rn_retry R)" and "networks_truthful (calls h)"
  shows "controller_ok R A env h c rt"
  using assms(1,3)
proof (induction rule: controller.induct)
  case (started_up cs c robot b)
  have "started R A env cs (Inr (c, robot))" by (rule valid_runs [OF valid_newCloud started_up(1)])
  then have "configured R A env (robot \<noteq> None) (cl_network_id c) c" "changes_allowed env i Started cs" for i
    by (auto simp: started_def intro: allowed_reads)
  moreover have "cl_network_id (Initialize b c) = cl_network_id c" by (simp add: Initialize_def split: option.split)
  ultimately show ?case by (auto simp: controller_ok_def intro: Initialize_configured)
next
  case (asked_for_routes h c robot rt ds rt')
  then show ?case by (auto intro: ok_routes simp: calls_def)
next
  case (node_handled h c robot rt I op ds r)
  then have ok: "controller_ok R A env h c rt" by (simp add: calls_def)
  then have "in_robot I = None \<or> in_robot I = Some (cached_client A)"
    using node_handled(2) by (auto simp: controller_ok_def configured_def InstancesV2_def split: if_splits)
  from all_calls_runs [OF node_reads [OF this] node_handled(3)] show ?case
    by (intro ok_step [OF ok] allowed_reads) blast
next
  case (service_ensured h c robot rt M svc nodes ds res)
  then have ok: "controller_ok R A env h c rt" by (simp add: calls_def)
  from ok_service [OF ok service_ensured(2)] service_allowed(1) [OF _ assms(2) _ service_ensured(3)] show ?case
    by (metis ok_step [OF ok])
next
  case (service_updated h c robot rt M svc nodes ds err)
  then have ok: "controller_ok R A env h c rt" by (simp add: calls_def)
  from ok_service [OF ok service_updated(2)] service_allowed(2) [OF _ assms(2) _ service_updated(3)] show ?case
    by (metis ok_step [OF ok])
next
  case (service_deleted h c robot rt M svc ds err)
  then have ok: "controller_ok R A env h c rt" by (simp add: calls_def)
  from ok_service [OF ok service_deleted(2)] service_allowed(3) [OF _ assms(2) _ service_deleted(3)] show ?case
    by (metis ok_step [OF ok])
next
  case (routes_listed h c robot rt ds r rt')
  then have ok: "controller_ok R A env h c (Some rt)" and t: "networks_truthful ds" by (simp_all add: calls_def)
  then have "list_done rt ds (r, rt')" using valid_runs [OF valid_ListRoutes routes_listed(2)] by (simp add: controller_ok_def)
  with ok t show ?case
    by (intro ok_route_step [OF ok route_calls(3) routes_listed(2)]) (auto simp: list_done_def controller_ok_def)
next
  case (route_created h c robot rt n route ds e rt')
  then have ok: "controller_ok R A env h c (Some rt)" and t: "networks_truthful ds" by (simp_all add: calls_def)
  then obtain srvs where "represents (rt_cache rt) srvs" by (auto simp: controller_ok_def routes_ok_def)
  with ok have "created (cl_network_id c) route srvs ds (e, rt')"
    using valid_runs [OF valid_CreateRoute route_created(2)] by (simp add: controller_ok_def)
  from created_facts [OF this t] created_route [OF this t] show ?case
    by (intro ok_route_step [OF ok route_calls(1) route_created(2)]) auto
next
  case (route_deleted h c robot rt n route ds e)
  then have ok: "controller_ok R A env h c (Some rt)" by (simp add: calls_def)
  with valid_runs [OF valid_DeleteRoute route_deleted(2)] show ?case
    by (intro ok_route_step [OF ok route_calls(2) route_deleted(2)]) (auto simp: deletes_done_def deleted_as_def controller_ok_def)
next
  case (secret_changed h c robot rt dir item ds e r)
  then have ok: "controller_ok R A env h c rt" by (simp add: calls_def)
  have "client_of A robot = None \<or> client_of A robot = Some (cached_client A)" by (simp add: client_of_def)
  from all_calls_runs [OF secret_reads [OF this] secret_changed(2)] show ?case
    by (intro ok_step [OF ok] allowed_reads) blast
qed

text \<open>C3: The changes that the program makes at the Hetzner API in any history of handlers and watcher events after a start,
  with what the framework asked for in each step. A load balancer is deleted only in a step that is to delete a
  service's, and it is the unprotected one that the API gave for that very service. One is created only in a step that
  is to ensure a service's, when the API gave none for that service, labelled with its UID and placed where its
  annotations and the environment say. Routes are added only in a step that is to create a route, and deleted only in a step
  that is to create or delete one, with the destination of that route and in the configured network. With load
  balancers or routes switched off none is changed.\<close>

theorem controller_changes:
  assumes "controller R A env h c robot rt" and "retry_law (a_is_kube_conflict A) (rn_retry R)" and "networks_truthful (calls h)"
    and "(w, ds) \<in> set h"
  shows "(\<forall>i r. LbDelete i r \<in> set ds \<longrightarrow>
      (\<exists>svc lb. w = ServiceDeleted svc \<and> lb_id lb = i \<and> \<not> lb_protected lb \<and> LbList (uid_selector svc) (Inr [lb]) \<in> set ds)) \<and>
    (\<forall>opts r. LbCreate opts r \<in> set ds \<longrightarrow>
      (\<exists>svc. w = ServiceEnsured svc \<and> co_labels opts LabelServiceUID = Some (svc_uid svc) \<and>
         LbList (uid_selector svc) (Inr []) \<in> set ds \<and> place_of env (cl_network_id c) svc opts ds)) \<and>
    (getenv env ''HCLOUD_LOAD_BALANCERS_ENABLED'' = ''false'' \<longrightarrow> (\<forall>x \<in> set ds. \<not> is_create x \<and> \<not> is_delete x)) \<and>
    (\<forall>i q a. NetworkAddRoute i q a \<in> set ds \<longrightarrow> i = cl_network_id c \<and> adds_for w q) \<and>
    (\<forall>i q a. NetworkDeleteRoute i q a \<in> set ds \<longrightarrow> i = cl_network_id c \<and> removes_for w q) \<and>
    (cl_network_id c \<le> 0 \<or> getenv env ''HCLOUD_NETWORK_ROUTES_ENABLED'' = ''false'' \<longrightarrow> adds ds = [] \<and> removes ds = [])"
proof -
  have all: "changes_allowed env (cl_network_id c) w ds"
    using controller_invariant [OF assms(1-3)] assms(4) by (auto simp: controller_ok_def)
  then have "deletes_justified w ds" "creates_justified env (cl_network_id c) w ds" "routes_justified env (cl_network_id c) w ds"
    "getenv env ''HCLOUD_LOAD_BALANCERS_ENABLED'' = ''false'' \<longrightarrow> (\<forall>x \<in> set ds. \<not> is_create x \<and> \<not> is_delete x)"
    by (auto simp: changes_allowed_def lb_life_def)
  moreover from this(3) have "NetworkAddRoute i q a \<in> set ds \<Longrightarrow> i = cl_network_id c \<and> adds_for w q"
    "NetworkDeleteRoute i q a \<in> set ds \<Longrightarrow> i = cl_network_id c \<and> removes_for w q"
    "cl_network_id c \<le> 0 \<or> getenv env ''HCLOUD_NETWORK_ROUTES_ENABLED'' = ''false'' \<longrightarrow> adds ds = [] \<and> removes ds = []" for i q a
    unfolding routes_justified_def by (auto simp flip: in_adds in_removes)
  ultimately show ?thesis
    unfolding deletes_justified_def creates_justified_def by (intro conjI; blast)
qed

section \<open>A concrete history\<close>

text \<open>A start looks up no network by its number.\<close>

fun by_number :: "api_call \<Rightarrow> bool" where
  "by_number (NetworkGetByID i r) = True"
| "by_number c = False"

lemma or_return_calls: "all_calls P m \<Longrightarrow> (\<And>a. all_calls P (f a)) \<Longrightarrow> all_calls P (or_return w m f)"
  unfolding or_return_def by (intro calls_rules)

lemma start_by_number: "all_calls (\<lambda>c. \<not> by_number c) (newCloud R A env)"
proof -
  have token: "all_calls (\<lambda>c. \<not> by_number c) (newHcloudClient A env dir)" for dir
    unfolding newHcloudClient_def GetInitialHcloudCredentialsFromDirectory_def readHcloudCredentials_def token_body_def Let_def request_defs
    by (intro calls_rules; simp)
  have robot: "all_calls (\<lambda>c. \<not> by_number c) (NewCachedRobotClient A env dir b)" for dir b
    unfolding NewCachedRobotClient_def GetInitialRobotCredentials_def readRobotCredentials_def Let_def request_defs
    by (intro calls_rules; simp)
  show ?thesis
    unfolding newCloud_def network_from_env_def serverIsAttachedToNetwork_def Watch_def Let_def
    by (intro or_return_calls calls_rules token robot; simp add: request_defs all_calls_request)
qed

lemma by_number_truthful: "\<forall>c \<in> set cs. \<not> by_number c \<Longrightarrow> networks_truthful cs"
  by (fastforce simp: networks_truthful_def)

theorem controller_changes_witness:
  "\<exists>cs rc ds opts q. controller start_runtime start_api start_env [(Started, cs), (ServiceEnsured (annotated [(LBLocation, ''fsn1'')]), ds)]
       (Initialize True start_cloud) (Some rc) None \<and>
     LbCreate opts q \<in> set ds \<and> place_of start_env 4 (annotated [(LBLocation, ''fsn1'')]) opts ds \<and> adds ds = []"
proof -
  let ?s = "\<lparr>trace = [], globals = sample_globals, ext = ()\<rparr> :: (api_call, go_globals, unit) world"
  let ?M = "start_balancers\<lparr>lbs_has_k8s_client := True\<rparr>"
  let ?svc = "annotated [(LBLocation, ''fsn1'')]"
  obtain rc s1 where "run_state (newCloud start_runtime start_api start_env) ?s = (Inr (start_cloud, Some rc), s1)"
    using start_succeeds by blast
  then have start: "runs (newCloud start_runtime start_api start_env) (trace s1) (Inr (start_cloud, Some rc))"
    unfolding runs_def by (intro exI [of _ ?s] exI [of _ s1]) simp
  have M: "LoadBalancer (Initialize True start_cloud) = Some ?M" by (simp add: LoadBalancer_def Initialize_def start_cloud_def)
  have run: "runs (EnsureLoadBalancer ?M ?svc []) (snd ensure_run) (fst ensure_run)"
    unfolding ensure_run_def by (rule runs_self)
  let ?h = "[(Started, trace s1), (ServiceEnsured ?svc, snd ensure_run)]"
  have history: "controller start_runtime start_api start_env ?h (Initialize True start_cloud) (Some rc) None"
    using service_ensured [OF started_up [OF start] M run] by simp
  have law: "retry_law (a_is_kube_conflict start_api) (rn_retry start_runtime)"
    by (simp add: start_runtime_def retry_upto_law)
  have "networks_truthful (snd ensure_run)" by code_simp
  moreover have "networks_truthful (trace s1)" using all_calls_runs [OF start_by_number start] by (blast intro: by_number_truthful)
  ultimately have truthful: "networks_truthful (calls ?h)" by (simp add: calls_def)
  have "list_ex is_create (snd ensure_run)" by code_simp
  then obtain opts q where create: "LbCreate opts q \<in> set (snd ensure_run)" unfolding list_ex_iff is_create_iff by auto
  have id: "cl_network_id (Initialize True start_cloud) = 4" by (simp add: Initialize_def start_cloud_def)
  have "adds (snd ensure_run) = []" by code_simp
  moreover have "(ServiceEnsured ?svc, snd ensure_run) \<in> set ?h" by simp
  from controller_changes [OF history law truthful this] create id have "place_of start_env 4 ?svc opts (snd ensure_run)" by auto
  ultimately show ?thesis using history create by blast
qed

end
