(* ===== verification/RateLimitRace.thy ===== *)
theory RateLimitRace
  imports RateLimit
begin

text \<open>
  The rate limit handler of \<open>internal/hcops/ratelimit.go\<close> under concurrency. The handler is a
  package variable without a mutex, and the service and node controllers call \<open>set\<close> and
  \<open>isExceeded\<close> from goroutines of their own. Here each call is a thread that runs the method
  statement by statement, and a step of the system is one statement of one thread or a tick of
  the clock, so that every interleaving is a run. A read or a write of one field is one step
  (the torn writes of a multi-word \<open>time.Time\<close> that Go's memory model allows as well are not
  modelled).
\<close>

section \<open>Threads\<close>

text \<open>Where a thread is: before the statement named. \<open>SetStore\<close> and \<open>Compare\<close> carry the
  result of the \<open>time.Now()\<close> they have evaluated.\<close>

datatype pc =
    Idle
  | SetFlag | SetNow | SetStore time
  | ReadFlag | ReadNow | Compare time | ResetFlag | ResetTime

datatype outcome = Inside | Reported | Answered bool

text \<open>The next statement of a thread, with the clock and the shared handler.\<close>

fun thread_step :: "time \<Rightarrow> pc \<Rightarrow> rate_limit_handler \<Rightarrow> (outcome \<times> pc \<times> rate_limit_handler) option" where
  "thread_step now Idle h = None"
| "thread_step now SetFlag h = Some (Inside, SetNow, h\<lparr>exceeded := True\<rparr>)"
| "thread_step now SetNow h = Some (Inside, SetStore now, h)"
| "thread_step now (SetStore t) h = Some (Reported, Idle, h\<lparr>lastChecked := t\<rparr>)"
| "thread_step now ReadFlag h =
     (if \<not> exceeded h then Some (Answered False, Idle, h) else Some (Inside, ReadNow, h))"
| "thread_step now ReadNow h = Some (Inside, Compare now, h)"
| "thread_step now (Compare t) h =
     (if t < lastChecked h + waitTime h then Some (Answered True, Idle, h)
      else Some (Inside, ResetFlag, h))"
| "thread_step now ResetFlag h = Some (Inside, ResetTime, h\<lparr>exceeded := False\<rparr>)"
| "thread_step now ResetTime h = Some (Answered False, Idle, h\<lparr>lastChecked := 0\<rparr>)"

section \<open>Interleavings\<close>

record race =
  rc_handler :: rate_limit_handler
  rc_clock :: time
  rc_pc :: "nat \<Rightarrow> pc"

datatype action = Tick time | CallSet nat | CallCheck nat | Ran nat outcome

inductive race_step :: "race \<Rightarrow> action \<Rightarrow> race \<Rightarrow> bool" where
  tick: "rc_clock s \<le> t \<Longrightarrow> race_step s (Tick t) (s\<lparr>rc_clock := t\<rparr>)"
| call_set: "rc_pc s i = Idle \<Longrightarrow> race_step s (CallSet i) (s\<lparr>rc_pc := (rc_pc s)(i := SetFlag)\<rparr>)"
| call_check: "rc_pc s i = Idle \<Longrightarrow> race_step s (CallCheck i) (s\<lparr>rc_pc := (rc_pc s)(i := ReadFlag)\<rparr>)"
| ran: "thread_step (rc_clock s) (rc_pc s i) (rc_handler s) = Some (out, p, h) \<Longrightarrow>
    race_step s (Ran i out) (s\<lparr>rc_handler := h, rc_pc := (rc_pc s)(i := p)\<rparr>)"

inductive race_run :: "race \<Rightarrow> action list \<Rightarrow> race \<Rightarrow> bool" where
  stop: "race_run s [] s"
| more: "race_step s a s' \<Longrightarrow> race_run s' as s'' \<Longrightarrow> race_run s (a # as) s''"

inductive_cases race_step_E: "race_step s a s'"
inductive_cases race_run_nil_E: "race_run s [] s'"
inductive_cases race_run_cons_E: "race_run s (a # as) s'"

lemma race_step_clock: "race_step s a s' \<Longrightarrow> rc_clock s \<le> rc_clock s'"
  by (cases rule: race_step.cases) auto

lemma race_run_clock: "race_run s as s' \<Longrightarrow> rc_clock s \<le> rc_clock s'"
  by (induction rule: race_run.induct) (auto dest: race_step_clock)

lemma race_run_append:
  "race_run s as s' \<Longrightarrow> race_run s' bs s'' \<Longrightarrow> race_run s (as @ bs) s''"
  by (induction rule: race_run.induct) (auto intro: race_run.more)

text \<open>The steps are determined by their labels: an interpreter for a given schedule.\<close>

fun race_next :: "action \<Rightarrow> race \<Rightarrow> race option" where
  "race_next (Tick t) s = (if rc_clock s \<le> t then Some (s\<lparr>rc_clock := t\<rparr>) else None)"
| "race_next (CallSet i) s =
     (if rc_pc s i = Idle then Some (s\<lparr>rc_pc := (rc_pc s)(i := SetFlag)\<rparr>) else None)"
| "race_next (CallCheck i) s =
     (if rc_pc s i = Idle then Some (s\<lparr>rc_pc := (rc_pc s)(i := ReadFlag)\<rparr>) else None)"
| "race_next (Ran i out) s =
     (case thread_step (rc_clock s) (rc_pc s i) (rc_handler s) of
        Some (out', p, h) \<Rightarrow>
          if out' = out then Some (s\<lparr>rc_handler := h, rc_pc := (rc_pc s)(i := p)\<rparr>) else None
      | None \<Rightarrow> None)"

fun race_exec :: "action list \<Rightarrow> race \<Rightarrow> race option" where
  "race_exec [] s = Some s"
| "race_exec (a # as) s = Option.bind (race_next a s) (race_exec as)"

lemma race_next_step: "race_next a s = Some s' \<longleftrightarrow> race_step s a s'"
proof
  show "race_next a s = Some s' \<Longrightarrow> race_step s a s'"
    by (cases a) (auto intro: race_step.intros split: if_splits option.splits prod.splits)
  show "race_step s a s' \<Longrightarrow> race_next a s = Some s'"
    by (auto elim!: race_step_E)
qed

lemma race_exec_run: "race_exec as s = Some s' \<longleftrightarrow> race_run s as s'"
proof (induction as arbitrary: s)
  case Nil
  show ?case by (auto intro: race_run.stop elim: race_run_nil_E)
next
  case (Cons a as)
  then show ?case
    by (auto simp: bind_eq_Some_conv race_next_step intro: race_run.more elim!: race_run_cons_E)
qed

section \<open>A thread that runs alone\<close>

text \<open>Run one thread until it is idle again: the sequential operations of \<open>RateLimit\<close>.\<close>

fun run_alone :: "nat \<Rightarrow> time \<Rightarrow> pc \<Rightarrow> rate_limit_handler \<Rightarrow> (outcome \<times> rate_limit_handler) option" where
  "run_alone 0 now p h = None"
| "run_alone (Suc n) now p h =
     (case thread_step now p h of
        None \<Rightarrow> None
      | Some (out, p', h') \<Rightarrow> if p' = Idle then Some (out, h') else run_alone n now p' h')"

lemma run_alone_set: "run_alone 3 now SetFlag h = Some (Reported, rl_set now h)"
  by (simp add: eval_nat_numeral rl_set_def)

lemma run_alone_check:
  "run_alone 5 now ReadFlag h = Some (case isExceeded now h of (b, h') \<Rightarrow> (Answered b, h'))"
  by (simp add: eval_nat_numeral isExceeded_def)

section \<open>When a report holds\<close>

text \<open>A report of time \<open>t\<close> is settled: the flag and the time are stored, no check is in its
  reset section, none has read a time after the wait, and no report holds an older time.\<close>

definition pc_settled :: "time \<Rightarrow> duration \<Rightarrow> pc \<Rightarrow> bool" where
  "pc_settled t w p =
     (case p of SetStore u \<Rightarrow> t \<le> u | Compare u \<Rightarrow> u < t + w
      | ResetFlag \<Rightarrow> False | ResetTime \<Rightarrow> False | _ \<Rightarrow> True)"

definition settled :: "time \<Rightarrow> race \<Rightarrow> bool" where
  "settled t s \<longleftrightarrow>
     exceeded (rc_handler s) \<and> t \<le> lastChecked (rc_handler s) \<and> t \<le> rc_clock s \<and>
     (\<forall>i. pc_settled t (waitTime (rc_handler s)) (rc_pc s i))"

lemma settled_thread_step:
  assumes "thread_step now p h = Some (out, p', h')" "pc_settled t (waitTime h) p"
    "exceeded h" "t \<le> lastChecked h" "t \<le> now" "now < t + waitTime h"
  shows "exceeded h' \<and> t \<le> lastChecked h' \<and> waitTime h' = waitTime h \<and>
    pc_settled t (waitTime h) p' \<and> out \<noteq> Answered False"
  using assms
  by (cases "(now, p, h)" rule: thread_step.cases)
    (auto simp: pc_settled_def split: if_splits)

lemma settled_step:
  assumes "race_step s a s'" "settled t s" "rc_clock s' < t + waitTime (rc_handler s)"
  shows "settled t s' \<and> waitTime (rc_handler s') = waitTime (rc_handler s) \<and>
    (\<forall>i. a \<noteq> Ran i (Answered False))"
  using assms(1)
proof (cases rule: race_step.cases)
  case (ran i out p h)
  have "exceeded h \<and> t \<le> lastChecked h \<and> waitTime h = waitTime (rc_handler s) \<and>
      pc_settled t (waitTime (rc_handler s)) p \<and> out \<noteq> Answered False"
    by (rule settled_thread_step [OF ran(3)]) (use assms ran in \<open>auto simp: settled_def\<close>)
  then show ?thesis using assms ran by (auto simp: settled_def)
qed (use assms in \<open>auto simp: settled_def pc_settled_def\<close>)

lemma settled_run:
  assumes "race_run s as s'" "settled t s" "rc_clock s' < t + waitTime (rc_handler s)"
  shows "settled t s' \<and> (\<forall>i. Ran i (Answered False) \<notin> set as)"
  using assms
proof (induction rule: race_run.induct)
  case (more s a s' as s'')
  have "rc_clock s' < t + waitTime (rc_handler s)"
    using race_run_clock [OF more.hyps(2)] more.prems by simp
  from settled_step [OF more.hyps(1) more.prems(1) this] more.IH more.prems
  show ?case by auto
qed simp

text \<open>C28: A rate-limit report holds in every interleaving, unless a check was resetting the handler
  when it was stored: if set() stores the time t while no other thread is between the comparison
  and the end of isExceeded or about to store an older time, then whatever checks, reports and
  ticks follow, in any order, no check answers "not exceeded" before t plus the wait time.\<close>

theorem report_kept:
  assumes "race_step s (Ran i Reported) s'"
    and "exceeded (rc_handler s)" "lastChecked (rc_handler s') = t" "t \<le> rc_clock s"
    and "\<forall>j. j \<noteq> i \<longrightarrow> pc_settled t (waitTime (rc_handler s)) (rc_pc s j)"
    and "race_run s' as s''" "rc_clock s'' < t + waitTime (rc_handler s)"
  shows "exceeded (rc_handler s'') \<and> (\<forall>j. Ran j (Answered False) \<notin> set as)"
proof -
  obtain p h where ph: "thread_step (rc_clock s) (rc_pc s i) (rc_handler s) = Some (Reported, p, h)"
      "s' = s\<lparr>rc_handler := h, rc_pc := (rc_pc s)(i := p)\<rparr>"
    using assms(1) by (auto elim: race_step_E)
  then have "h = rc_handler s\<lparr>lastChecked := t\<rparr>" "p = Idle"
    using assms(3) by (cases "rc_pc s i"; auto split: if_splits)+
  then have "settled t s'" "waitTime (rc_handler s') = waitTime (rc_handler s)"
    using assms ph(2) by (auto simp: settled_def pc_settled_def)
  then show ?thesis using settled_run [OF assms(6)] assms(7) by (auto simp: settled_def)
qed

theorem report_kept_witness:
  "\<exists>s''. race_run
      \<lparr>rc_handler = \<lparr>waitTime = 300, exceeded = True, lastChecked = 10\<rparr>, rc_clock = 311,
       rc_pc = (\<lambda>_. Idle)(1 := SetStore 310, 2 := Compare 310)\<rparr>
      [Ran 1 Reported, Tick 600, CallCheck 1, Ran 2 (Answered True), Ran 1 Inside] s'' \<and>
    exceeded (rc_handler s'')"
proof -
  define s :: race where "s = \<lparr>rc_handler = \<lparr>waitTime = 300, exceeded = True, lastChecked = 10\<rparr>,
    rc_clock = 311, rc_pc = (\<lambda>_. Idle)(1 := SetStore 310, 2 := Compare 310)\<rparr>"
  define s' where "s' = s\<lparr>rc_handler := rl_set 310 (rc_handler s), rc_pc := (rc_pc s)(1 := Idle)\<rparr>"
  define as where "as = [Tick 600, CallCheck 1, Ran 2 (Answered True), Ran 1 Inside]"
  have 1: "race_step s (Ran 1 Reported) s'"
    by (simp add: s_def s'_def rl_set_def flip: race_next_step)
  obtain s'' where 2: "race_run s' as s''" "rc_clock s'' = 600"
    by (simp add: s_def s'_def as_def rl_set_def flip: race_exec_run)
  have "exceeded (rc_handler s'') \<and> (\<forall>j. Ran j (Answered False) \<notin> set as)"
    by (rule report_kept [OF 1 _ _ _ _ 2(1), where t = 310])
      (auto simp: s_def s'_def rl_set_def pc_settled_def 2(2))
  moreover have "race_run s (Ran 1 Reported # as) s''" by (rule race_run.more [OF 1 2(1)])
  ultimately show ?thesis by (auto simp: s_def as_def)
qed

section \<open>When a report is lost\<close>

text \<open>C29: A report is lost when a check resets the handler around it: whenever the wait time of an
  earlier report is over, there is an interleaving of one check with one report after which the
  report has returned and yet the next check, at the same time, answers "not exceeded", so that
  the Robot API is called again with no wait at all (the handler has no mutex).\<close>

theorem report_lost:
  assumes "exceeded h" "lastChecked h + waitTime h \<le> t" "0 < waitTime h" "i \<noteq> j"
  shows "fst (isExceeded t (rl_set t h)) \<and>
    (\<exists>s as. race_run \<lparr>rc_handler = h, rc_clock = t, rc_pc = \<lambda>_. Idle\<rparr>
        (as @ [Ran j Reported, Ran i Inside, Ran i (Answered False), CallCheck j, Ran j (Answered False)]) s \<and>
      rc_clock s = t \<and> Ran j Reported \<notin> set as)"
proof -
  let ?as = "[CallCheck i, Ran i Inside, Ran i Inside, Ran i Inside, CallSet j, Ran j Inside, Ran j Inside]"
  have "\<exists>s. race_exec (?as @
      [Ran j Reported, Ran i Inside, Ran i (Answered False), CallCheck j, Ran j (Answered False)])
      \<lparr>rc_handler = h, rc_clock = t, rc_pc = \<lambda>_. Idle\<rparr> = Some s \<and> rc_clock s = t"
    using assms by simp
  then obtain s where "race_run \<lparr>rc_handler = h, rc_clock = t, rc_pc = \<lambda>_. Idle\<rparr> (?as @
      [Ran j Reported, Ran i Inside, Ran i (Answered False), CallCheck j, Ran j (Answered False)]) s"
      "rc_clock s = t"
    unfolding race_exec_run by blast
  moreover have "Ran j Reported \<notin> set ?as" by simp
  moreover have "fst (isExceeded t (rl_set t h))" using assms by (simp add: isExceeded_def rl_set_def)
  ultimately show ?thesis by blast
qed

theorem report_lost_witness:
  "fst (isExceeded 400 (rl_set 400 \<lparr>waitTime = 300, exceeded = True, lastChecked = 10\<rparr>)) \<and>
    (\<exists>s as. race_run \<lparr>rc_handler = \<lparr>waitTime = 300, exceeded = True, lastChecked = 10\<rparr>,
        rc_clock = 400, rc_pc = \<lambda>_. Idle\<rparr>
      (as @ [Ran 1 Reported, Ran 0 Inside, Ran 0 (Answered False), CallCheck 1, Ran 1 (Answered False)]) s \<and>
      rc_clock s = 400 \<and> Ran 1 Reported \<notin> set as)"
  by (rule report_lost) simp_all

end
