(* ===== verification/SharedClient.thy ===== *)
theory SharedClient
  imports Cloud LBTargetsSafety RobotBackoff
begin

text \<open>
  The Robot client that the load balancers share with the instances. \<open>newCloud\<close> hands one
  cached client to both (\<open>hcloud/cloud.go\<close>), so a Robot request of the load balancers is an
  operation of the cache of \<open>internal/robot/client/cache/client.go\<close>. Here the API that the load
  balancers use is built from the raw one and the cache, and the lists from which targets are made
  are traced back to the answers of the raw Robot API.
\<close>

section \<open>Histories of the outside\<close>

text \<open>A program keeps an invariant of the outside and logs only calls that the outside can show.\<close>

definition keeps :: "('v \<Rightarrow> bool) \<Rightarrow> ('v \<Rightarrow> 'v \<Rightarrow> bool) \<Rightarrow> ('v \<Rightarrow> 'c \<Rightarrow> bool) \<Rightarrow> ('c, 'g, 'v, 'a) prog \<Rightarrow> bool" where
  "keeps J later shown m \<longleftrightarrow> (\<forall>s a s'. J (ext s) \<longrightarrow> run_state m s = (a, s') \<longrightarrow>
     J (ext s') \<and> later (ext s) (ext s') \<and> (\<exists>cs. trace s' = trace s @ cs \<and> (\<forall>c \<in> set cs. shown (ext s') c)))"

locale outside_history =
  fixes J :: "'v \<Rightarrow> bool" and later :: "'v \<Rightarrow> 'v \<Rightarrow> bool" and shown :: "'v \<Rightarrow> 'c \<Rightarrow> bool"
  assumes later_refl: "later v v"
    and later_trans: "later u v \<Longrightarrow> later v w \<Longrightarrow> later u w"
    and shown_later: "shown v c \<Longrightarrow> later v w \<Longrightarrow> shown w c"
begin

lemma keeps_return: "keeps J later shown (ret a)"
  by (simp add: keeps_def later_refl)

lemma keeps_request:
  assumes "\<And>v a w. J v \<Longrightarrow> f v = (a, w) \<Longrightarrow> J w \<and> later v w \<and> shown w (c a)"
  shows "keeps J later shown (request c f)"
  using assms by (auto simp: keeps_def request_def split: prod.splits)

lemma keeps_read: "keeps J later shown (read_globals f)"
  by (simp add: keeps_def read_globals_def later_refl)

lemma keeps_modify: "keeps J later shown (modify_globals f)"
  by (simp add: keeps_def modify_globals_def later_refl)

lemma keeps_bind:
  assumes "keeps J later shown m" and "\<And>a. keeps J later shown (f a)"
  shows "keeps J later shown (State_Monad.bind m f)"
  unfolding keeps_def
proof (intro allI impI)
  fix s b s2
  assume J: "J (ext s)" and run: "run_state (State_Monad.bind m f) s = (b, s2)"
  obtain a s1 where m: "run_state m s = (a, s1)" and f: "run_state (f a) s1 = (b, s2)"
    using run by (auto split: prod.splits)
  obtain cs where cs: "J (ext s1)" "later (ext s) (ext s1)" "trace s1 = trace s @ cs" "\<forall>c \<in> set cs. shown (ext s1) c"
    using assms(1) J m unfolding keeps_def by blast
  obtain ds where ds: "J (ext s2)" "later (ext s1) (ext s2)" "trace s2 = trace s1 @ ds" "\<forall>c \<in> set ds. shown (ext s2) c"
    using assms(2) [of a] cs(1) f unfolding keeps_def by blast
  show "J (ext s2) \<and> later (ext s) (ext s2) \<and> (\<exists>cs. trace s2 = trace s @ cs \<and> (\<forall>c \<in> set cs. shown (ext s2) c))"
    using cs ds later_trans shown_later by (intro conjI exI [of _ "cs @ ds"]) auto
qed

lemma keeps_cases:
  "(\<And>a. v = Inl a \<Longrightarrow> keeps J later shown (f a)) \<Longrightarrow> (\<And>b. v = Inr b \<Longrightarrow> keeps J later shown (g b)) \<Longrightarrow>
     keeps J later shown (case v of Inl a \<Rightarrow> f a | Inr b \<Rightarrow> g b)"
  "(u = None \<Longrightarrow> keeps J later shown m) \<Longrightarrow> (\<And>x. u = Some x \<Longrightarrow> keeps J later shown (h x)) \<Longrightarrow>
     keeps J later shown (case u of None \<Rightarrow> m | Some x \<Rightarrow> h x)"
  "(b \<Longrightarrow> keeps J later shown m) \<Longrightarrow> (\<not> b \<Longrightarrow> keeps J later shown m') \<Longrightarrow> keeps J later shown (if b then m else m')"
  by (auto split: sum.split option.split)

lemma keeps_loop:
  assumes "\<And>x s. keeps J later shown (f x s)"
  shows "keeps J later shown (range_loop f xs s)"
proof (induction xs arbitrary: s)
  case (Cons x xs)
  show ?case
    unfolding range_loop.simps by (intro keeps_bind keeps_cases keeps_return assms Cons.IH)
qed (simp add: keeps_return)

lemmas keeps_rules = keeps_return keeps_read keeps_modify keeps_bind keeps_loop keeps_cases

end

section \<open>The API behind the cache\<close>

text \<open>The outside of the load balancers: the raw outside, the client's cache, and the calls that the
  client has made at the raw Robot API.\<close>

record 'w robot_world =
  rw_raw :: 'w
  rw_cache :: robot_cache
  rw_log :: "api_call list"

definition on_raw :: "('w \<Rightarrow> 'a \<times> 'w) \<Rightarrow> 'w robot_world \<Rightarrow> 'a \<times> 'w robot_world" where
  "on_raw f v = (case f (rw_raw v) of (a, w) \<Rightarrow> (a, v\<lparr>rw_raw := w\<rparr>))"

text \<open>An operation of the client; it does not use the package-level variables.\<close>

definition on_client :: "go_globals \<Rightarrow> (robot_cache \<Rightarrow> ('w, 'a \<times> robot_cache) go) \<Rightarrow> 'w robot_world \<Rightarrow> 'a \<times> 'w robot_world" where
  "on_client g m v = (case run_state (m (rw_cache v)) \<lparr>trace = rw_log v, globals = g, ext = rw_raw v\<rparr> of
     ((a, c), s) \<Rightarrow> (a, \<lparr>rw_raw = ext s, rw_cache = c, rw_log = trace s\<rparr>))"

definition through_cache :: "go_globals \<Rightarrow> 'w api \<Rightarrow> 'w robot_world api" where
  "through_cache g A = \<lparr>
     a_lb_list = \<lambda>s. on_raw (a_lb_list A s), a_lb_get_by_name = \<lambda>n. on_raw (a_lb_get_by_name A n),
     a_lb_get_by_id = \<lambda>i. on_raw (a_lb_get_by_id A i), a_lb_create = \<lambda>opts. on_raw (a_lb_create A opts),
     a_lb_update = \<lambda>i opts. on_raw (a_lb_update A i opts), a_lb_delete = \<lambda>i. on_raw (a_lb_delete A i),
     a_lb_do = \<lambda>q. on_raw (a_lb_do A q), a_watch = \<lambda>a. on_raw (a_watch A a),
     a_network_get = \<lambda>i. on_raw (a_network_get A i), a_network_add_route = \<lambda>i r. on_raw (a_network_add_route A i r),
     a_network_delete_route = \<lambda>i r. on_raw (a_network_delete_route A i r),
     a_cert_get = \<lambda>n. on_raw (a_cert_get A n), a_cert_list = \<lambda>s. on_raw (a_cert_list A s),
     a_cert_create = \<lambda>opts. on_raw (a_cert_create A opts),
     a_robot_list = on_client g (r_ServerGetList (cached_client A)), a_servers_all = on_raw (a_servers_all A),
     a_server_get_by_id = \<lambda>i. on_raw (a_server_get_by_id A i), a_server_get_by_name = \<lambda>n. on_raw (a_server_get_by_name A n),
     a_server_list = on_raw (a_server_list A), a_network_lookup = \<lambda>n. on_raw (a_network_lookup A n),
     a_metadata_networks = on_raw (a_metadata_networks A),
     a_robot_get = \<lambda>i. on_client g (r_ServerGet (cached_client A) i),
     a_robot_set_credentials = \<lambda>u p. on_client g (r_SetCredentials (cached_client A) u p),
     a_set_token = \<lambda>t. on_raw (a_set_token A t),
     a_read_file = \<lambda>n. on_raw (a_read_file A n), a_stat = \<lambda>n. on_raw (a_stat A n), a_getwd = on_raw (a_getwd A),
     a_watch_dir = \<lambda>n. on_raw (a_watch_dir A n),
     a_kube_get = \<lambda>ns n. on_raw (a_kube_get A ns n), a_kube_patch = \<lambda>ns n p. on_raw (a_kube_patch A ns n p),
     a_now = on_raw (a_now A), a_is_error = a_is_error A, a_is_robot_error = a_is_robot_error A,
     a_is_kube_not_found = a_is_kube_not_found A, a_is_kube_conflict = a_is_kube_conflict A,
     a_default_lb_name = a_default_lb_name A, a_labels_parse = a_labels_parse A\<rparr>"

section \<open>Where a list comes from\<close>

text \<open>A list served by a client that started with the cache \<open>c\<close> and has made the calls \<open>calls\<close>: the
  cached list while the clock has not passed its age, or an answer of the raw Robot API.\<close>

definition cached_in_time :: "robot_cache \<Rightarrow> api_call list \<Rightarrow> robot_server list \<Rightarrow> bool" where
  "cached_in_time c calls xs \<longleftrightarrow> rc_map c \<noteq> None \<and> xs = rc_list c \<and>
     (\<exists>t. Now t \<in> set calls \<and> t \<le> rc_last_update c + rc_timeout c)"

definition served :: "robot_cache \<Rightarrow> api_call list \<Rightarrow> robot_server list \<Rightarrow> bool" where
  "served c calls xs \<longleftrightarrow> cached_in_time c calls xs \<or> RobotList (Inr xs) \<in> set calls"

definition cache_from :: "robot_cache \<Rightarrow> 'w robot_world \<Rightarrow> bool" where
  "cache_from c v \<longleftrightarrow> rw_cache v = c \<or> RobotList (Inr (rc_list (rw_cache v))) \<in> set (rw_log v)"

definition log_grows :: "'w robot_world \<Rightarrow> 'w robot_world \<Rightarrow> bool" where
  "log_grows v w \<longleftrightarrow> (\<exists>cs. rw_log w = rw_log v @ cs)"

definition list_served :: "robot_cache \<Rightarrow> 'w robot_world \<Rightarrow> api_call \<Rightarrow> bool" where
  "list_served c v x \<longleftrightarrow> (\<forall>xs. x = RobotList (Inr xs) \<longrightarrow> served c (rw_log v) xs)"

interpretation client: outside_history "cache_from c" log_grows "list_served c" for c
  by unfold_locales (auto simp: log_grows_def list_served_def served_def cached_in_time_def)

lemma keeps_raw:
  assumes "\<And>a xs. k a \<noteq> RobotList (Inr xs)"
  shows "keeps (cache_from c) log_grows (list_served c) (request k (on_raw f))"
  by (rule client.keeps_request)
    (use assms in \<open>auto simp: on_raw_def cache_from_def log_grows_def list_served_def split: prod.splits\<close>)

lemma get_list_served:
  assumes "cache_from c v" and "on_client g (ServerGetList A) v = (r, w)"
  shows "cache_from c w \<and> log_grows v w \<and> list_served c w (RobotList r)"
proof -
  let ?s = "\<lparr>trace = rw_log v, globals = g, ext = rw_raw v\<rparr>"
  obtain c' s' where run: "run_state (ServerGetList A (rw_cache v)) ?s = ((r, c'), s')"
    and w: "w = \<lparr>rw_raw = ext s', rw_cache = c', rw_log = trace s'\<rparr>"
    using assms(2) by (auto simp: on_client_def split: prod.splits)
  obtain cs where cs: "trace s' = rw_log v @ cs" "answered Inr (rw_cache v) cs (r, c')"
    using validD [OF valid_ServerGetList run] by auto
  then show ?thesis
    using assms(1) unfolding w
    by (auto simp: answered_def kept_def cache_from_def log_grows_def list_served_def served_def cached_in_time_def)
qed

lemma keeps_robot_list: "keeps (cache_from c) log_grows (list_served c) (robot_list (through_cache g A))"
  unfolding robot_list_def
  by (rule client.keeps_request, erule get_list_served) (simp add: through_cache_def cached_client_def)

lemma keeps_event: "keeps (cache_from c) log_grows (list_served c) (record_event r x)"
  unfolding record_event_def
  by (rule client.keeps_request) (auto simp: log_grows_def list_served_def)

lemma keeps_calls:
  "keeps (cache_from c) log_grows (list_served c) (lb_do (through_cache g A) q)"
  "keeps (cache_from c) log_grows (list_served c) (WatchAction (through_cache g A) a)"
  "keeps (cache_from c) log_grows (list_served c) (time_now (through_cache g A))"
  unfolding lb_do_def WatchAction_def time_now_def through_cache_def api.simps
  by (rule keeps_raw; simp)+

section \<open>Reconciling targets over the shared client\<close>

lemma keeps_report: "keeps (cache_from c) log_grows (list_served c) (HandleRateLimitExceededError (through_cache g A) e obj)"
  unfolding HandleRateLimitExceededError_def SetRateLimit_def
  by (intro client.keeps_rules keeps_calls keeps_event)

lemma keeps_target_steps:
  assumes "l_api L = through_cache g A"
  shows "keeps (cache_from c) log_grows (list_served c) (remove_target L op q st)"
    "keeps (cache_from c) log_grows (list_served c) (add_target L op q st)"
    "keeps (cache_from c) log_grows (list_served c) (robot_servers L svc)"
  unfolding remove_target_def add_target_def do_and_watch_def robot_servers_def assms
  by (intro client.keeps_rules keeps_calls keeps_event keeps_report keeps_robot_list)+

lemma keeps_bodies:
  assumes "l_api L = through_cache g A"
  shows "keeps (cache_from c) log_grows (list_served c) (node_body n ns)"
    "keeps (cache_from c) log_grows (list_served c) (remove_body L E t st)"
    "keeps (cache_from c) log_grows (list_served c) (add_server_body L obj E i st)"
    "keeps (cache_from c) log_grows (list_served c) (add_robot_body L obj E i st)"
proof -
  show "keeps (cache_from c) log_grows (list_served c) (node_body n ns)"
    unfolding node_body_def by (intro client.keeps_rules keeps_event)
  show "keeps (cache_from c) log_grows (list_served c) (remove_body L E t st)"
    by (cases t) (auto simp: Let_def intro!: client.keeps_rules keeps_target_steps [OF assms] split del: if_split)
  show "keeps (cache_from c) log_grows (list_served c) (add_server_body L obj E i st)"
    unfolding add_server_body_def limit_event_def
    by (intro client.keeps_rules keeps_event keeps_target_steps [OF assms])
  show "keeps (cache_from c) log_grows (list_served c) (add_robot_body L obj E i st)"
    unfolding add_robot_body_def add_ip_body_def limit_event_def
    by (intro client.keeps_rules keeps_event keeps_target_steps [OF assms])
qed

lemma keeps_targets:
  assumes "l_api L = through_cache g A"
  shows "keeps (cache_from c) log_grows (list_served c) (ReconcileHCLBTargets L lb svc nodes)"
  unfolding ReconcileHCLBTargets_def sync_targets_def
  by (intro client.keeps_rules keeps_bodies [OF assms] keeps_target_steps [OF assms])

lemma targets_lists_served:
  assumes "run_state (ReconcileHCLBTargets L lb svc nodes) s = (res, s')"
    and "l_api L = through_cache g A" and "trace s' = trace s @ cs"
    and "RobotList (Inr xs) \<in> set cs"
  shows "served (rw_cache (ext s)) (rw_log (ext s')) xs"
  using keeps_targets [OF assms(2), of "rw_cache (ext s)"] assms
  unfolding keeps_def by (fastforce simp: cache_from_def list_served_def)

text \<open>A run that succeeds has an answer to the request for the dedicated servers.\<close>

lemma robot_answer_in: "RobotList (Inr xs) \<in> set cs \<Longrightarrow> RobotList (Inr (robot_answer cs)) \<in> set cs"
  by (induction cs rule: robot_answer.induct) auto

lemma listed_from_robot:
  assumes "l_has_robot L"
  shows "valid (ReconcileHCLBTargets L lb svc nodes) (\<lambda>cs (ch, err). err = None \<longrightarrow> RobotList (Inr (listed_servers L cs)) \<in> set cs)"
proof -
  have sync: "valid (sync_targets L svc E) (\<lambda>cs res. Q cs res)" if "\<And>cs res. Q cs res" for E Q
    by (rule valid_mono [OF accounted_sync]) (rule that)
  have "valid (ReconcileHCLBTargets L lb svc nodes) (\<lambda>cs (ch, err). err = None \<longrightarrow> (\<exists>xs. RobotList (Inr xs) \<in> set cs))"
    unfolding ReconcileHCLBTargets_def
    by (auto intro!: valid_return valid_bind valid_mono [OF node_loop] valid_robot_servers sync assms split: sum.split if_splits) blast+
  then show ?thesis
    by (rule valid_mono) (auto simp: listed_servers_def assms dest: robot_answer_in)
qed

text \<open>C2: Convergence of the targets over the shared Robot client. When the load balancers that
  \<open>newCloud\<close> configures reconcile the targets without an error or a refused request, the load balancer
  ends with exactly the cloud nodes and the addresses of the dedicated nodes, and the list of dedicated servers
  that the addresses are read from is the client's cached one, within its timeout by the clock that the client has
  read, or an answer that the raw Robot API gave in this run: never an older list.\<close>

theorem targets_from_fresh_list:
  assumes "L = newLBOps R (through_cache g A) True i d" and "rw_log (ext s) = []"
    and "run_state (ReconcileHCLBTargets L lb svc nodes) s = ((ch, None), s')" and "trace s' = trace s @ cs"
    and "distinct_targets lb" and "ip_targets_parse lb" and "clean cs" and "distinct (map rs_number (listed_servers L cs))"
  shows "\<exists>priv f xs. apply_requests (changes cs) (abs_targets lb) = desired_targets priv f nodes xs \<union> (abs_targets lb \<inter> {AOther}) \<and>
    getUsePrivateIP L svc = Inr priv \<and> getRobotTargetFamily L svc = Inr f \<and>
    (cached_in_time (rw_cache (ext s)) (rw_log (ext s')) xs \<or> RobotList (Inr xs) \<in> set (rw_log (ext s')))"
proof -
  have L: "l_has_robot L" "l_api L = through_cache g A" by (simp_all add: assms(1) newLBOps_def)
  have run: "runs (ReconcileHCLBTargets L lb svc nodes) cs (ch, None)"
    unfolding runs_def using assms(3,4) by blast
  from valid_runs [OF listed_from_robot [OF L(1)] this] have "RobotList (Inr (listed_servers L cs)) \<in> set cs" by simp
  from targets_lists_served [OF assms(3) L(2) assms(4) this]
  have "served (rw_cache (ext s)) (rw_log (ext s')) (listed_servers L cs)" .
  then show ?thesis
    using valid_runs [OF targets_converge_valid [OF assms(5,6)] run] assms(7,8) unfolding served_def by auto
qed

text \<open>C11: The handlers of nodes and the load balancers treat the rate limit differently. In a state in
  which the limiter blocks until the time T, no handler of a node asks the Robot API anything as long as its clock has not
  reached T; a reconciliation of targets that starts in the same state, with nothing in the client's cache, asks the raw
  Robot API all the same.\<close>

theorem nodes_wait_services_ask:
  fixes r :: robot_cache
  assumes "blocked_until T (globals s)"
    and "L = newLBOps R (through_cache g A) True i d" and "rc_map (rw_cache (ext s)) = None" and "rw_log (ext s) = []"
    and "run_state (ReconcileHCLBTargets L lb svc nodes) s = ((ch, None), s')"
    and "in_robot I = None \<or> in_robot I = Some (cached_client B)"
    and "run_state (node_steps I ops r) u = (r', u')" and "globals u = globals s"
    and "trace u' = trace u @ ds" and "\<forall>t. Now t \<in> set ds \<longrightarrow> t < T"
  shows "robot_quiet ds \<and> (\<exists>xs. RobotList (Inr xs) \<in> set (rw_log (ext s')))"
proof
  show "robot_quiet ds"
    using gvalid_run [OF cached_reports.steps_quiet [OF assms(6), of _ _ _ T] assms(7)] assms(1,8-10)
    by (auto simp: clocks_Now)
next
  have L: "l_has_robot L" "l_api L = through_cache g A" by (simp_all add: assms(2) newLBOps_def)
  obtain cs where cs: "trace s' = trace s @ cs" "RobotList (Inr (listed_servers L cs)) \<in> set cs"
    using validD [OF listed_from_robot [OF L(1)] assms(5)] by auto
  from targets_lists_served [OF assms(5) L(2) cs] assms(3)
  show "\<exists>xs. RobotList (Inr xs) \<in> set (rw_log (ext s'))" by (auto simp: served_def cached_in_time_def)
qed

section \<open>The theorems at concrete inputs\<close>

definition sample_runtime :: "'w runtime" where
  "sample_runtime = \<lparr>rn_ord_hcloud = (\<lambda>_. 0), rn_ord_robot = (\<lambda>_. 0), rn_ord_ports = (\<lambda>_. 0),
     rn_retry = (\<lambda>m. m), rn_no_ipv4 = (\<lambda>x. x = ''''), rn_no_ipv6 = (\<lambda>x. x = '''')\<rparr>"

definition shared_ops :: "unit robot_world lb_ops" where
  "shared_ops = newLBOps sample_runtime (through_cache sample_globals robot_api) True 0 sample_defaults"

definition limited_globals :: go_globals where
  "limited_globals = sample_globals\<lparr>g_rate_limit := \<lparr>waitTime = 300, exceeded = True, lastChecked = 0\<rparr>\<rparr>"

definition shared_start :: "robot_cache \<Rightarrow> (api_call, go_globals, unit robot_world) world" where
  "shared_start c = \<lparr>trace = [], globals = limited_globals, ext = \<lparr>rw_raw = (), rw_cache = c, rw_log = []\<rparr>\<rparr>"

text \<open>A load balancer with the address of no server, in a cluster of one dedicated node.\<close>

definition old_lb :: load_balancer where
  "old_lb = sample_lb\<lparr>lb_targets := [IPTarget ''10.0.0.9'']\<rparr>"

definition shared_run :: "robot_cache \<Rightarrow> (bool \<times> goerr option) \<times> (api_call, go_globals, unit robot_world) world" where
  "shared_run c = run_state (ReconcileHCLBTargets shared_ops old_lb (annotated []) [node_of ''bm'' ''hrobot://5'']) (shared_start c)"

text \<open>A client whose list is thirty seconds old, and one without a list.\<close>

definition warm_client :: robot_cache where
  "warm_client = (fresh_client 60)\<lparr>rc_list := [sample_robot], rc_map := Some (servers_by_number [sample_robot]), rc_last_update := - 30\<rparr>"

lemma shared_run_facts:
  "case shared_run warm_client of (a, s') \<Rightarrow> a = (True, None) \<and> list_all (\<lambda>c. \<not> refused c \<and> \<not> limit_hit c) (trace s') \<and>
     robot_answer (trace s') = [sample_robot] \<and> list_all (\<lambda>c. \<not> robot_request c) (rw_log (ext s'))"
  "case shared_run (fresh_client 60) of (a, s') \<Rightarrow> a = (True, None)"
  by code_simp+

theorem targets_from_fresh_list_witness:
  "\<exists>cs s'. shared_run warm_client = ((True, None), s') \<and> trace s' = cs \<and> robot_quiet (rw_log (ext s')) \<and>
     (\<exists>priv f. apply_requests (changes cs) (abs_targets old_lb) =
        desired_targets priv f [node_of ''bm'' ''hrobot://5''] [sample_robot] \<union> (abs_targets old_lb \<inter> {AOther}))"
proof -
  obtain a s' where run: "shared_run warm_client = (a, s')" by (metis prod.collapse)
  with shared_run_facts(1) have facts: "a = (True, None)" "clean (trace s')" "robot_answer (trace s') = [sample_robot]"
    "robot_quiet (rw_log (ext s'))"
    by (simp_all add: clean_def list_all_iff robot_quiet_def)
  have lb: "distinct_targets old_lb" "ip_targets_parse old_lb"
    unfolding distinct_targets_def ip_targets_parse_def old_lb_def by (simp_all, code_simp)
  have start: "trace s' = trace (shared_start warm_client) @ trace s'" "rw_cache (ext (shared_start warm_client)) = warm_client"
    "rw_log (ext (shared_start warm_client)) = []"
    by (simp_all add: shared_start_def)
  have "listed_servers shared_ops (trace s') = [sample_robot]"
    using facts(3) by (simp add: listed_servers_def shared_ops_def newLBOps_def)
  then have "distinct (map rs_number (listed_servers shared_ops (trace s')))" by simp
  note targets_from_fresh_list [OF shared_ops_def start(3) run [unfolded shared_run_def facts(1)] start(1) lb facts(2) this]
  then obtain priv f xs where xs: "apply_requests (changes (trace s')) (abs_targets old_lb) =
      desired_targets priv f [node_of ''bm'' ''hrobot://5''] xs \<union> (abs_targets old_lb \<inter> {AOther})"
    "cached_in_time warm_client (rw_log (ext s')) xs \<or> RobotList (Inr xs) \<in> set (rw_log (ext s'))"
    unfolding start(2) by blast
  then have "xs = [sample_robot]"
    using facts(4) by (auto simp: cached_in_time_def warm_client_def robot_quiet_def)
  with xs(1) run facts(1,4) show ?thesis by blast
qed

theorem nodes_wait_services_ask_witness:
  "\<exists>s' xs. shared_run (fresh_client 60) = ((True, None), s') \<and> blocked_until 300 limited_globals \<and>
     RobotList (Inr xs) \<in> set (rw_log (ext s'))"
proof -
  obtain s' where run: "shared_run (fresh_client 60) = ((True, None), s')"
    using shared_run_facts(2) by (auto split: prod.splits)
  have blocked: "blocked_until 300 (globals (shared_start (fresh_client 60)))"
    by (simp add: blocked_until_def shared_start_def limited_globals_def)
  have start: "rc_map (rw_cache (ext (shared_start (fresh_client 60)))) = None" "rw_log (ext (shared_start (fresh_client 60))) = []"
    by (simp_all add: shared_start_def fresh_client_def)
  let ?m = "node_steps limited_instances [Exists (node_of ''bm-1'' '''')] (fresh_client 60)"
  let ?u = "\<lparr>trace = [], globals = limited_globals, ext = 0\<rparr> :: (api_call, go_globals, time) world"
  obtain r' u' where node: "run_state ?m ?u = (r', u')" by (metis prod.collapse)
  have "list_all (\<lambda>c. \<forall>t \<in> set (clock_call c). t < 300) (trace (snd (run_state ?m ?u)))" by code_simp
  then have clock: "\<forall>t. Now t \<in> set (trace u') \<longrightarrow> t < 300" unfolding node by (auto simp: list_all_iff)
  have "robot_quiet (trace u') \<and> (\<exists>xs. RobotList (Inr xs) \<in> set (rw_log (ext s')))"
    by (rule nodes_wait_services_ask [OF blocked shared_ops_def start run [unfolded shared_run_def] _ node _ _ clock])
      (simp_all add: limited_instances_def shared_start_def)
  with run blocked show ?thesis by (auto simp: shared_start_def)
qed

end
