(* ===== verification/StartFailures.thy ===== *)
theory StartFailures
  imports CloudCorrect
begin

text \<open>
  Why a start fails: the other half of \<open>newCloud\<close> in \<open>hcloud/cloud.go\<close>. \<open>CloudCorrect\<close> says what holds after
  a start that succeeds; here every failure is traced to a malformed variable of the environment or to an answer
  that the start got, so that a start without such a cause succeeds.
\<close>

section \<open>The causes\<close>

definition bad_duration :: "environ \<Rightarrow> string \<Rightarrow> bool" where
  "bad_duration env k \<longleftrightarrow> getenv env k \<noteq> '''' \<and> ParseDuration (getenv env k) = None"

definition secret_file :: "string \<Rightarrow> string \<Rightarrow> string" where
  "secret_file wd key = path_join [GetDirectory wd, key]"

text \<open>No token of 64 characters: the first file that can be read holds another, or none can be read and the
  environment has none.\<close>

definition token_cause :: "environ \<Rightarrow> string \<Rightarrow> api_call list \<Rightarrow> bool" where
  "token_cause env wd cs \<longleftrightarrow>
     (\<exists>t. (ReadFile (secret_file wd ''hcloud'') (Inr t) \<in> set cs \<or> ReadFile (secret_file wd ''token'') (Inr t) \<in> set cs) \<and>
        length (trim_space t) \<noteq> 64) \<or>
     (\<exists>e. ReadFile (secret_file wd ''hcloud'') (Inl e) \<in> set cs) \<and> (\<exists>e. ReadFile (secret_file wd ''token'') (Inl e) \<in> set cs) \<and>
       length (getenv env ''HCLOUD_TOKEN'') \<noteq> 64"

text \<open>The secrets directory exists, but a file of the Robot credentials cannot be read.\<close>

definition robot_cause :: "string \<Rightarrow> api_call list \<Rightarrow> bool" where
  "robot_cause wd cs \<longleftrightarrow> Stat (GetDirectory wd) None \<in> set cs \<and>
     (\<exists>e. ReadFile (secret_file wd ''robot-user'') (Inl e) \<in> set cs \<or> ReadFile (secret_file wd ''robot-password'') (Inl e) \<in> set cs)"

text \<open>The configured network cannot be found, or this node is not known to be attached to it.\<close>

definition network_cause :: "environ \<Rightarrow> string \<Rightarrow> api_call list \<Rightarrow> bool" where
  "network_cause env v cs \<longleftrightarrow> (\<exists>e. NetworkGet v (Inl e) \<in> set cs) \<or> NetworkGet v (Inr None) \<in> set cs \<or>
     \<not> switch_ok env ''HCLOUD_NETWORK_DISABLE_ATTACHED_CHECK'' \<or> (\<exists>e. MetadataNetworks (Inl e) \<in> set cs) \<or>
     (\<exists>n nets. NetworkGet v (Inr (Some n)) \<in> set cs \<and> MetadataNetworks (Inr nets) \<in> set cs \<and>
        \<not> contains nets (''network_id: '' @ format_int (nw_id n) @ [CHR 0x0A]))"

definition start_cause :: "environ \<Rightarrow> api_call list \<Rightarrow> bool" where
  "start_cause env cs \<longleftrightarrow> \<not> env_ok env \<or> bad_duration env ''CACHE_TIMEOUT'' \<or>
     (\<exists>e. Getwd (Inl e) \<in> set cs) \<or>
     (\<exists>wd. Getwd (Inr wd) \<in> set cs \<and> (token_cause env wd cs \<or> robot_cause wd cs \<or>
        (\<exists>e. WatchDir (GetDirectory wd) (Some e) \<in> set cs))) \<or>
     (\<exists>v. env ''HCLOUD_NETWORK'' = Some v \<and> network_cause env v cs) \<or>
     (\<exists>e. ServerList (Some e) \<in> set cs)"

lemma cause_mono:
  assumes "set cs \<subseteq> set ds"
  shows "token_cause env wd cs \<Longrightarrow> token_cause env wd ds" "robot_cause wd cs \<Longrightarrow> robot_cause wd ds"
    "network_cause env v cs \<Longrightarrow> network_cause env v ds"
  using assms unfolding token_cause_def robot_cause_def network_cause_def by blast+

section \<open>The parts of a start\<close>

lemma bad_duration_iff: "(\<exists>e. GetEnvDuration env k = Inl e) \<longleftrightarrow> bad_duration env k"
  by (auto simp: GetEnvDuration_def bad_duration_def Let_def split: option.split)

lemma token_fails: "valid (newHcloudClient A env wd) (\<lambda>cs r. \<forall>e. r = Inl e \<longrightarrow> token_cause env wd cs)"
  unfolding newHcloudClient_def GetInitialHcloudCredentialsFromDirectory_def readHcloudCredentials_def token_body_def
    range_loop.simps Let_def request_defs
  by (auto intro!: valid_rules simp: token_cause_def secret_file_def split: sum.split if_splits) blast+

lemma robot_fails:
  "valid (NewCachedRobotClient A env wd True) (\<lambda>cs r. \<forall>e. r = Inl e \<longrightarrow> bad_duration env ''CACHE_TIMEOUT'' \<or> robot_cause wd cs)"
proof (cases "GetEnvDuration env ''CACHE_TIMEOUT''")
  case (Inl e)
  then show ?thesis
    using bad_duration_iff by (auto simp: NewCachedRobotClient_def Let_def intro!: valid_return)
next
  case (Inr d)
  then show ?thesis
    unfolding NewCachedRobotClient_def GetInitialRobotCredentials_def readRobotCredentials_def Let_def request_defs
    by (auto intro!: valid_rules simp: robot_cause_def secret_file_def split: sum.splits option.split if_splits) blast+
qed

lemma network_fails:
  "valid (network_from_env A env) (\<lambda>cs r. \<forall>e. r = Inl e \<longrightarrow> (\<exists>v. env ''HCLOUD_NETWORK'' = Some v \<and> network_cause env v cs))"
proof (cases "getEnvBool env ''HCLOUD_NETWORK_DISABLE_ATTACHED_CHECK''")
  case (Inl e)
  then have "\<not> switch_ok env ''HCLOUD_NETWORK_DISABLE_ATTACHED_CHECK''" unfolding getEnvBool_ok [symmetric] by simp
  then have cause: "network_cause env v cs" for v cs by (simp add: network_cause_def)
  show ?thesis
  proof (cases "env ''HCLOUD_NETWORK''")
    case None
    then show ?thesis by (simp add: network_from_env_def valid_return)
  qed (auto intro: valid_mono [OF valid_network_from_env] simp del: valid_True simp: cause)
next
  case (Inr b)
  then show ?thesis
    unfolding network_from_env_def Let_def serverIsAttachedToNetwork_def request_defs
    by (auto intro!: valid_rules valid_or_return simp: network_cause_def split: option.split sum.splits)
qed

lemma finish_fails:
  "valid (do {
      listed \<leftarrow> server_list A;
      case listed of
        Some e \<Rightarrow> ret (Inl (op e))
      | None \<Rightarrow> or_return op (ret (cloud_from_env R A env has i)) (\<lambda>c. do {
          st \<leftarrow> stat A dir;
          err \<leftarrow> (if st = None then Watch A dir else ret None);
          ret (case err of Some e \<Rightarrow> Inl (op e) | None \<Rightarrow> Inr (c, robot))
        })
    }) (\<lambda>cs r. \<forall>e. r = Inl e \<longrightarrow> (\<exists>e. ServerList (Some e) \<in> set cs) \<or> \<not> env_ok env \<or> (\<exists>e. WatchDir dir (Some e) \<in> set cs))"
proof (cases "cloud_from_env R A env has i")
  case (Inl e)
  then have "\<not> env_ok env" using cloud_from_env_ok [of R A env has i] by auto
  with Inl show ?thesis
    unfolding request_defs or_return_def by (auto intro!: valid_rules simp del: valid_True split: option.split)
next
  case (Inr c)
  then show ?thesis
    unfolding Watch_def request_defs or_return_def by (auto intro!: valid_rules split: option.split)
qed

section \<open>Every failure has a cause\<close>

text \<open>A property of logs that more calls keep, established by every failure of a chain of calls.\<close>

definition grows :: "(api_call list \<Rightarrow> bool) \<Rightarrow> bool" where
  "grows P \<longleftrightarrow> (\<forall>cs ds. set cs \<subseteq> set ds \<longrightarrow> P cs \<longrightarrow> P ds)"

definition fails_by :: "(api_call list \<Rightarrow> bool) \<Rightarrow> ('w, goerr + 'a) go \<Rightarrow> bool" where
  "fails_by P m \<longleftrightarrow> valid m (\<lambda>cs r. \<forall>e. r = Inl e \<longrightarrow> P cs)"

lemma fails_or_return:
  assumes "grows P" and "fails_by P m" and "\<And>a. fails_by P (f a)"
  shows "fails_by P (or_return w m f)"
  unfolding fails_by_def
proof (rule valid_or_return, rule valid_mono [OF assms(2) [unfolded fails_by_def]], goal_cases)
  case (1 cs r)
  have more: "P ds \<Longrightarrow> P (cs @ ds)" for ds using assms(1) unfolding grows_def by (metis set_append sup_ge2)
  show ?case
  proof (cases r)
    case (Inr a)
    show ?thesis
      unfolding Inr sum.case by (rule valid_mono [OF assms(3) [unfolded fails_by_def]]) (auto intro: more)
  qed (use 1 in auto)
qed

lemma fails_mono: "fails_by P m \<Longrightarrow> (\<And>cs. P cs \<Longrightarrow> Q cs) \<Longrightarrow> fails_by Q m"
  unfolding fails_by_def by (erule valid_mono) blast

lemma start_cause_grows: "grows (\<lambda>cs. start_cause env (c # cs))"
  unfolding grows_def start_cause_def token_cause_def robot_cause_def network_cause_def by (simp, blast)

lemma start_cause_intros:
  "token_cause env wd cs \<Longrightarrow> start_cause env (Getwd (Inr wd) # cs)"
  "bad_duration env ''CACHE_TIMEOUT'' \<or> robot_cause wd cs \<Longrightarrow> start_cause env (Getwd (Inr wd) # cs)"
  "\<exists>v. env ''HCLOUD_NETWORK'' = Some v \<and> network_cause env v cs \<Longrightarrow> start_cause env (Getwd (Inr wd) # cs)"
  "(\<exists>e. ServerList (Some e) \<in> set cs) \<or> \<not> env_ok env \<or> (\<exists>e. WatchDir (GetDirectory wd) (Some e) \<in> set cs) \<Longrightarrow>
     start_cause env (Getwd (Inr wd) # cs)"
  using cause_mono [OF set_subset_Cons [of cs "Getwd (Inr wd)"]] by (auto simp: start_cause_def)

lemma newCloud_fails: "fails_by (start_cause env) (newCloud R A env)"
  unfolding newCloud_def Let_def fails_by_def
proof (rule valid_or_return, simp only: getwd_def, rule valid_request, goal_cases)
  case (1 wd)
  show ?case
  proof (cases wd)
    case (Inr dir)
    let ?P = "\<lambda>cs. start_cause env (Getwd (Inr dir) # cs)"
    note parts = token_fails [of A env dir, folded fails_by_def] robot_fails [of A env dir, folded fails_by_def]
      network_fails [of A env, folded fails_by_def] finish_fails [folded fails_by_def]
    show ?thesis
      unfolding Inr sum.case append_Cons append_Nil fails_by_def [symmetric]
      by (intro fails_or_return start_cause_grows; rule fails_mono, rule parts, erule start_cause_intros)
  qed (simp add: start_cause_def)
qed

text \<open>C18: A start of the provider fails only for a cause: a malformed variable of the environment, no working directory, no
  token of 64 characters, unreadable Robot credentials in an existing secrets directory, a network that is not found or that
  the node is not attached to, a failed request to the Hetzner API, or a directory that cannot be watched. So a start in which
  none of this happens succeeds, and its provider is configured from the environment.\<close>

theorem start_fails_for_cause:
  assumes "runs (newCloud R A env) cs r"
  shows "(\<forall>e. r = Inl e \<longrightarrow> start_cause env cs) \<and>
    (\<not> start_cause env cs \<longrightarrow> (\<exists>c robot. r = Inr (c, robot) \<and> configured R A env (robot \<noteq> None) (cl_network_id c) c))"
proof -
  have "\<forall>e. r = Inl e \<longrightarrow> start_cause env cs"
    using valid_runs [OF newCloud_fails [unfolded fails_by_def] assms] .
  moreover have "started R A env cs r" by (rule valid_runs [OF valid_newCloud assms])
  ultimately show ?thesis by (cases r) (auto simp: started_def)
qed

text \<open>A secrets directory whose token file is empty.\<close>

theorem start_fails_for_cause_witness:
  "\<exists>cs e. runs (newCloud start_runtime quiet_api start_env) cs (Inl e) \<and> start_cause start_env cs"
proof -
  let ?m = "newCloud start_runtime quiet_api start_env"
  have "isl (fst (outcome ?m sample_globals ()))" by code_simp
  then obtain e where e: "fst (outcome ?m sample_globals ()) = Inl e" by (auto simp: isl_def)
  with runs_outcome [OF e] start_fails_for_cause [OF runs_outcome [OF e]] show ?thesis by blast
qed

end
