(* ===== verification/EntryPoint.thy ===== *)
theory EntryPoint
  imports CloudCorrect InstancesCorrect
begin

text \<open>
  \<open>main.go\<close> and the registration of the provider in \<open>hcloud/cloud.go\<close>: the flags, which reach
  the provider through the environment of the process, and the initialisation of the provider for
  the controllers. The command library (cobra and the framework's \<open>app\<close> package) and the
  framework's \<open>InitCloudProvider\<close> are parameters.
\<close>

section \<open>Processes\<close>

text \<open>Code that may end the process: \<open>os.Exit\<close> with a code, \<open>klog.Fatalf\<close> with a message.\<close>

datatype 'a process = Exited nat | Fatal string | Running 'a

text \<open>\<open>os.Setenv\<close>: a name that is empty or holds an equals sign or a zero byte and a value with a
  zero byte are refused.\<close>

definition os_Setenv :: "string \<Rightarrow> string \<Rightarrow> environ \<Rightarrow> goerr + environ" where
  "os_Setenv k v env =
     (if k = '''' \<or> CHR ''='' \<in> set k \<or> CHR 0x00 \<in> set k \<or> CHR 0x00 \<in> set v
      then Inl (Msg ''setenv: invalid argument'') else Inr (env(k \<mapsto> v)))"

definition UseHrobotProviderIDForBaremetalEnvVar :: string where
  "UseHrobotProviderIDForBaremetalEnvVar = ''HCLOUD_USE_HROBOT_PROVIDER_ID_FOR_BAREMETAL''"

section \<open>The command\<close>

record cloud_config =
  cc_name :: string
  cc_config_file :: string
  cc_allow_untagged :: bool

record cmd_flags =
  fl_ccm_version :: bool
  fl_use_hrobot :: bool
  fl_cloud :: cloud_config

definition PersistentPreRunE :: "cmd_flags \<Rightarrow> environ \<Rightarrow> (goerr + environ) process" where
  "PersistentPreRunE fl env =
     (if fl_ccm_version fl then Exited 0
      else if fl_use_hrobot fl then Running (os_Setenv UseHrobotProviderIDForBaremetalEnvVar ''true'' env)
      else Running (Inr env))"

text \<open>A provider and the state of its Robot client, as \<open>newCloud\<close> returns them, and the registry of
  providers, in which the package puts its own under its name.\<close>

type_synonym 'w provider = "'w cloud \<times> robot_cache option"
type_synonym 'w registry = "string \<rightharpoonup> ('w, goerr + 'w provider) go"
type_synonym 'w init_provider = "string \<Rightarrow> string \<Rightarrow> ('w, goerr + 'w provider option) go"

definition RegisterCloudProvider :: "'w runtime \<Rightarrow> 'w api \<Rightarrow> environ \<Rightarrow> 'w registry \<Rightarrow> 'w registry" where
  "RegisterCloudProvider R A env F = F(ProviderName \<mapsto> newCloud R A env)"

definition cloudInitializer :: "'w init_provider \<Rightarrow> cloud_config \<Rightarrow> ('w, 'w provider process) go" where
  "cloudInitializer InitCloudProvider cfg = do {
     r \<leftarrow> InitCloudProvider (cc_name cfg) (cc_config_file cfg);
     ret (case r of
            Inl e \<Rightarrow> Fatal (''Cloud provider could not be initialized: '' @ err_text e)
          | Inr None \<Rightarrow> Fatal ''Cloud provider is nil''
          | Inr (Some c) \<Rightarrow>
              if \<not> HasClusterID \<and> \<not> cc_allow_untagged cfg then
                Fatal ''no ClusterID found.  A ClusterID is required for the cloud provider to function properly.  This check can be bypassed by setting the allow-untagged-cloud option''
              else Running c)
   }"

text \<open>
  \<open>command.Execute\<close>, given the two functions of the program, the parsed flags and the environment,
  and \<open>main\<close>: an error of the options is fatal, an error of the command ends the process with 1.
\<close>

type_synonym 'w execute = "(environ \<Rightarrow> (goerr + environ) process) \<Rightarrow>
  (environ \<Rightarrow> ('w, 'w provider process) go) \<Rightarrow> environ \<Rightarrow> ('w, (goerr + 'w provider) process) go"

definition main_program :: "goerr option \<Rightarrow> 'w execute \<Rightarrow> (environ \<Rightarrow> 'w init_provider) \<Rightarrow> cmd_flags \<Rightarrow> environ \<Rightarrow>
    ('w, 'w provider process) go" where
  "main_program opts_err Execute InitCloudProvider fl env =
     (case opts_err of
        Some e \<Rightarrow> ret (Fatal (''unable to initialize command options: '' @ err_text e))
      | None \<Rightarrow> do {
          r \<leftarrow> Execute (PersistentPreRunE fl) (\<lambda>env. cloudInitializer (InitCloudProvider env) (fl_cloud fl)) env;
          ret (case r of
                 Exited n \<Rightarrow> Exited n
               | Fatal t \<Rightarrow> Fatal t
               | Running (Inl e) \<Rightarrow> Exited 1
               | Running (Inr c) \<Rightarrow> Running c)
        })"

section \<open>What the program relies on\<close>

text \<open>The documentation of cobra: the persistent pre-run happens before the run, and an error or an
  exit there keeps the run from starting. The run of the framework's command calls the initializer.\<close>

definition execute_law :: "'w execute \<Rightarrow> bool" where
  "execute_law Execute \<longleftrightarrow>
     (\<forall>pre run env cs c. runs (Execute pre run env) cs (Running (Inr c)) \<longrightarrow>
        (\<exists>env' ds. pre env = Running (Inr env') \<and> runs (run env') ds (Running c) \<and> set ds \<subseteq> set cs))"

text \<open>The documentation of \<open>InitCloudProvider\<close>: it creates an instance of the named provider with
  the function registered under that name.\<close>

definition init_law :: "'w registry \<Rightarrow> 'w init_provider \<Rightarrow> bool" where
  "init_law F InitCloudProvider \<longleftrightarrow>
     (\<forall>name config_file cs c. runs (InitCloudProvider name config_file) cs (Inr (Some c)) \<longrightarrow>
        (\<exists>f. F name = Some f \<and> runs f cs (Inr c)))"

section \<open>A process that started\<close>

text \<open>The environment in which the provider is created.\<close>

definition flag_env :: "cmd_flags \<Rightarrow> environ \<Rightarrow> environ" where
  "flag_env fl env = (if fl_use_hrobot fl then env(UseHrobotProviderIDForBaremetalEnvVar \<mapsto> ''true'') else env)"

lemma pre_run_env:
  "PersistentPreRunE fl env = Running (Inr env') \<longleftrightarrow> \<not> fl_ccm_version fl \<and> env' = flag_env fl env"
  by (auto simp: PersistentPreRunE_def os_Setenv_def UseHrobotProviderIDForBaremetalEnvVar_def flag_env_def
      split: if_splits)

lemma runs_map:
  assumes "runs (do { r \<leftarrow> m; ret (f r) }) cs a"
  shows "\<exists>r. runs m cs r \<and> f r = a"
  using assms unfolding runs_def by (force split: prod.splits)

lemma initializer_runs:
  assumes "runs (cloudInitializer init cfg) cs (Running c)"
  shows "runs (init (cc_name cfg) (cc_config_file cfg)) cs (Inr (Some c)) \<and> cc_allow_untagged cfg"
proof -
  from runs_map [OF assms [unfolded cloudInitializer_def]]
  obtain r where "runs (init (cc_name cfg) (cc_config_file cfg)) cs r" and
    "(case r of Inl e \<Rightarrow> Fatal (''Cloud provider could not be initialized: '' @ err_text e)
      | Inr None \<Rightarrow> Fatal ''Cloud provider is nil''
      | Inr (Some c) \<Rightarrow> if \<not> HasClusterID \<and> \<not> cc_allow_untagged cfg then
          Fatal ''no ClusterID found.  A ClusterID is required for the cloud provider to function properly.  This check can be bypassed by setting the allow-untagged-cloud option''
        else Running c) = Running c"
    by blast
  then show ?thesis by (auto simp: HasClusterID_def split: sum.splits option.splits if_splits)
qed

lemma main_runs:
  assumes "execute_law Execute" and "\<forall>env. init_law (RegisterCloudProvider R A env Map.empty) (init env)"
    and "runs (main_program opts_err Execute init fl env) cs (Running (c, robot))"
  shows "opts_err = None \<and> \<not> fl_ccm_version fl \<and> cc_allow_untagged (fl_cloud fl) \<and>
    (\<exists>ds. set ds \<subseteq> set cs \<and> runs (init (flag_env fl env) (cc_name (fl_cloud fl)) (cc_config_file (fl_cloud fl))) ds (Inr (Some (c, robot))))"
proof -
  have none: "opts_err = None"
    using assms(3) by (auto simp: main_program_def runs_def split: option.splits)
  let ?run = "\<lambda>env. cloudInitializer (init env) (fl_cloud fl)"
  from runs_map [OF assms(3) [unfolded main_program_def none option.case]]
  obtain r where r: "runs (Execute (PersistentPreRunE fl) ?run env) cs r" and
    "(case r of Exited n \<Rightarrow> Exited n | Fatal t \<Rightarrow> Fatal t | Running (Inl e) \<Rightarrow> Exited 1 | Running (Inr c) \<Rightarrow> Running c) = Running (c, robot)"
    by blast
  then have "r = Running (Inr (c, robot))" by (auto split: process.splits sum.splits)
  with r assms(1) obtain env' ds where "PersistentPreRunE fl env = Running (Inr env')"
      "runs (?run env') ds (Running (c, robot))" "set ds \<subseteq> set cs"
    unfolding execute_law_def by blast
  with none initializer_runs show ?thesis unfolding pre_run_env by blast
qed

text \<open>What \<open>newCloud\<close> returned comes from the end of its body.\<close>

definition returns :: "('w, 'a) go \<Rightarrow> 'a \<Rightarrow> bool" where
  "returns m a \<longleftrightarrow> (\<exists>s s'. run_state m s = (a, s'))"

lemma returns_or_return:
  "returns (or_return w m f) (Inr b) \<Longrightarrow> \<exists>a. returns m (Inr a) \<and> returns (f a) (Inr b)"
  unfolding returns_def or_return_def by (force split: prod.splits sum.splits)

lemma runs_returns: "runs m cs a \<Longrightarrow> returns m a"
  unfolding runs_def returns_def by blast

lemma returns_bind: "returns (State_Monad.bind m f) b \<Longrightarrow> \<exists>a. returns m a \<and> returns (f a) b"
  unfolding returns_def by (force split: prod.splits)

lemma returns_ret: "returns (ret a) b \<longleftrightarrow> b = a"
  unfolding returns_def by auto

lemma newCloud_from_env:
  assumes "returns (newCloud R A env) (Inr (c, robot))"
  shows "\<exists>i. cloud_from_env R A env (robot \<noteq> None) i = Inr c"
proof -
  from assms [unfolded newCloud_def Let_def] show ?thesis
    by (auto dest!: returns_or_return returns_bind simp: returns_ret split: option.splits) blast
qed

lemma from_env_flag:
  assumes "cloud_from_env R A (flag_env fl env) has_robot i = Inr c"
  shows "getEnvBool (flag_env fl env) UseHrobotProviderIDForBaremetalEnvVar = Inr (in_use_hrobot (cl_instances c))"
  using assms unfolding cloud_from_env_def UseHrobotProviderIDForBaremetalEnvVar_def
  by (auto simp: newInstances_def split: sum.splits prod.splits)

lemma flag_env_true: "fl_use_hrobot fl \<Longrightarrow> getEnvBool (flag_env fl env) UseHrobotProviderIDForBaremetalEnvVar = Inr True"
  by (simp add: getEnvBool_def flag_env_def parse_bool_def)

text \<open>C17: A process whose controllers run was started with the cloud provider hcloud, with untagged clouds
  allowed and without --ccm-version, from an environment in which every variable the provider reads is
  well-formed; its parts are configured from that environment, in which --use-hrobot-provider-id-for-baremetal
  has set its variable, so that with the flag the instances give hrobot:// provider IDs whatever the
  environment said before. A start that got this far has also listed servers once, and knows the network it names.\<close>

theorem process_started:
  assumes "execute_law Execute" and "\<forall>env. init_law (RegisterCloudProvider R A env Map.empty) (init env)"
    and "runs (main_program opts_err Execute init fl env) cs (Running (c, robot))"
  shows "cc_name (fl_cloud fl) = ''hcloud'' \<and> cc_allow_untagged (fl_cloud fl) \<and> \<not> fl_ccm_version fl \<and>
    env_ok (flag_env fl env) \<and> configured R A (flag_env fl env) (robot \<noteq> None) (cl_network_id c) c \<and>
    network_known (flag_env fl env) (cl_network_id c) cs \<and> ServerList None \<in> set cs \<and>
    (fl_use_hrobot fl \<longrightarrow> in_use_hrobot (cl_instances c))"
proof -
  obtain ds where ds: "set ds \<subseteq> set cs" and flags: "\<not> fl_ccm_version fl" "cc_allow_untagged (fl_cloud fl)"
    and "runs (init (flag_env fl env) (cc_name (fl_cloud fl)) (cc_config_file (fl_cloud fl))) ds (Inr (Some (c, robot)))"
    using main_runs [OF assms] by blast
  then obtain f where "RegisterCloudProvider R A (flag_env fl env) Map.empty (cc_name (fl_cloud fl)) = Some f"
      "runs f ds (Inr (c, robot))"
    using assms(2) unfolding init_law_def by blast
  then have name: "cc_name (fl_cloud fl) = ''hcloud''" and new: "runs (newCloud R A (flag_env fl env)) ds (Inr (c, robot))"
    by (auto simp: RegisterCloudProvider_def ProviderName_def split: if_splits)
  from newCloud_from_env [OF runs_returns [OF new]] flag_env_true [of fl env]
  have "fl_use_hrobot fl \<longrightarrow> in_use_hrobot (cl_instances c)" by (auto dest: from_env_flag)
  moreover have "network_known (flag_env fl env) i cs" if "network_known (flag_env fl env) i ds" for i
    using that ds by (auto simp: network_known_def split: option.splits)
  ultimately show ?thesis using valid_runs [OF valid_newCloud new] name flags ds by (auto simp: started_def)
qed

text \<open>C26: With the flag, a dedicated server's node that has no provider ID gets the ID hrobot:// and the
  number of the Robot server of the node's name, in every started process, whatever value the environment
  gave the variable: the flag reaches the instances through the environment.\<close>

theorem flag_names_nodes:
  assumes "execute_law Execute" and "\<forall>env. init_law (RegisterCloudProvider R A env Map.empty) (init env)"
    and "runs (main_program opts_err Execute init fl env) cs (Running (c, robot))" and "fl_use_hrobot fl"
    and "InstancesV2 (Initialize b c) = Some I" and "cache_ok rc"
    and "runs (InstanceMetadata I node rc) ds (Inr md, rc')"
    and "nd_provider_id node = ''''" and "\<not> isHCloudServerByName (nd_name node)"
  shows "\<exists>s. name_answer cached_list rc (nd_name node) ds (Some s) \<and>
    md_provider_id md = ''hrobot://'' @ format_int (rs_number s)"
proof -
  obtain es f where "runs (init (flag_env fl env) (cc_name (fl_cloud fl)) (cc_config_file (fl_cloud fl))) es (Inr (Some (c, robot)))"
    and f: "RegisterCloudProvider R A (flag_env fl env) Map.empty (cc_name (fl_cloud fl)) = Some f" "runs f es (Inr (c, robot))"
    using main_runs [OF assms(1-3)] assms(2) unfolding init_law_def by blast
  then have "runs (newCloud R A (flag_env fl env)) es (Inr (c, robot))"
    by (auto simp: RegisterCloudProvider_def split: if_splits)
  from newCloud_from_env [OF runs_returns [OF this]] obtain i
    where c: "cloud_from_env R A (flag_env fl env) (robot \<noteq> None) i = Inr c" by blast
  have I: "I = cl_instances c" using assms(5)
    by (auto simp: InstancesV2_def Initialize_def split: option.splits if_splits)
  have flag: "in_use_hrobot I"
    using from_env_flag [OF c] flag_env_true [OF assms(4)] I by simp
  have client: "in_robot I = None \<or> in_robot I = Some (cached_client A)"
    using cloud_from_env_configured [OF c] I by (auto simp: configured_def)
  obtain g where g: "instance_answer I cached_list rc node ds g" "metadata_of I node g = Inr md"
    using valid_runs [OF valid_metadata [OF cached.robot_provider_axioms assms(6) client] assms(7)] by auto
  then obtain s where "g = RobotServer (Some s)" "name_answer cached_list rc (nd_name node) ds (Some s)"
    using assms(8,9) by (auto simp: instance_answer_def metadata_of_def split: found_server.splits option.splits)
  with g(2) flag assms(8) show ?thesis
    by (auto simp: metadata_of_def robot_metadata_def GetBaremetalProviderID_def prefixRobotNew_def map_sum_def split: sum.splits)
qed

section \<open>The theorems at concrete inputs\<close>

text \<open>A command that runs the pre-run and then the initializer, and a lookup in the registry.\<close>

definition plain_execute :: "'w execute" where
  "plain_execute pre run env =
     (case pre env of
        Exited n \<Rightarrow> ret (Exited n)
      | Fatal t \<Rightarrow> ret (Fatal t)
      | Running (Inl e) \<Rightarrow> ret (Running (Inl e))
      | Running (Inr env') \<Rightarrow> do {
          r \<leftarrow> run env';
          ret (case r of Exited n \<Rightarrow> Exited n | Fatal t \<Rightarrow> Fatal t | Running c \<Rightarrow> Running (Inr c))
        })"

definition plain_init :: "'w registry \<Rightarrow> 'w init_provider" where
  "plain_init F name config_file =
     (case F name of
        None \<Rightarrow> ret (Inr None)
      | Some f \<Rightarrow> do { r \<leftarrow> f; ret (map_sum id Some r) })"

lemma plain_execute_law: "execute_law plain_execute"
  unfolding execute_law_def
proof (intro allI impI)
  fix pre :: "environ \<Rightarrow> (goerr + environ) process" and run :: "environ \<Rightarrow> ('w, 'w provider process) go"
    and env cs c
  assume *: "runs (plain_execute pre run env) cs (Running (Inr c))"
  obtain env' where pre: "pre env = Running (Inr env')"
    using * by (auto simp: plain_execute_def runs_def split: process.splits sum.splits)
  from runs_map [OF * [unfolded plain_execute_def pre process.case sum.case]] obtain q
    where "runs (run env') cs q"
      "(case q of Exited n \<Rightarrow> Exited n | Fatal t \<Rightarrow> Fatal t | Running c \<Rightarrow> Running (Inr c)) =
        (Running (Inr c) :: (goerr + 'w provider) process)"
    by blast
  then show "\<exists>env' ds. pre env = Running (Inr env') \<and> runs (run env') ds (Running c) \<and> set ds \<subseteq> set cs"
    using pre by (cases q) auto
qed

lemma plain_init_law: "init_law F (plain_init F)"
  unfolding init_law_def
proof (intro allI impI)
  fix name config_file cs c
  assume *: "runs (plain_init F name config_file) cs (Inr (Some c))"
  obtain f where f: "F name = Some f"
    using * by (cases "F name") (auto simp: plain_init_def runs_def)
  from runs_map [OF * [unfolded plain_init_def f option.case]] obtain q
    where "runs f cs q" "map_sum id Some q = Inr (Some c)" by blast
  with f show "\<exists>f. F name = Some f \<and> runs f cs (Inr c)"
    by (cases q) auto
qed

definition plain_start :: "cmd_flags \<Rightarrow> environ \<Rightarrow> (unit, unit provider process) go" where
  "plain_start = main_program None plain_execute
     (\<lambda>env. plain_init (RegisterCloudProvider start_runtime start_api env Map.empty))"

definition start_flags :: cmd_flags where
  "start_flags = \<lparr>fl_ccm_version = False, fl_use_hrobot = True,
     fl_cloud = \<lparr>cc_name = ''hcloud'', cc_config_file = '''', cc_allow_untagged = True\<rparr>\<rparr>"

definition other_env :: environ where
  "other_env = start_env(UseHrobotProviderIDForBaremetalEnvVar \<mapsto> ''false'')"

lemma plain_start_runs: "\<exists>cs rc. runs (plain_start start_flags other_env) cs (Running (start_cloud, Some rc))"
proof -
  have env: "flag_env start_flags other_env = start_env"
    by (auto simp: flag_env_def start_flags_def other_env_def start_env_def UseHrobotProviderIDForBaremetalEnvVar_def)
  have pre: "PersistentPreRunE start_flags other_env = Running (Inr start_env)"
    by (simp add: pre_run_env env) (simp add: start_flags_def)
  let ?s = "\<lparr>trace = [], globals = sample_globals, ext = ()\<rparr> :: (api_call, go_globals, unit) world"
  obtain rc s1 where "run_state (newCloud start_runtime start_api start_env) ?s = (Inr (start_cloud, Some rc), s1)"
    using start_succeeds by blast
  then have "run_state (plain_start start_flags other_env) ?s = (Running (start_cloud, Some rc), s1)"
    by (simp add: plain_start_def main_program_def plain_execute_def pre cloudInitializer_def plain_init_def
        RegisterCloudProvider_def ProviderName_def) (simp add: start_flags_def)
  then show ?thesis
    unfolding runs_def by (intro exI [of _ "trace s1"] exI [of _ rc] exI [of _ ?s] exI [of _ s1]) simp
qed

theorem process_started_witness:
  "\<exists>cs rc. runs (plain_start start_flags other_env) cs (Running (start_cloud, Some rc)) \<and>
     env_ok start_env \<and> ServerList None \<in> set cs \<and> in_use_hrobot (cl_instances start_cloud)"
proof -
  obtain cs rc where run: "runs (plain_start start_flags other_env) cs (Running (start_cloud, Some rc))"
    using plain_start_runs by blast
  have env: "flag_env start_flags other_env = start_env" and flag: "fl_use_hrobot start_flags"
    by (auto simp: flag_env_def start_flags_def other_env_def start_env_def UseHrobotProviderIDForBaremetalEnvVar_def)
  have "\<forall>env. init_law (RegisterCloudProvider start_runtime start_api env Map.empty)
      (plain_init (RegisterCloudProvider start_runtime start_api env Map.empty))"
    by (simp only: plain_init_law simp_thms)
  from process_started [OF plain_execute_law this run [unfolded plain_start_def], unfolded env] flag
  have "env_ok start_env \<and> ServerList None \<in> set cs \<and> in_use_hrobot (cl_instances start_cloud)" by blast
  with run show ?thesis by blast
qed

theorem flag_names_nodes_witness:
  "\<exists>cs robot ds md rc'. runs (plain_start start_flags other_env) cs (Running (start_cloud, robot)) \<and>
     runs (InstanceMetadata (cl_instances start_cloud) (node_of ''bm-1'' '''') (fresh_client 60)) ds (Inr md, rc') \<and>
     (\<exists>i. md_provider_id md = ''hrobot://'' @ format_int i)"
proof -
  let ?m = "InstanceMetadata (cl_instances start_cloud) (node_of ''bm-1'' '''') (fresh_client 60)"
  obtain cs rc where run: "runs (plain_start start_flags other_env) cs (Running (start_cloud, Some rc))"
    using plain_start_runs by blast
  have "case fst (fst (outcome ?m sample_globals ())) of Inl e \<Rightarrow> False | Inr md \<Rightarrow> True" by code_simp
  then obtain md rc' where o: "fst (outcome ?m sample_globals ()) = (Inr md, rc')"
    by (cases "fst (outcome ?m sample_globals ())") (auto split: sum.splits)
  note meta = runs_outcome [OF o]
  have "\<exists>s. name_answer cached_list (fresh_client 60) (nd_name (node_of ''bm-1'' '''')) (snd (outcome ?m sample_globals ())) (Some s) \<and>
      md_provider_id md = ''hrobot://'' @ format_int (rs_number s)"
    by (rule flag_names_nodes [OF plain_execute_law _ run [unfolded plain_start_def] _ _ fresh_client_ok meta,
        where R = start_runtime and A = start_api and b = True])
      (auto simp: plain_init_law start_flags_def InstancesV2_def Initialize_def start_cloud_def node_of_def
        isHCloudServerByName_def hostNamePrefixRobot_def has_prefix_def)
  with run meta show ?thesis by blast
qed

end
