(* ===== verification/LoggingTransport.thy ===== *)
theory LoggingTransport
  imports Prelude
begin

text \<open>
  \<open>LoggingTransport\<close> of \<open>hcloud/cloud.go\<close>: the HTTP transport of the Robot client when ROBOT_DEBUG is set. It logs
  each request with the stack of its caller, in which the addresses are replaced and which is put on one line. The
  transport that it wraps is a parameter.
\<close>

section \<open>The stack in a log line\<close>

definition is_hex :: "char \<Rightarrow> bool" where
  "is_hex c \<longleftrightarrow> c \<in> set ''0123456789abcdef''"

text \<open>A match of the regular expression \<open>replaceHex\<close>: a zero, an x and at least one hexadecimal digit.\<close>

fun at_address :: "string \<Rightarrow> bool" where
  "at_address (a # b # h # t) = (a = CHR ''0'' \<and> b = CHR ''x'' \<and> is_hex h)"
| "at_address s = False"

function replaceHex :: "string \<Rightarrow> string" where
  "replaceHex [] = []"
| "replaceHex (c # s) =
     (if at_address (c # s) then ''0xX'' @ replaceHex (dropWhile is_hex (tl s)) else c # replaceHex s)"
  by pat_completeness auto
termination
proof (relation "measure length")
  show "(dropWhile is_hex (tl s), c # s) \<in> measure length" for c s
    using length_dropWhile_le [of is_hex "tl s"] by simp
qed auto

definition escape_newlines :: "string \<Rightarrow> string" where
  "escape_newlines s = concat (map (\<lambda>c. if c = CHR 0x0A then [CHR 0x5C, CHR ''n''] else [c]) s)"

definition logged_stack :: "string \<Rightarrow> string" where
  "logged_stack s = escape_newlines (replaceHex s)"

section \<open>RoundTrip\<close>

datatype log_line = RobotError goerr string | RobotCalled int string

text \<open>The response is a pointer; its status is read when there is no error, so a nil response panics then.\<close>

definition RoundTrip :: "('p \<Rightarrow> int) \<Rightarrow> ('q \<Rightarrow> 'w \<Rightarrow> ('p option \<times> goerr option) \<times> 'w) \<Rightarrow> string \<Rightarrow> 'q \<Rightarrow> 'w \<Rightarrow>
    (goerr + ('p option \<times> goerr option) \<times> log_line) \<times> 'w" where
  "RoundTrip status tr debug_stack req w =
     (let stack = logged_stack debug_stack
      in case tr req w of
           ((resp, Some e), w) \<Rightarrow> (Inr ((resp, Some e), RobotError e stack), w)
         | ((None, None), w) \<Rightarrow> (Inl (GoPanic ''invalid memory address or nil pointer dereference''), w)
         | ((Some r, None), w) \<Rightarrow> (Inr ((Some r, None), RobotCalled (status r) stack), w))"

text \<open>The contract of \<open>http.RoundTripper\<close>: a response or an error. The logging transport is transparent for it.\<close>

lemma RoundTrip_transparent:
  assumes "tr req w = (a, w')" and "fst a \<noteq> None \<or> snd a \<noteq> None"
  shows "\<exists>line. RoundTrip status tr s req w = (Inr (a, line), w')"
  using assms by (cases a) (auto simp: RoundTrip_def Let_def split: option.split)

section \<open>What a line never holds\<close>

fun has_address :: "string \<Rightarrow> bool" where
  "has_address [] = False"
| "has_address (c # s) = (at_address (c # s) \<or> has_address s)"

lemma replaceHex_head: "replaceHex s = [] \<longleftrightarrow> s = []" "s \<noteq> [] \<Longrightarrow> hd (replaceHex s) = hd s"
  by (cases s; cases "tl s"; cases "tl (tl s)"; simp)+

lemma at_address_replaced:
  assumes "\<not> at_address (c # s)"
  shows "\<not> at_address (c # replaceHex s)"
proof (cases s)
  case (Cons b t)
  show ?thesis
  proof (cases "at_address s")
    case True
    then have "b = CHR ''0''" using Cons by (cases s rule: at_address.cases) auto
    with True Cons show ?thesis by (simp add: is_hex_def)
  next
    case False
    then have "replaceHex s = b # replaceHex t" using Cons by simp
    then show ?thesis using assms Cons replaceHex_head [of t] by (cases t; cases "replaceHex t") auto
  qed
qed simp

lemma replaceHex_no_address: "\<not> has_address (replaceHex s)"
proof (induction s rule: replaceHex.induct)
  case (2 c s)
  show ?case
  proof (cases "at_address (c # s)")
    case True
    let ?r = "replaceHex (dropWhile is_hex (tl s))"
    have "\<not> at_address (CHR ''X'' # ?r)" "\<not> at_address (CHR ''x'' # CHR ''X'' # ?r)"
      by (cases ?r rule: at_address.cases; simp)+
    with 2(1) [OF True] True show ?thesis by (simp add: is_hex_def)
  next
    case False
    with 2(2) [OF False] at_address_replaced [OF False] show ?thesis by simp
  qed
qed simp

lemma escape_head:
  "escape_newlines [] = []"
  "escape_newlines (c # s) = (if c = CHR 0x0A then [CHR 0x5C, CHR ''n''] else [c]) @ escape_newlines s"
  by (simp_all add: escape_newlines_def)

lemma at_address_escape:
  assumes "\<not> at_address s" and "s = c # t" and "c \<noteq> CHR 0x0A"
  shows "\<not> at_address (c # escape_newlines t)"
  using assms
  by (cases s rule: at_address.cases; auto simp: escape_head is_hex_def split: if_splits list.splits)

lemma escape_no_address: "\<not> has_address s \<Longrightarrow> \<not> has_address (escape_newlines s)"
proof (induction s)
  case (Cons c s)
  show ?case
  proof (cases "c = CHR 0x0A")
    case True
    have "\<not> at_address (CHR 0x5C # t)" "\<not> at_address (CHR ''n'' # t)" for t
      by (cases t rule: at_address.cases; simp)+
    with True Cons show ?thesis by (simp add: escape_head)
  next
    case False
    with Cons at_address_escape [of "c # s" c s] show ?thesis by (simp add: escape_head)
  qed
qed (simp add: escape_head)

text \<open>A line that the logging transport writes is one line, and no address is left in its stack.\<close>

theorem logged_stack_clean:
  "CHR 0x0A \<notin> set (logged_stack s) \<and> \<not> has_address (logged_stack s)"
  unfolding logged_stack_def
  using escape_no_address [OF replaceHex_no_address] by (auto simp: escape_newlines_def)

end
