(* ===== verification/TestSupport.thy ===== *)
theory TestSupport
  imports EntryPoint
begin

text \<open>
  The helpers for tests that change or read state of the process and of services: \<open>Setenv\<close> and
  \<open>SkipEnv\<close> of \<open>hcloud/testing.go\<close> and \<open>AssertServiceAnnotated\<close> of \<open>internal/annotation/testing.go\<close>.
\<close>

section \<open>Setenv\<close>

text \<open>\<open>t.Fatal\<close> ends the test; the environment keeps what was set before.\<close>

datatype 'a tested = Failed string | Passed 'a

fun arg_pairs :: "string list \<Rightarrow> (string \<times> string) list" where
  "arg_pairs (k # v # args) = (k, v) # arg_pairs args"
| "arg_pairs args = []"

text \<open>What the returned function remembers: the names in order, and the values that were there before.\<close>

record saved_env =
  newVars :: "string list"
  oldEnv :: environ

definition save_var :: "string \<Rightarrow> environ \<Rightarrow> saved_env \<Rightarrow> saved_env" where
  "save_var k env sv = sv\<lparr>newVars := newVars sv @ [k],
     oldEnv := (case env k of Some old \<Rightarrow> (oldEnv sv)(k \<mapsto> old) | None \<Rightarrow> oldEnv sv)\<rparr>"

fun set_vars :: "(string \<times> string) list \<Rightarrow> environ \<Rightarrow> saved_env \<Rightarrow> saved_env tested \<times> environ" where
  "set_vars [] env sv = (Passed sv, env)"
| "set_vars ((k, v) # kvs) env sv =
     (case os_Setenv k v env of
        Inl e \<Rightarrow> (Failed (''Setenv failed: '' @ err_text e), env)
      | Inr env' \<Rightarrow> set_vars kvs env' (save_var k env sv))"

definition Setenv :: "string list \<Rightarrow> environ \<Rightarrow> saved_env tested \<times> environ" where
  "Setenv args env =
     (if length args mod 2 \<noteq> 0 then (Failed ''Sentenv: uneven number of args'', env)
      else set_vars (arg_pairs args) env \<lparr>newVars = [], oldEnv = Map.empty\<rparr>)"

text \<open>The returned function; \<open>os.Unsetenv\<close> does not fail, and a failed \<open>os.Setenv\<close> changes nothing.\<close>

definition restore_var :: "saved_env \<Rightarrow> string \<Rightarrow> environ \<Rightarrow> environ" where
  "restore_var sv k env =
     (case oldEnv sv k of
        None \<Rightarrow> env(k := None)
      | Some v \<Rightarrow> (case os_Setenv k v env of Inl e \<Rightarrow> env | Inr env' \<Rightarrow> env'))"

definition restore_env :: "saved_env \<Rightarrow> environ \<Rightarrow> environ" where
  "restore_env sv env = fold (restore_var sv) (newVars sv) env"

section \<open>What is restored\<close>

definition values_of :: "string \<Rightarrow> (string \<times> string) list \<Rightarrow> string list" where
  "values_of k kvs = map snd (filter (\<lambda>kv. fst kv = k) kvs)"

lemma values_of_simps [simp]:
  "values_of k [] = []"
  "values_of k (kvs @ [(k', v)]) = values_of k kvs @ (if k' = k then [v] else [])"
  "values_of k ((k', v) # kvs) = (if k' = k then [v] else []) @ values_of k kvs"
  by (simp_all add: values_of_def)

text \<open>The value that is remembered for a variable with the values \<open>vs\<close> in the arguments.\<close>

definition remembered :: "string option \<Rightarrow> string list \<Rightarrow> string option" where
  "remembered old vs = (if vs = [] then None else if length vs = 1 then old else Some (vs ! (length vs - 2)))"

definition env_values_ok :: "environ \<Rightarrow> bool" where
  "env_values_ok env \<longleftrightarrow> (\<forall>k v. env k = Some v \<longrightarrow> CHR 0x00 \<notin> set v)"

definition name_ok :: "string \<Rightarrow> bool" where
  "name_ok k \<longleftrightarrow> k \<noteq> '''' \<and> CHR ''='' \<notin> set k \<and> CHR 0x00 \<notin> set k"

definition saved :: "environ \<Rightarrow> (string \<times> string) list \<Rightarrow> environ \<Rightarrow> saved_env \<Rightarrow> bool" where
  "saved env kvs env' sv \<longleftrightarrow> newVars sv = map fst kvs \<and> (\<forall>k \<in> set (newVars sv). name_ok k) \<and> env_values_ok env' \<and>
     env_values_ok (oldEnv sv) \<and> (\<forall>k. env' k = (if values_of k kvs = [] then env k else Some (last (values_of k kvs)))) \<and>
     (\<forall>k. oldEnv sv k = remembered (env k) (values_of k kvs))"

lemma remembered_snoc:
  "remembered old (vs @ [v]) = (if vs = [] then old else Some (last vs))"
  by (auto simp: remembered_def nth_append last_conv_nth)

lemma saved_step:
  assumes "saved env kvs env1 sv" and "os_Setenv k v env1 = Inr env2"
  shows "saved env (kvs @ [(k, v)]) env2 (save_var k env1 sv)"
proof -
  have set: "env2 = env1(k \<mapsto> v)" "name_ok k" "CHR 0x00 \<notin> set v"
    using assms(2) by (auto simp: os_Setenv_def name_ok_def split: if_splits)
  moreover have "oldEnv (save_var k env1 sv) k' = remembered (env k') (values_of k' (kvs @ [(k, v)]))" for k'
    using assms(1) by (auto simp: saved_def save_var_def remembered_snoc remembered_def nth_append last_conv_nth split: option.splits)
  moreover have "env_values_ok env1" "env_values_ok (oldEnv sv)" using assms(1) by (simp_all add: saved_def)
  then have "env_values_ok (oldEnv (save_var k env1 sv))" "env_values_ok env2"
    using set by (auto simp: save_var_def env_values_ok_def split: option.splits)
  ultimately show ?thesis
    using assms(1) by (auto simp: saved_def save_var_def)
qed

lemma set_vars_saved:
  assumes "saved env kvs env1 sv1" and "set_vars kvs' env1 sv1 = (Passed sv, env')"
  shows "saved env (kvs @ kvs') env' sv"
  using assms
proof (induction kvs' env1 sv1 arbitrary: kvs rule: set_vars.induct)
  case (2 k v kvs' env1 sv1)
  then obtain env2 where set: "os_Setenv k v env1 = Inr env2" "set_vars kvs' env2 (save_var k env1 sv1) = (Passed sv, env')"
    by (auto split: sum.splits)
  from "2.IH" [OF set(1) saved_step [OF "2.prems"(1) set(1)] set(2)] show ?case by simp
qed simp

lemma restore_fold:
  assumes "\<forall>k \<in> set ks. name_ok k" and "env_values_ok (oldEnv sv)"
  shows "fold (restore_var sv) ks env k = (if k \<in> set ks then oldEnv sv k else env k)"
  using assms
proof (induction ks arbitrary: env)
  case (Cons k' ks)
  then have "restore_var sv k' env = env(k' := oldEnv sv k')"
    by (auto simp: restore_var_def os_Setenv_def name_ok_def env_values_ok_def split: option.split)
  with Cons show ?case by simp
qed simp

text \<open>What the function that \<open>Setenv\<close> returns restores, whatever the test did to the environment in between:
  a variable that the arguments name once gets its value back, or is unset if it was; one that they do not name stays as
  the test left it. A variable named more than once does not get its value back: it keeps the last but one of the
  values that the arguments gave it.\<close>

theorem Setenv_restores:
  assumes "Setenv args env = (Passed sv, env')" and "env_values_ok env"
  shows "env' k = (if values_of k (arg_pairs args) = [] then env k else Some (last (values_of k (arg_pairs args)))) \<and>
    restore_env sv env2 k =
      (if values_of k (arg_pairs args) = [] then env2 k
       else if length (values_of k (arg_pairs args)) = 1 then env k
       else Some (values_of k (arg_pairs args) ! (length (values_of k (arg_pairs args)) - 2)))"
proof -
  have "set_vars (arg_pairs args) env \<lparr>newVars = [], oldEnv = Map.empty\<rparr> = (Passed sv, env')"
    using assms(1) by (auto simp: Setenv_def split: if_splits)
  moreover have "saved env [] env \<lparr>newVars = [], oldEnv = Map.empty\<rparr>"
    using assms(2) by (simp add: saved_def remembered_def env_values_ok_def)
  ultimately have sv: "saved env (arg_pairs args) env' sv" using set_vars_saved [of env "[]"] by simp
  moreover have "k \<in> set (newVars sv) \<longleftrightarrow> values_of k (arg_pairs args) \<noteq> []"
    using sv by (auto simp: saved_def values_of_def filter_empty_conv)
  ultimately show ?thesis
    unfolding restore_env_def by (simp add: saved_def restore_fold remembered_def)
qed

theorem Setenv_restores_witness:
  "\<exists>sv env'. Setenv [''A'', ''1'', ''B'', ''2'', ''B'', ''3''] [''A'' \<mapsto> ''0'', ''B'' \<mapsto> ''0''] = (Passed sv, env') \<and>
     env' ''A'' = Some ''1'' \<and> env' ''B'' = Some ''3'' \<and>
     restore_env sv env' ''A'' = Some ''0'' \<and> restore_env sv env' ''B'' = Some ''2''"
proof -
  let ?args = "[''A'', ''1'', ''B'', ''2'', ''B'', ''3'']" and ?env = "[''A'' \<mapsto> ''0'', ''B'' \<mapsto> ''0''] :: environ"
  obtain sv env' where set: "Setenv ?args ?env = (Passed sv, env')"
    by (simp add: Setenv_def os_Setenv_def)
  have ok: "env_values_ok ?env" by (auto simp: env_values_ok_def split: if_splits)
  have A: "env' ''A'' = Some ''1''" "restore_env sv env' ''A'' = Some ''0''"
    using Setenv_restores [OF set ok, of "''A''" env'] by simp_all
  have B: "env' ''B'' = Some ''3''" "restore_env sv env' ''B'' = Some ''2''"
    using Setenv_restores [OF set ok, of "''B''" env'] by simp_all
  from set A B show ?thesis by blast
qed

section \<open>SkipEnv\<close>

text \<open>The variable for whose absence a test is skipped.\<close>

fun SkipEnv :: "string list \<Rightarrow> environ \<Rightarrow> string option" where
  "SkipEnv [] env = None"
| "SkipEnv (v # vars) env = (if env v = None then Some v else SkipEnv vars env)"

lemma SkipEnv_runs: "SkipEnv vars env = None \<longleftrightarrow> set vars \<subseteq> dom env"
  by (induction vars) auto

section \<open>AssertServiceAnnotated\<close>

text \<open>The value that is compared with the expectation: read as the type of the expectation when the switch
  knows it, else the string of the annotation.\<close>

fun actual_value :: "annot \<Rightarrow> annot_value \<Rightarrow> string \<Rightarrow> service \<Rightarrow> goerr + annot_value" where
  "actual_value n (VBool b) t svc = map_sum id VBool (BoolFromService n svc)"
| "actual_value n (VInt i) t svc = map_sum id VInt (IntFromService n svc)"
| "actual_value n (VStrings ss) t svc = map_sum id VStrings (StringsFromService n svc)"
| "actual_value n (VIP x) t svc = map_sum id VIP (IPFromService n svc)"
| "actual_value n (VDuration d) t svc = map_sum id VDuration (DurationFromService n svc)"
| "actual_value n (VCertificates cs) t svc = map_sum id VCertificates (CertificatesFromService n svc)"
| "actual_value n (VAlgorithmType a) t svc = map_sum id VAlgorithmType (LBAlgorithmTypeFromService n svc)"
| "actual_value n (VServiceProtocol p) t svc = map_sum id VServiceProtocol (LBSvcProtocolFromService n svc)"
| "actual_value n (VNetworkZone z) t svc = map_sum id VNetworkZone (NetworkZoneFromService n svc)"
| "actual_value n v t svc = Inr (VString t)"

text \<open>The expectations that are reported as failed.\<close>

definition AssertServiceAnnotated :: "service \<Rightarrow> (annot \<times> annot_value) list \<Rightarrow> (annot \<times> annot_value) list" where
  "AssertServiceAnnotated svc expected = filter (\<lambda>(n, ev).
     case StringFromService n svc of None \<Rightarrow> True | Some t \<Rightarrow> actual_value n ev t svc \<noteq> Inr ev) expected"

text \<open>An expectation on an annotation that nothing wrote fails, and writing another annotation changes no verdict.\<close>

lemma assert_absent: "StringFromService n svc = None \<Longrightarrow> AssertServiceAnnotated svc [(n, ev)] = [(n, ev)]"
  by (simp add: AssertServiceAnnotated_def)

lemma assert_annotated:
  assumes "value_text ev = Some t"
  shows "AssertServiceAnnotated (fst (AnnotateService n ev svc)) [(n, ev)] = [] \<longleftrightarrow>
    actual_value n ev t (fst (AnnotateService n ev svc)) = Inr ev"
  by (simp add: AssertServiceAnnotated_def StringFromService_annotate [OF assms])

text \<open>The switch has no case for 64-bit integers and certificate types, which \<open>AnnotateService\<close> writes: an
  expectation of these types never holds.\<close>

lemma assert_unknown_types:
  "AssertServiceAnnotated svc [(n, VInt64 i)] = [(n, VInt64 i)]"
  "AssertServiceAnnotated svc [(n, VCertificateType c)] = [(n, VCertificateType c)]"
  by (simp_all add: AssertServiceAnnotated_def split: option.split)

end
