(* ===== verification/Spec2Isabelle.thy ===== *)
theory Spec2Isabelle
  imports Prelude GoStrings GoNet GoTime K8sTypes HCloudTypes AddressFamily ProviderID Annotation RateLimit
    HCloudAPI Certificates ServiceOpts LBOps LBTargets Samples LBTargetsCorrect LBTargetsSafety
    ServiceOptsCorrect LBServices LBOpsCorrect LBInterface
    NodePortSource NodePortRuns NodePortHistory LoadBalancers LoadBalancersSafety LoadBalancersCorrect
    ServerCache Routes RoutesCorrect RoutesFuel RoutesHistory
    RobotCache RobotInterface Instances InstancesCorrect GlobalRuns RobotBackoff Credentials CredentialsCorrect Cloud CloudCorrect Controller
    RateLimitRace SharedClient StartFailures EntryPoint LoggingTransport TestSupport
begin

text \<open>
  The Hetzner cloud controller manager. Kubernetes calls the controller for every node, service
  and route of a cluster; the controller talks to the Hetzner Cloud API, to the Hetzner Robot API
  (dedicated servers) and to the Kubernetes API. This library models its Go code as programs in a
  state monad over a logged world and proves what those programs do, whatever the APIs answer.

  \<^bold>\<open>How the code is read.\<close> A Go function that talks to the outside is a program of type
  \<open>('w, 'a) go\<close> (\<open>HCloudAPI\<close>): state passing over a record with the log of all calls, the package
  variables and an arbitrary outside state. The client interfaces are the fields of the record
  \<open>api\<close>, arbitrary functions, so every theorem holds for every behaviour of the services. Errors
  are values of \<open>goerr\<close> with the chain that \<open>fmt.Errorf\<close> builds; a panic is the error \<open>GoPanic\<close>.
  A struct is a record, an enumeration a datatype, Go's 64-bit \<open>int\<close> an integer whose
  range matters only where text is parsed (\<open>parse_int64\<close> checks it). The order in which Go visits
  a map is an arbitrary ranking, so a theorem for every ranking covers every order
  (\<open>Prelude.map_order_every_order\<close>). Go's standard library, as far as the code uses it, is modelled
  executably in \<open>GoStrings\<close>, \<open>GoNet\<close> and \<open>GoTime\<close>.

  \<^bold>\<open>The parts.\<close>

  \<^item> \<open>Prelude\<close>: errors, programs, loops, validity (\<open>valid\<close>, \<open>all_calls\<close>, \<open>runs\<close>) and their rules; \<open>GlobalRuns\<close>: validity
    with the package variables (\<open>gvalid\<close>).
  \<^item> \<open>K8sTypes\<close>, \<open>HCloudTypes\<close>, \<open>HCloudAPI\<close>: the data of the APIs and the calls.
  \<^item> \<open>ProviderID\<close> (\<open>internal/providerid\<close>), \<open>AddressFamily\<close> (\<open>internal/addressfamily\<close>), \<open>Annotation\<close>
    (\<open>internal/annotation\<close>), \<open>RateLimit\<close> (\<open>internal/hcops/ratelimit.go\<close>, \<open>internal/util\<close>),
    \<open>Certificates\<close> (\<open>internal/hcops/certificates.go\<close>).
  \<^item> \<open>ServiceOpts\<close>, \<open>ServiceOptsCorrect\<close>: the builder \<open>hclbServiceOptsBuilder\<close> and its equivalence
    with a declarative reading of the annotations.
  \<^item> \<open>LBOps\<close>, \<open>LBOpsCorrect\<close>: \<open>LoadBalancerOps\<close> without targets and services.
  \<^item> \<open>LBTargets\<close>, \<open>LBTargetsCorrect\<close>, \<open>LBTargetsSafety\<close>: \<open>ReconcileHCLBTargets\<close>.
  \<^item> \<open>LBServices\<close>: \<open>ReconcileHCLBServices\<close> and the managed certificate.
  \<^item> \<open>LBInterface\<close>: the interface of \<open>hcloud/load_balancers.go\<close> as the locale \<open>lb_provider\<close>,
    interpreted with \<open>LoadBalancerOps\<close>.
  \<^item> \<open>LoadBalancers\<close> (\<open>hcloud/load_balancers.go\<close>): the handlers that Kubernetes calls for a service.
    \<open>LoadBalancersSafety\<close> proves what they may do to which load balancer from the laws of the interface
    (locale \<open>lb_lookup\<close>); \<open>LoadBalancersCorrect\<close> has the reported status and shows that the annotations written back read as the
    settings of the load balancer (durations of whole seconds read back from their text in \<open>GoTime\<close>).
  \<^item> \<open>NodePortSource\<close>, \<open>NodePortRuns\<close>, \<open>NodePortHistory\<close> (\<open>hcloud/node_port_source.go\<close>): the source ranges of
    a service: the calculation, the guarded patch with its retries, and the interleaving of the controller
    with users as a state machine. The retry of client-go is a parameter with the hypothesis
    \<open>retries_conflicts\<close>, its documented behaviour: it calls the function again only after a conflict.
  \<^item> \<open>ServerCache\<close> (\<open>internal/hcops/server.go\<close>): the cache of all servers, and its refinement of a list of
    servers with an age.
  \<^item> \<open>Routes\<close> (\<open>hcloud/routes.go\<close>): the routes of the pod network. \<open>RoutesCorrect\<close> shows what \<open>CreateRoute\<close> adds
    and deletes, request by request against the latest list of servers in the log (\<open>latest\<close>); \<open>RoutesHistory\<close> does listing, deleting and the life of the receiver. \<open>CreateRoute\<close> and
    \<open>deleteRouteFromHcloud\<close> repeat a refused request without bound as long as the network is locked, so their
    models take fuel and return \<open>None\<close> when it is used up; \<open>RoutesFuel\<close> shows that fuel \<open>n\<close> suffices for every
    run with fewer than \<open>n\<close> such refusals and that more fuel changes neither result nor log.
  \<^item> \<open>RobotCache\<close> (\<open>internal/robot/client\<close>): the caching client of the Robot API and the plain adapter as two
    providers of the record \<open>robot_client\<close>; the refinement of a list with an age, and the life of a client as an
    inductive relation, with the window in which a name forces no second refresh.
    \<open>RobotInterface\<close> states what the clients of the Go interface rely on as the locale \<open>robot_provider\<close>, proves
    the lookups of \<open>hcloud/util.go\<close> in it and interprets it with both providers.
  \<^item> \<open>Instances\<close> (\<open>hcloud/instances.go\<close>, \<open>hcloud/util.go\<close>, \<open>internal/legacydatacenter\<close>): the handlers that Kubernetes
    calls for a node. \<open>InstancesCorrect\<close> shows on what evidence a node is said to exist or to be gone, that
    the provider ID in the metadata reads back, and which data centres panic. \<open>RobotBackoff\<close> composes the handlers with
    the rate limiter: after a report of the limit, a history of handlers asks the Robot API nothing until the waiting time
    is over, for every client that reports its failures (locale \<open>robot_reporter\<close>).
  \<^item> \<open>Credentials\<close> (\<open>internal/credentials\<close>): reading the mounted secrets and reloading them on events of the file
    system. The goroutine of \<open>Watch\<close> is \<open>watch_loop\<close>, a loop over the events delivered; the package variables are part
    of the globals. \<open>CredentialsCorrect\<close> shows that the clients follow the files, and two ways in which
    a reload goes wrong.
  \<^item> \<open>Cloud\<close> (\<open>hcloud/cloud.go\<close>): the start of the provider from the environment and the parts that it hands to Kubernetes.
    \<open>CloudCorrect\<close> shows that a start that succeeds has one consistent configuration, and composes it with the
    load balancer handlers: where a started provider creates load balancers. \<open>StartFailures\<close> is the other half: every failure
    of a start has a cause in the environment or in an answer of its log, so a start without such a cause succeeds.
    \<open>LoggingTransport\<close> is the debugging transport of the same file.
  \<^item> \<open>EntryPoint\<close> (\<open>main.go\<close>): the flags, the pre-run that exports them into the environment, the initializer and the
    registration of the provider. The command library and the framework's \<open>InitCloudProvider\<close> are parameters with the
    hypotheses \<open>execute_law\<close> and \<open>init_law\<close>, their documentation. What a running process has established is composed with the
    configuration of the provider and with the metadata of the nodes.
  \<^item> \<open>RateLimitRace\<close>: the rate limit handler on threads, one statement per step, without the mutex that the code does
    not have: when a report survives every interleaving, and an interleaving in which it is lost.
  \<^item> \<open>SharedClient\<close>: the cached Robot client below the load balancers. \<open>through_cache\<close> builds the API that \<open>LoadBalancerOps\<close>
    sees from the raw API and the cache; the locale \<open>outside_history\<close> carries an invariant of the outside along a
    program, so the lists behind the targets are traced to the cache or to the raw Robot API.
  \<^item> \<open>TestSupport\<close> (\<open>hcloud/testing.go\<close>, \<open>internal/annotation/testing.go\<close>): the helpers that set and restore the environment
    and compare annotations.
  \<^item> \<open>Controller\<close>: the whole program as a relation over histories: a start, then handlers of nodes, services and routes and
    events of the watcher in any order, each kept with what the framework asked for (\<open>work\<close>) and its calls. The invariant says
    what each step may have created, deleted and routed at the Hetzner API for the service or route it was asked for; it rests on
    the laws and invariants of the parts.
  \<^item> \<open>Samples\<close>: concrete inputs and a concrete outside for the witnesses.

  \<^bold>\<open>How the parts meet.\<close> \<open>newCloud\<close> builds \<open>LoadBalancerOps\<close> (\<open>newLBOps\<close>), the handlers over it (\<open>newLoadBalancers\<close>) and the
  instances (\<open>newInstances\<close>) with one API, one network and one Robot client. The handlers of load balancers use
  \<open>LoadBalancerOps\<close> through \<open>lb_iface\<close>, the instances use the Robot client through \<open>robot_client\<close>. In the model of
  \<open>LoadBalancerOps\<close> the list of Robot servers is the call \<open>robot_list\<close>, which may return any list, so its theorems hold
  with the cached client in particular; \<open>SharedClient\<close> says what that client adds. Values that the program takes from code outside the repository without
  a call in its log are parameters: the iteration orders of maps, the retry of client-go and the test for a missing
  address of hcloud-go (\<open>runtime\<close>).

  \<^bold>\<open>Not modelled.\<close> Contexts and their cancellation, logging and metric counters have no effect
  that the code reads back. Of \<open>main.go\<close> the normalisation of flag names and the printed version text, and of
  \<open>hcloud/cloud.go\<close> the options for debugging, metrics and endpoints are left out, which change no request that the
  model logs; of \<open>credentials.Watch\<close> the failure to create a watcher, which ends the process. Mutexes make the operations they
  guard atomic; the model has those operations as steps. The rate limit handler has no mutex: \<open>RateLimitRace\<close> has its
  interleavings, the other theories take its methods as steps. \<open>Controller\<close> interleaves whole handlers, not their single
  requests; the outside may be any at the start of each step. Mocks, the fixtures built on them and the test server's
  certificates have no behaviour of their own, and the counters of \<open>internal/metrics\<close> are never read back.
\<close>

end
